theory Spec2Isabelle
  imports Complex_Main "HOL-Library.Sublist" "HOL-Library.AList" "HOL-Library.Log_Nat"
begin

section \<open>JavaScript strings\<close>

text \<open>
  A string is a list of code units; the embedding covers the code units below 256
  (Latin-1), which is what \<^typ>\<open>char\<close> holds. \<open>is_space\<close> is the white space and line
  terminator set of \<open>String.prototype.trim\<close> and of the regular expression class \<open>\s\<close>
  in that range.
\<close>

definition is_space :: "char \<Rightarrow> bool" where
  "is_space c = (of_char c \<in> {9, 10, 11, 12, 13, 32, 160 :: nat})"

definition trim :: "string \<Rightarrow> string" where
  "trim s = rev (dropWhile is_space (rev (dropWhile is_space s)))"

definition in_range :: "char \<Rightarrow> char \<Rightarrow> char \<Rightarrow> bool" where
  "in_range lo hi c = ((of_char lo :: nat) \<le> of_char c \<and> (of_char c :: nat) \<le> of_char hi)"

definition is_digit :: "char \<Rightarrow> bool" where
  "is_digit c = in_range CHR ''0'' CHR ''9'' c"

definition is_upper :: "char \<Rightarrow> bool" where
  "is_upper c = in_range CHR ''A'' CHR ''Z'' c"

definition is_lower :: "char \<Rightarrow> bool" where
  "is_lower c = in_range CHR ''a'' CHR ''z'' c"

text \<open>The word characters of \<open>\b\<close>: \<open>[A-Za-z0-9_]\<close>.\<close>

definition is_word :: "char \<Rightarrow> bool" where
  "is_word c = (is_upper c \<or> is_lower c \<or> is_digit c \<or> c = CHR ''_'')"

text \<open>\<open>toLowerCase\<close> on Latin-1: \<open>A-Z\<close> and \<open>U+00C0 .. U+00DE\<close> without the
  multiplication sign move up by 32.\<close>

definition lower_char :: "char \<Rightarrow> char" where
  "lower_char c =
     (let n = (of_char c :: nat)
      in if (65 \<le> n \<and> n \<le> 90) \<or> (192 \<le> n \<and> n \<le> 222 \<and> n \<noteq> 215)
         then char_of (n + 32) else c)"

definition toLowerCase :: "string \<Rightarrow> string" where
  "toLowerCase s = map lower_char s"

text \<open>The case folding of a regular expression with the \<open>i\<close> flag compares upper-cased
  code units; a code unit whose upper case lies outside Latin-1 or is not a single code
  unit stays as it is.\<close>

definition upper_char :: "char \<Rightarrow> char" where
  "upper_char c =
     (let n = (of_char c :: nat)
      in if (97 \<le> n \<and> n \<le> 122) \<or> (224 \<le> n \<and> n \<le> 254 \<and> n \<noteq> 247)
         then char_of (n - 32) else c)"

text \<open>\<open>s.includes(w)\<close>: \<open>w\<close> occurs in \<open>s\<close> as a contiguous block.\<close>

definition str_includes :: "string \<Rightarrow> string \<Rightarrow> bool" where
  "str_includes s w = sublist w s"

text \<open>
  \<open>s.split(/[...]+/)\<close> for a character class \<open>P\<close>: the pieces between maximal runs of
  separator characters. A separator run at the start or the end of the string leaves an
  empty piece there, and the empty string splits into one empty piece.
\<close>

fun split_runs :: "(char \<Rightarrow> bool) \<Rightarrow> bool \<Rightarrow> string \<Rightarrow> string \<Rightarrow> string list" where
  "split_runs P in_sep acc [] = [rev acc]"
| "split_runs P in_sep acc (c # cs) =
     (if P c then (if in_sep then split_runs P True [] cs
                   else rev acc # split_runs P True [] cs)
      else split_runs P False (c # acc) cs)"

definition split_on :: "(char \<Rightarrow> bool) \<Rightarrow> string \<Rightarrow> string list" where
  "split_on P s = split_runs P False [] s"

text \<open>Decimal rendering of the integers that appear in template literals.\<close>

fun show_nat :: "nat \<Rightarrow> string" where
  "show_nat n =
     (if n < 10 then [char_of (48 + n)]
      else show_nat (n div 10) @ [char_of (48 + n mod 10)])"

declare show_nat.simps [simp del]

definition show_int :: "int \<Rightarrow> string" where
  "show_int i = (if i < 0 then ''-'' @ show_nat (nat (- i)) else show_nat (nat i))"

section \<open>Regular expressions of the heuristic analyzer\<close>

text \<open>
  The patterns of the source are sequences of three kinds of atoms: the assertion \<open>\b\<close>, a
  greedy repetition of a character class, and an ordered alternative of literals. The
  matcher backtracks as the engine does: a repetition tries its longest run first, an
  alternative its literals from left to right. \<open>match_here\<close> returns the length of the
  first match that starts at the current position; \<open>prev\<close> is the code unit before it.
\<close>

datatype atom =
    WordB
  | Rep "char \<Rightarrow> bool" nat "nat option"
  | Alt "string list"

record regex =
  atoms :: "atom list"
  ignoreCase :: bool

definition first_some :: "'a option list \<Rightarrow> 'a option" where
  "first_some xs = (case filter (\<lambda>x. x \<noteq> None) xs of [] \<Rightarrow> None | x # _ \<Rightarrow> x)"

definition at_word :: "char option \<Rightarrow> bool" where
  "at_word c = (case c of None \<Rightarrow> False | Some x \<Rightarrow> is_word x)"

definition next_char :: "string \<Rightarrow> char option" where
  "next_char s = (case s of [] \<Rightarrow> None | c # _ \<Rightarrow> Some c)"

definition prev_after :: "char option \<Rightarrow> string \<Rightarrow> nat \<Rightarrow> char option" where
  "prev_after prev s k = (if k = 0 then prev else next_char (drop (k - 1) s))"

definition lit_matches :: "bool \<Rightarrow> string \<Rightarrow> string \<Rightarrow> bool" where
  "lit_matches ic w s =
     (length w \<le> length s \<and>
      (if ic then map upper_char (take (length w) s) = map upper_char w
       else take (length w) s = w))"

fun match_here :: "atom list \<Rightarrow> bool \<Rightarrow> char option \<Rightarrow> string \<Rightarrow> nat option" where
  "match_here [] ic prev s = Some 0"
| "match_here (WordB # as) ic prev s =
     (if at_word prev \<noteq> at_word (next_char s) then match_here as ic prev s else None)"
| "match_here (Rep P lo hi # as) ic prev s =
     (let run = length (takeWhile P s);
          most = (case hi of None \<Rightarrow> run | Some h \<Rightarrow> min run h)
      in first_some
           (map (\<lambda>k. map_option ((+) k) (match_here as ic (prev_after prev s k) (drop k s)))
                (rev [lo ..< Suc most])))"
| "match_here (Alt ws # as) ic prev s =
     first_some
       (map (\<lambda>w. if lit_matches ic w s
                  then map_option ((+) (length w))
                         (match_here as ic (prev_after prev s (length w)) (drop (length w) s))
                  else None) ws)"

text \<open>
  \<open>s.match(r)\<close> with the \<open>g\<close> flag: every match from left to right, the search resuming
  where the last match ended. \<open>s.replace(r, '')\<close> with the \<open>g\<close> flag deletes the same
  matches. None of the patterns below matches the empty string.
\<close>

fun match_all_from :: "atom list \<Rightarrow> bool \<Rightarrow> nat \<Rightarrow> char option \<Rightarrow> string \<Rightarrow> string list" where
  "match_all_from as ic skip prev [] = []"
| "match_all_from as ic skip prev (c # cs) =
     (if skip > 0 then match_all_from as ic (skip - 1) (Some c) cs
      else case match_here as ic prev (c # cs) of
             Some (Suc n) \<Rightarrow> take (Suc n) (c # cs) # match_all_from as ic n (Some c) cs
           | _ \<Rightarrow> match_all_from as ic 0 (Some c) cs)"

fun remove_all_from :: "atom list \<Rightarrow> bool \<Rightarrow> nat \<Rightarrow> char option \<Rightarrow> string \<Rightarrow> string" where
  "remove_all_from as ic skip prev [] = []"
| "remove_all_from as ic skip prev (c # cs) =
     (if skip > 0 then remove_all_from as ic (skip - 1) (Some c) cs
      else case match_here as ic prev (c # cs) of
             Some (Suc n) \<Rightarrow> remove_all_from as ic n (Some c) cs
           | _ \<Rightarrow> c # remove_all_from as ic 0 (Some c) cs)"

definition match_all :: "regex \<Rightarrow> string \<Rightarrow> string list" where
  "match_all r s = match_all_from (atoms r) (ignoreCase r) 0 None s"

definition remove_all :: "regex \<Rightarrow> string \<Rightarrow> string" where
  "remove_all r s = remove_all_from (atoms r) (ignoreCase r) 0 None s"

text \<open>\<open>[...new Set(xs)]\<close>: the first occurrence of every element, in insertion order.\<close>

fun distinct_in_order :: "'a list \<Rightarrow> 'a list \<Rightarrow> 'a list" where
  "distinct_in_order seen [] = []"
| "distinct_in_order seen (x # xs) =
     (if x \<in> set seen then distinct_in_order seen xs
      else x # distinct_in_order (x # seen) xs)"

section \<open>JSON values\<close>

text \<open>
  Untyped values (\<open>any\<close>) are JSON values. A number of JSON is the rational it denotes;
  the numbers that arithmetic produces are in the section on numbers. A property that is
  not there reads as \<open>undefined\<close>, which is \<open>None\<close>.
\<close>

datatype json =
    JNull
  | JBool bool
  | JNum rat
  | JStr string
  | JArr "json list"
  | JObj "(string \<times> json) list"

datatype error =
    TypeError
  | SyntaxError
  | StoreError
  | NotFound string
  | Failure string

fun truthy :: "json \<Rightarrow> bool" where
  "truthy JNull = False"
| "truthy (JBool b) = b"
| "truthy (JNum r) = (r \<noteq> 0)"
| "truthy (JStr s) = (s \<noteq> [])"
| "truthy (JArr xs) = True"
| "truthy (JObj kvs) = True"

text \<open>\<open>a || b\<close>\<close>

definition or_else :: "json option \<Rightarrow> json \<Rightarrow> json" where
  "or_else a b = (case a of None \<Rightarrow> b | Some v \<Rightarrow> if truthy v then v else b)"

text \<open>\<open>v.name\<close> for the property names this file reads (none of them is a property of a
  string, a number, a boolean or an array): \<open>null\<close> raises, an object is looked up.\<close>

fun member :: "json \<Rightarrow> string \<Rightarrow> error + json option" where
  "member JNull name = Inl TypeError"
| "member (JObj kvs) name = Inr (map_of kvs name)"
| "member v name = Inr None"

text \<open>\<open>v?.name\<close>\<close>

fun opt_member :: "json option \<Rightarrow> string \<Rightarrow> json option" where
  "opt_member (Some (JObj kvs)) name = map_of kvs name"
| "opt_member v name = None"

text \<open>\<open>v[0]\<close>\<close>

fun first_element :: "json option \<Rightarrow> error + json option" where
  "first_element None = Inl TypeError"
| "first_element (Some JNull) = Inl TypeError"
| "first_element (Some (JArr xs)) = Inr (case xs of [] \<Rightarrow> None | x # _ \<Rightarrow> Some x)"
| "first_element (Some (JStr s)) = Inr (case s of [] \<Rightarrow> None | c # _ \<Rightarrow> Some (JStr [c]))"
| "first_element (Some (JObj kvs)) = Inr (map_of kvs ''0'')"
| "first_element (Some v) = Inr None"

definition bindS :: "error + 'a \<Rightarrow> ('a \<Rightarrow> error + 'b) \<Rightarrow> error + 'b" where
  "bindS m f = (case m of Inl e \<Rightarrow> Inl e | Inr x \<Rightarrow> f x)"

section \<open>Heuristic content analyzer\<close>

datatype capture_type = Email | Note | TaskCapture | Idea | Link | File | Voice

record captureData =
  c_type :: capture_type
  c_content :: string
  c_source :: "string option"
  c_metadata :: "json option"
  c_priority :: "string option"

definition is_boundary :: "char \<Rightarrow> bool" where
  "is_boundary c = (c = CHR ''.'' \<or> c = CHR ''!'' \<or> c = CHR ''?'')"

text \<open>\<open>content.split(/[.!?]+/).filter(s => s.trim().length > 0)\<close>\<close>

definition sentences_of :: "string \<Rightarrow> string list" where
  "sentences_of content =
     filter (\<lambda>s. length (trim s) > 0) (split_on is_boundary content)"

definition generateFallbackSummary :: "string \<Rightarrow> string" where
  "generateFallbackSummary content =
     (let sentences = sentences_of content
      in if length sentences = 0 then take 100 content @ ''...''
         else trim (hd sentences) @ (if length sentences > 1 then ''...'' else []))"

definition categorizeContent :: "string \<Rightarrow> capture_type \<Rightarrow> string" where
  "categorizeContent content type =
     (let lowerContent = toLowerCase content
      in if type = Email then ''communication''
         else if type = TaskCapture then ''task''
         else if type = Idea then ''idea''
         else if str_includes lowerContent ''meeting'' \<or> str_includes lowerContent ''call''
           then ''meeting''
         else if str_includes lowerContent ''research'' \<or> str_includes lowerContent ''study''
           then ''research''
         else if str_includes lowerContent ''plan'' \<or> str_includes lowerContent ''strategy''
           then ''planning''
         else ''general'')"

definition urgentWords :: "string list" where
  "urgentWords = [''urgent'', ''asap'', ''deadline'', ''critical'', ''important'', ''priority'']"

definition highPriorityWords :: "string list" where
  "highPriorityWords = [''meeting'', ''client'', ''project'', ''due'']"

definition determinePriority :: "string \<Rightarrow> string" where
  "determinePriority content =
     (let lowerContent = toLowerCase content
      in if list_ex (\<lambda>word. str_includes lowerContent word) urgentWords then ''high''
         else if list_ex (\<lambda>word. str_includes lowerContent word) highPriorityWords then ''medium''
         else ''low'')"

definition generateSuggestedActions :: "captureData \<Rightarrow> string list" where
  "generateSuggestedActions captureData =
     (let content = toLowerCase (c_content captureData);
          seed = (if c_type captureData = Email
                    then [''Reply to email'', ''Add to calendar'', ''Create task'']
                  else if c_type captureData = Idea
                    then [''Create project'', ''Add to research list'', ''Schedule brainstorm'']
                  else if c_type captureData = TaskCapture
                    then [''Set deadline'', ''Assign priority'', ''Add to project'']
                  else []);
          actions = seed
            @ (if str_includes content ''meeting'' then [''Schedule meeting''] else [])
            @ (if str_includes content ''research'' then [''Create research project''] else [])
            @ (if str_includes content ''follow up'' then [''Set reminder''] else [])
      in take 3 actions)"

text \<open>\<open>/\b[A-Z][a-z]+ [A-Z][a-z]+\b/g\<close>\<close>

definition namePattern :: regex where
  "namePattern =
     \<lparr>atoms = [WordB, Rep is_upper 1 (Some 1), Rep is_lower 1 None, Alt ['' ''],
               Rep is_upper 1 (Some 1), Rep is_lower 1 None, WordB],
      ignoreCase = False\<rparr>"

definition extractPeople :: "string \<Rightarrow> string list" where
  "extractPeople content = take 5 (distinct_in_order [] (match_all namePattern content))"

text \<open>The four date patterns, in the order of the source:
  \<open>/\b\d{1,2}\/\d{1,2}\/\d{4}\b/g\<close>, \<open>/\b\d{1,2}-\d{1,2}-\d{4}\b/g\<close>,
  \<open>/\b(Jan|Feb|...|Dec)\s+\d{1,2}\b/gi\<close> and
  \<open>/\b(today|tomorrow|next week|next month)\b/gi\<close>.\<close>

definition datePatterns :: "regex list" where
  "datePatterns =
     [\<lparr>atoms = [WordB, Rep is_digit 1 (Some 2), Alt [''/''], Rep is_digit 1 (Some 2),
                Alt [''/''], Rep is_digit 4 (Some 4), WordB],
       ignoreCase = False\<rparr>,
      \<lparr>atoms = [WordB, Rep is_digit 1 (Some 2), Alt [''-''], Rep is_digit 1 (Some 2),
                Alt [''-''], Rep is_digit 4 (Some 4), WordB],
       ignoreCase = False\<rparr>,
      \<lparr>atoms = [WordB,
                Alt [''Jan'', ''Feb'', ''Mar'', ''Apr'', ''May'', ''Jun'', ''Jul'', ''Aug'',
                     ''Sep'', ''Oct'', ''Nov'', ''Dec''],
                Rep is_space 1 None, Rep is_digit 1 (Some 2), WordB],
       ignoreCase = True\<rparr>,
      \<lparr>atoms = [WordB, Alt [''today'', ''tomorrow'', ''next week'', ''next month''], WordB],
       ignoreCase = True\<rparr>]"

definition extractDates :: "string \<Rightarrow> string list" where
  "extractDates content =
     take 3 (distinct_in_order []
       (concat (map (\<lambda>pattern. match_all pattern content) datePatterns)))"

text \<open>\<open>/(todo|task|need to|should|must|have to)[\s:]+([^.!?]+)/gi\<close>, and the same pattern
  without its last group, which the callback deletes from every match.\<close>

definition taskVerbs :: "string list" where
  "taskVerbs = [''todo'', ''task'', ''need to'', ''should'', ''must'', ''have to'']"

definition taskPattern :: regex where
  "taskPattern =
     \<lparr>atoms = [Alt taskVerbs, Rep (\<lambda>c. is_space c \<or> c = CHR '':'') 1 None,
               Rep (\<lambda>c. \<not> is_boundary c) 1 None],
      ignoreCase = True\<rparr>"

definition taskPrefixPattern :: regex where
  "taskPrefixPattern =
     \<lparr>atoms = [Alt taskVerbs, Rep (\<lambda>c. is_space c \<or> c = CHR '':'') 1 None],
      ignoreCase = True\<rparr>"

definition extractTasks :: "string \<Rightarrow> string list" where
  "extractTasks content =
     take 3 (map (\<lambda>m. trim (remove_all taskPrefixPattern m)) (match_all taskPattern content))"

section \<open>Language-model gateway\<close>

text \<open>
  The outcome of the \<open>fetch\<close> call is the environment's: the promise rejects, or a response
  arrives with its \<open>ok\<close> flag and a body that \<open>response.json()\<close> parses (\<open>None\<close> when it
  rejects). \<open>JSON.parse\<close> is the platform's and is a parameter, \<open>None\<close> for a
  \<open>SyntaxError\<close>; only its value at the literal \<open>'{}'\<close> of the source is fixed here.
\<close>

datatype http_outcome = FetchRejected | HttpResponse bool "json option"

definition JSON_parse :: "(json \<Rightarrow> json option) \<Rightarrow> json \<Rightarrow> error + json" where
  "JSON_parse parse v =
     (if v = JStr ''{}'' then Inr (JObj [])
      else case parse v of None \<Rightarrow> Inl SyntaxError | Some r \<Rightarrow> Inr r)"

definition response_json :: "json option \<Rightarrow> error + json" where
  "response_json body = (case body of None \<Rightarrow> Inl SyntaxError | Some d \<Rightarrow> Inr d)"

text \<open>The body of the \<open>if (response.ok)\<close> branch:
  \<open>JSON.parse(data.choices[0]?.message?.content || '{}')\<close>.\<close>

definition parse_reply :: "(json \<Rightarrow> json option) \<Rightarrow> json option \<Rightarrow> error + json" where
  "parse_reply parse body =
     bindS (response_json body) (\<lambda>data.
     bindS (member data ''choices'') (\<lambda>choices.
     bindS (first_element choices) (\<lambda>choice.
     JSON_parse parse
       (or_else (opt_member (opt_member choice ''message'') ''content'') (JStr ''{}'')))))"

definition analyzeWithOpenAI :: "(json \<Rightarrow> json option) \<Rightarrow> http_outcome \<Rightarrow> json" where
  "analyzeWithOpenAI parse outcome =
     (case outcome of
        FetchRejected \<Rightarrow> JObj []
      | HttpResponse ok body \<Rightarrow>
          if ok then (case parse_reply parse body of Inl e \<Rightarrow> JObj [] | Inr v \<Rightarrow> v)
          else JObj [])"

section \<open>Capture pipeline: merging the gateway's analysis with the heuristics\<close>

record entities =
  people :: json
  dates :: json
  projects :: json
  tasks :: json

record processedContent =
  summary :: json
  category :: json
  priority :: json
  suggestedActions :: json
  extractedEntities :: entities

definition strings :: "string list \<Rightarrow> json" where
  "strings xs = JArr (map JStr xs)"

definition getFallbackProcessing :: "captureData \<Rightarrow> processedContent" where
  "getFallbackProcessing captureData =
     \<lparr>summary = JStr (generateFallbackSummary (c_content captureData)),
      category = JStr (categorizeContent (c_content captureData) (c_type captureData)),
      priority = JStr (determinePriority (c_content captureData)),
      suggestedActions = strings (generateSuggestedActions captureData),
      extractedEntities =
        \<lparr>people = strings (extractPeople (c_content captureData)),
         dates = strings (extractDates (c_content captureData)),
         projects = strings [],
         tasks = strings (extractTasks (c_content captureData))\<rparr>\<rparr>"

text \<open>The object literal of \<open>processWithAI\<close>; its property reads raise when \<open>analysis\<close> is
  \<open>null\<close>.\<close>

definition merge_analysis :: "json \<Rightarrow> captureData \<Rightarrow> error + processedContent" where
  "merge_analysis analysis captureData =
     bindS (member analysis ''summary'') (\<lambda>a_summary.
     bindS (member analysis ''category'') (\<lambda>a_category.
     bindS (member analysis ''priority'') (\<lambda>a_priority.
     bindS (member analysis ''actions'') (\<lambda>a_actions.
     bindS (member analysis ''people'') (\<lambda>a_people.
     bindS (member analysis ''dates'') (\<lambda>a_dates.
     bindS (member analysis ''projects'') (\<lambda>a_projects.
     bindS (member analysis ''tasks'') (\<lambda>a_tasks.
     Inr \<lparr>summary = or_else a_summary (JStr (generateFallbackSummary (c_content captureData))),
          category = or_else a_category
            (JStr (categorizeContent (c_content captureData) (c_type captureData))),
          priority = or_else a_priority (JStr (determinePriority (c_content captureData))),
          suggestedActions = or_else a_actions (strings (generateSuggestedActions captureData)),
          extractedEntities =
            \<lparr>people = or_else a_people (strings (extractPeople (c_content captureData))),
             dates = or_else a_dates (strings (extractDates (c_content captureData))),
             projects = or_else a_projects (strings []),
             tasks = or_else a_tasks (strings (extractTasks (c_content captureData)))\<rparr>\<rparr>))))))))"

definition processWithAI ::
  "(json \<Rightarrow> json option) \<Rightarrow> http_outcome \<Rightarrow> captureData \<Rightarrow> processedContent" where
  "processWithAI parse outcome captureData =
     (case merge_analysis (analyzeWithOpenAI parse outcome) captureData of
        Inl e \<Rightarrow> getFallbackProcessing captureData
      | Inr processed \<Rightarrow> processed)"

section \<open>JavaScript numbers\<close>

text \<open>
  A number is an IEEE 754 double: a rational with a significand of 53 bits and an exponent
  in range (\<open>Fin\<close>, with \<open>Fin 0\<close> for \<open>+0\<close>), the negative zero, \<open>NaN\<close>, or one of the two
  infinities. \<open>fl\<close> rounds a rational to the nearest double, a tie to the even significand,
  as every arithmetic operation and every decimal literal of the source does:
  \<open>exponent_of x\<close> is the integer part of the binary logarithm of \<open>\<bar>x\<bar>\<close>, \<open>quantum x\<close> the
  exponent of the last bit of the significand (that of the subnormal numbers at least), a
  result of \<open>2^1024\<close> or more is infinite, and a result that rounds to zero keeps its sign.
\<close>

datatype number = Fin rat | NegZero | NaN | PInf | NInf

definition round_half_even :: "rat \<Rightarrow> int" where
  "round_half_even x =
     (let f = \<lfloor>x\<rfloor>; r = x - of_int f
      in if r < 1 / 2 then f
         else if 1 / 2 < r then f + 1
         else if even f then f else f + 1)"

definition exponent_of :: "rat \<Rightarrow> int" where
  "exponent_of x =
     (if 1 \<le> \<bar>x\<bar> then bitlen \<lfloor>\<bar>x\<bar>\<rfloor> - 1 else - bitlen (\<lceil>1 / \<bar>x\<bar>\<rceil> - 1))"

definition quantum :: "rat \<Rightarrow> int" where
  "quantum x = max (exponent_of x - 52) (- 1074)"

definition overflow_threshold :: rat where
  "overflow_threshold = 2 powi 1024"

definition signed_zero :: "bool \<Rightarrow> number" where
  "signed_zero neg = (if neg then NegZero else Fin 0)"

definition signed_infinity :: "bool \<Rightarrow> number" where
  "signed_infinity neg = (if neg then NInf else PInf)"

definition fl :: "rat \<Rightarrow> number" where
  "fl x =
     (if x = 0 then Fin 0
      else
        let y = of_int (round_half_even (x / 2 powi quantum x)) * 2 powi quantum x
        in if exponent_of x < 1023 then (if y = 0 then signed_zero (x < 0) else Fin y)
           else if overflow_threshold \<le> \<bar>y\<bar> then signed_infinity (x < 0)
           else Fin y)"

fun val :: "number \<Rightarrow> rat" where
  "val (Fin x) = x"
| "val n = 0"

fun negative :: "number \<Rightarrow> bool" where
  "negative (Fin x) = (x < 0)"
| "negative NegZero = True"
| "negative NInf = True"
| "negative n = False"

definition is_zero :: "number \<Rightarrow> bool" where
  "is_zero n \<longleftrightarrow> n = Fin 0 \<or> n = NegZero"

definition is_infinite :: "number \<Rightarrow> bool" where
  "is_infinite n \<longleftrightarrow> n = PInf \<or> n = NInf"

text \<open>\<open>a + b\<close>, \<open>a * b\<close>, \<open>a / b\<close> and \<open>a < b\<close> on numbers.\<close>

definition num_add :: "number \<Rightarrow> number \<Rightarrow> number" where
  "num_add a b =
     (if a = NaN \<or> b = NaN then NaN
      else if is_infinite a then (if is_infinite b \<and> a \<noteq> b then NaN else a)
      else if is_infinite b then b
      else if a = NegZero then b
      else if b = NegZero then a
      else fl (val a + val b))"

definition num_mul :: "number \<Rightarrow> number \<Rightarrow> number" where
  "num_mul a b =
     (if a = NaN \<or> b = NaN then NaN
      else if is_infinite a \<or> is_infinite b
        then (if is_zero a \<or> is_zero b then NaN else signed_infinity (negative a \<noteq> negative b))
      else if val a * val b = 0 then signed_zero (negative a \<noteq> negative b)
      else fl (val a * val b))"

definition num_div :: "number \<Rightarrow> number \<Rightarrow> number" where
  "num_div a b =
     (if a = NaN \<or> b = NaN then NaN
      else if is_infinite a
        then (if is_infinite b then NaN else signed_infinity (negative a \<noteq> negative b))
      else if is_infinite b then signed_zero (negative a \<noteq> negative b)
      else if is_zero b
        then (if is_zero a then NaN else signed_infinity (negative a \<noteq> negative b))
      else if is_zero a then signed_zero (negative a \<noteq> negative b)
      else fl (val a / val b))"

definition num_less :: "number \<Rightarrow> number \<Rightarrow> bool" where
  "num_less a b =
     (if a = NaN \<or> b = NaN then False
      else if a = PInf \<or> b = NInf then False
      else if a = NInf \<or> b = PInf then True
      else val a < val b)"

definition Math_max :: "number \<Rightarrow> number \<Rightarrow> number" where
  "Math_max a b =
     (if a = NaN \<or> b = NaN then NaN
      else if num_less a b then b
      else if num_less b a then a
      else if a = NegZero then b
      else a)"

text \<open>\<open>Math.round\<close> is exact: the integer nearest to the number, the upper one of two.\<close>

definition Math_round :: "number \<Rightarrow> number" where
  "Math_round n =
     (case n of
        Fin x \<Rightarrow> if \<lfloor>x + 1 / 2\<rfloor> = 0 \<and> x < 0 then NegZero else Fin (of_int \<lfloor>x + 1 / 2\<rfloor>)
      | _ \<Rightarrow> n)"

text \<open>A number as JSON writes it, in the store and in a response: \<open>NaN\<close> and the infinities
  are written \<open>null\<close>, and the negative zero \<open>0\<close>.\<close>

definition json_of_number :: "number \<Rightarrow> json" where
  "json_of_number n = (case n of Fin x \<Rightarrow> JNum x | NegZero \<Rightarrow> JNum 0 | _ \<Rightarrow> JNull)"

section \<open>Dates and the platform\<close>

text \<open>
  A date is invalid, or has the parts the services read: \<open>getTime()\<close>, \<open>getFullYear()\<close>,
  \<open>getMonth()\<close>, \<open>getDate()\<close>, \<open>getHours()\<close> and \<open>toDateString()\<close>.
\<close>

record date_parts =
  time_ms :: int
  fullYear :: int
  month :: nat
  dayOfMonth :: nat
  hours :: nat
  dateString :: string

datatype jsdate = InvalidDate | ValidDate date_parts

definition toDateString :: "jsdate \<Rightarrow> string" where
  "toDateString d = (case d of InvalidDate \<Rightarrow> ''Invalid Date'' | ValidDate parts \<Rightarrow> dateString parts)"

text \<open>\<open>getHours()\<close> and \<open>getTime()\<close>; \<open>None\<close> is \<open>NaN\<close>.\<close>

definition getHours :: "jsdate \<Rightarrow> nat option" where
  "getHours d = (case d of InvalidDate \<Rightarrow> None | ValidDate parts \<Rightarrow> Some (hours parts))"

definition getTime :: "jsdate \<Rightarrow> int option" where
  "getTime d = (case d of InvalidDate \<Rightarrow> None | ValidDate parts \<Rightarrow> Some (time_ms parts))"

definition getWeekKey :: "jsdate \<Rightarrow> string" where
  "getWeekKey d =
     (case d of
        InvalidDate \<Rightarrow> ''NaN-NaN-WNaN''
      | ValidDate parts \<Rightarrow>
          (let week = nat \<lceil>(of_nat (dayOfMonth parts) :: rat) / 7\<rceil>
           in show_int (fullYear parts) @ ''-'' @ show_nat (month parts) @ ''-W'' @ show_nat week))"

definition getMonthKey :: "jsdate \<Rightarrow> string" where
  "getMonthKey d =
     (case d of
        InvalidDate \<Rightarrow> ''NaN-NaN''
      | ValidDate parts \<Rightarrow> show_int (fullYear parts) @ ''-'' @ show_nat (month parts))"

text \<open>
  Three conversions are the platform's and are parameters of the functions that reach
  them: \<open>new Date(v)\<close> for a value \<open>v\<close> (\<open>None\<close> is \<open>undefined\<close>), the decimal rendering of a
  finite number (\<open>Number::toString\<close>) and the number that a string denotes
  (\<open>StringToNumber\<close>).
\<close>

record platform =
  newDate :: "json option \<Rightarrow> jsdate"
  numberToString :: "rat \<Rightarrow> string"
  stringToNumber :: "string \<Rightarrow> number"

section \<open>Values in memory and their arithmetic\<close>

text \<open>
  A value as a function holds it: a JSON value, or a number that the function has
  computed; \<open>None\<close> is \<open>undefined\<close>. \<open>persist\<close> is the value as JSON writes it.
\<close>

datatype jsval = Json json | Number number

definition persist :: "jsval \<Rightarrow> json" where
  "persist v = (case v of Json j \<Rightarrow> j | Number n \<Rightarrow> json_of_number n)"

definition number_toString :: "platform \<Rightarrow> number \<Rightarrow> string" where
  "number_toString pf n =
     (case n of
        Fin x \<Rightarrow> numberToString pf x
      | NegZero \<Rightarrow> ''0''
      | NaN \<Rightarrow> ''NaN''
      | PInf \<Rightarrow> ''Infinity''
      | NInf \<Rightarrow> ''-Infinity'')"

text \<open>\<open>String(v)\<close>: an array is its elements joined by commas, \<open>null\<close> among them as the
  empty string; an object is \<open>[object Object]\<close>.\<close>

fun json_toString :: "platform \<Rightarrow> json \<Rightarrow> string"
  and elements_toString :: "platform \<Rightarrow> json list \<Rightarrow> string" where
  "json_toString pf JNull = ''null''"
| "json_toString pf (JBool b) = (if b then ''true'' else ''false'')"
| "json_toString pf (JNum x) = numberToString pf x"
| "json_toString pf (JStr s) = s"
| "json_toString pf (JArr xs) = elements_toString pf xs"
| "json_toString pf (JObj kvs) = ''[object Object]''"
| "elements_toString pf [] = []"
| "elements_toString pf [v] = (if v = JNull then [] else json_toString pf v)"
| "elements_toString pf (v # w # vs) =
     (if v = JNull then [] else json_toString pf v) @ '','' @ elements_toString pf (w # vs)"

definition js_toString :: "platform \<Rightarrow> jsval option \<Rightarrow> string" where
  "js_toString pf v =
     (case v of
        None \<Rightarrow> ''undefined''
      | Some (Json j) \<Rightarrow> json_toString pf j
      | Some (Number n) \<Rightarrow> number_toString pf n)"

text \<open>\<open>Number(v)\<close>; an array or an object is converted through its string.\<close>

definition js_toNumber :: "platform \<Rightarrow> jsval option \<Rightarrow> number" where
  "js_toNumber pf v =
     (case v of
        None \<Rightarrow> NaN
      | Some (Number n) \<Rightarrow> n
      | Some (Json JNull) \<Rightarrow> Fin 0
      | Some (Json (JBool b)) \<Rightarrow> Fin (if b then 1 else 0)
      | Some (Json (JNum x)) \<Rightarrow> Fin x
      | Some (Json (JStr s)) \<Rightarrow> stringToNumber pf s
      | Some (Json j) \<Rightarrow> stringToNumber pf (json_toString pf j))"

text \<open>The operand of \<open>+\<close> is a string, or an array or an object, whose primitive value is
  a string.\<close>

definition is_stringy :: "jsval option \<Rightarrow> bool" where
  "is_stringy v =
     (case v of
        Some (Json (JStr s)) \<Rightarrow> True
      | Some (Json (JArr xs)) \<Rightarrow> True
      | Some (Json (JObj kvs)) \<Rightarrow> True
      | _ \<Rightarrow> False)"

text \<open>\<open>a + b\<close>: concatenation when one side is a string, addition of numbers otherwise.\<close>

definition js_add :: "platform \<Rightarrow> jsval option \<Rightarrow> jsval option \<Rightarrow> jsval" where
  "js_add pf a b =
     (if is_stringy a \<or> is_stringy b then Json (JStr (js_toString pf a @ js_toString pf b))
      else Number (num_add (js_toNumber pf a) (js_toNumber pf b)))"

text \<open>\<open>v === 0\<close>\<close>

definition is_number_zero :: "jsval \<Rightarrow> bool" where
  "is_number_zero v = (case v of Json (JNum x) \<Rightarrow> x = 0 | Number n \<Rightarrow> is_zero n | _ \<Rightarrow> False)"

section \<open>Documents of the project, task and analytics services\<close>

text \<open>
  A document is a JSON object. The bodies of the requests (the updates of a project, the
  data of a new project or task, the metadata of an activity) are JSON values of any
  shape: the routes pass them on as they parse them. A property that is not there reads as
  \<open>undefined\<close>, and a property of an object literal whose value is \<open>undefined\<close> is left
  out, as JSON leaves it out. An argument that is \<open>undefined\<close> behaves as \<open>null\<close> does in
  every function below. The order of the properties of an object is not observed by any of
  them; an object is read through \<open>map_of\<close>, and written through \<open>AList.update\<close>.
\<close>

type_synonym obj = "(string \<times> json) list"

text \<open>The own properties that \<open>{...v}\<close> copies: those of an object, the elements of an
  array and the characters of a string under their indices, and none of any other value.\<close>

definition own_props :: "json \<Rightarrow> obj" where
  "own_props v =
     (case v of
        JObj kvs \<Rightarrow> kvs
      | JArr xs \<Rightarrow> zip (map show_nat [0 ..< length xs]) xs
      | JStr s \<Rightarrow> zip (map show_nat [0 ..< length s]) (map (\<lambda>c. JStr [c]) s)
      | _ \<Rightarrow> [])"

text \<open>\<open>{...base, ...v}\<close>\<close>

definition spread :: "obj \<Rightarrow> json \<Rightarrow> obj" where
  "spread base v = AList.merge base (own_props v)"

text \<open>The entry \<open>name: v\<close> of an object literal.\<close>

definition entry :: "string \<Rightarrow> json option \<Rightarrow> obj" where
  "entry name v = (case v of None \<Rightarrow> [] | Some x \<Rightarrow> [(name, x)])"

datatype activity_type = TaskComplete | Capture | FocusSession | Meeting | IntegrationSync

definition type_name :: "activity_type \<Rightarrow> string" where
  "type_name t =
     (case t of
        TaskComplete \<Rightarrow> ''task_complete''
      | Capture \<Rightarrow> ''capture''
      | FocusSession \<Rightarrow> ''focus_session''
      | Meeting \<Rightarrow> ''meeting''
      | IntegrationSync \<Rightarrow> ''integration_sync'')"

record activity =
  a_type :: activity_type
  a_metadata :: "json option"
  a_timestamp :: "string option"

section \<open>Key-value store, clock and exceptions\<close>

text \<open>
  The world of a request: the entries of the key-value store, the script of the store's
  coming faults, and the clock. The store is remote, so every call to it may reject:
  \<open>faults\<close> says for the coming calls, in order, whether the call rejects (\<open>True\<close>); after
  the script every call succeeds. \<open>new Date().toISOString()\<close> reads the clock: reading
  number \<open>tick\<close> returns \<open>clock tick\<close>.
\<close>

record world =
  entries :: "(string \<times> obj) list"
  faults :: "bool list"
  clock :: "nat \<Rightarrow> string"
  tick :: nat

type_synonym 'a io = "world \<Rightarrow> (error + 'a) \<times> world"

definition returnE :: "'a \<Rightarrow> 'a io" where
  "returnE x = (\<lambda>w. (Inr x, w))"

definition throwE :: "error \<Rightarrow> 'a io" where
  "throwE e = (\<lambda>w. (Inl e, w))"

definition bindE :: "'a io \<Rightarrow> ('a \<Rightarrow> 'b io) \<Rightarrow> 'b io" where
  "bindE m f = (\<lambda>w. case m w of (Inl e, w') \<Rightarrow> (Inl e, w') | (Inr x, w') \<Rightarrow> f x w')"

text \<open>\<open>try { m } catch (error) { h error }\<close>\<close>

definition tryCatch :: "'a io \<Rightarrow> (error \<Rightarrow> 'a io) \<Rightarrow> 'a io" where
  "tryCatch m h = (\<lambda>w. case m w of (Inl e, w') \<Rightarrow> h e w' | (Inr x, w') \<Rightarrow> (Inr x, w'))"

definition liftE :: "error + 'a \<Rightarrow> 'a io" where
  "liftE r = (\<lambda>w. (r, w))"

definition store_call :: "(world \<Rightarrow> 'a \<times> world) \<Rightarrow> 'a io" where
  "store_call f =
     (\<lambda>w. case faults w of
             [] \<Rightarrow> (case f w of (x, w') \<Rightarrow> (Inr x, w'))
           | fault # rest \<Rightarrow>
               if fault then (Inl StoreError, w\<lparr>faults := rest\<rparr>)
               else (case f (w\<lparr>faults := rest\<rparr>) of (x, w') \<Rightarrow> (Inr x, w')))"

text \<open>
  Modelled from the spec: \<open>kv.get\<close>, \<open>kv.set\<close> and \<open>kv.getByPrefix\<close> of the module
  \<open>kv_store.tsx\<close>, which every service imports and which is not among the sources. The
  spec describes it as the adapter that "persists arbitrary JSON documents under string
  keys, supports prefix scans": \<open>kv_get\<close> returns the document under a key (\<open>None\<close> when
  there is none), \<open>kv_set\<close> puts a document under a key, replacing the one that is there,
  and \<open>kv_getByPrefix\<close> returns the documents whose key starts with the prefix. The
  documents of the services embedded here are objects.
\<close>

definition kv_get :: "string \<Rightarrow> obj option io" where
  "kv_get key = store_call (\<lambda>w. (map_of (entries w) key, w))"

definition kv_set :: "string \<Rightarrow> obj \<Rightarrow> unit io" where
  "kv_set key v = store_call (\<lambda>w. ((), w\<lparr>entries := AList.update key v (entries w)\<rparr>))"

definition kv_getByPrefix :: "string \<Rightarrow> obj list io" where
  "kv_getByPrefix pre =
     store_call (\<lambda>w. (map snd (filter (\<lambda>kv. prefix pre (fst kv)) (entries w)), w))"

definition now :: "string io" where
  "now = (\<lambda>w. (Inr (clock w (tick w)), w\<lparr>tick := Suc (tick w)\<rparr>))"

section \<open>Analytics aggregator\<close>

text \<open>The metrics object that a bucket starts from.\<close>

definition zero_metrics :: obj where
  "zero_metrics =
     [(''tasksCompleted'', JNum 0), (''tasksCreated'', JNum 0), (''focusScore'', JNum 0),
      (''captureCount'', JNum 0), (''activeProjects'', JNum 0), (''meetingTime'', JNum 0),
      (''deepWorkTime'', JNum 0)]"

text \<open>The metrics object in memory, between \<open>kv.get\<close> and \<open>kv.set\<close>.\<close>

type_synonym metrics = "(string \<times> jsval) list"

definition load :: "obj \<Rightarrow> metrics" where
  "load doc = map (\<lambda>(name, v). (name, Json v)) doc"

definition unload :: "metrics \<Rightarrow> obj" where
  "unload m = map (\<lambda>(name, v). (name, persist v)) m"

text \<open>The literals \<open>0.6\<close> and \<open>0.4\<close> are the doubles nearest to them.\<close>

definition calculateFocusScore :: "platform \<Rightarrow> metrics \<Rightarrow> jsval" where
  "calculateFocusScore pf m =
     (let totalTime = js_add pf (map_of m ''deepWorkTime'') (map_of m ''meetingTime'')
      in if is_number_zero totalTime then Json (JNum 0)
         else
           let focusRatio = num_div (js_toNumber pf (map_of m ''deepWorkTime''))
                                    (js_toNumber pf (Some totalTime));
               taskRatio = num_div (js_toNumber pf (map_of m ''tasksCompleted''))
                                   (Math_max (js_toNumber pf (map_of m ''tasksCreated'')) (Fin 1))
           in Number (Math_round
                (num_mul (num_add (num_mul focusRatio (fl (6 / 10)))
                                  (num_mul taskRatio (fl (4 / 10))))
                         (Fin 100))))"

text \<open>\<open>activity.metadata?.duration || 0\<close>\<close>

definition duration_of :: "json option \<Rightarrow> json" where
  "duration_of metadata = or_else (opt_member metadata ''duration'') (JNum 0)"

text \<open>\<open>m.name += v\<close>\<close>

definition add_to :: "platform \<Rightarrow> string \<Rightarrow> json \<Rightarrow> metrics \<Rightarrow> metrics" where
  "add_to pf name v m = AList.update name (js_add pf (map_of m name) (Some (Json v))) m"

text \<open>The \<open>switch\<close> of \<open>updateDailyMetrics\<close>. A duration that is a string, an array or an
  object turns the counter into a string by concatenation.\<close>

definition daily_switch :: "platform \<Rightarrow> activity \<Rightarrow> metrics \<Rightarrow> metrics" where
  "daily_switch pf activity m =
     (case a_type activity of
        TaskComplete \<Rightarrow> add_to pf ''tasksCompleted'' (JNum 1) m
      | Capture \<Rightarrow> add_to pf ''captureCount'' (JNum 1) m
      | FocusSession \<Rightarrow>
          (let m1 = add_to pf ''deepWorkTime'' (duration_of (a_metadata activity)) m
           in AList.update ''focusScore'' (calculateFocusScore pf m1) m1)
      | Meeting \<Rightarrow> add_to pf ''meetingTime'' (duration_of (a_metadata activity)) m
      | IntegrationSync \<Rightarrow> m)"

text \<open>\<open>kv.get(key) || { ... }\<close>: an object is truthy.\<close>

definition metrics_or_zero :: "obj option \<Rightarrow> metrics" where
  "metrics_or_zero d = load (case d of None \<Rightarrow> zero_metrics | Some doc \<Rightarrow> doc)"

definition updateDailyMetrics :: "platform \<Rightarrow> string \<Rightarrow> string \<Rightarrow> activity \<Rightarrow> unit io" where
  "updateDailyMetrics pf userId dayKey activity =
     tryCatch
       (let metricsKey = ''user:'' @ userId @ '':metrics:'' @ dayKey
        in bindE (kv_get metricsKey) (\<lambda>d.
           kv_set metricsKey (unload (daily_switch pf activity (metrics_or_zero d)))))
       (\<lambda>error. returnE ())"

text \<open>\<open>patterns[hour]\<close>: the property key of a number, \<open>NaN\<close> for the hour of an invalid
  date.\<close>

definition hour_key :: "nat option \<Rightarrow> string" where
  "hour_key h = (case h of None \<Rightarrow> ''NaN'' | Some n \<Rightarrow> show_nat n)"

text \<open>
  \<open>slot.count += 1; slot.types[type] = (slot.types[type] || 0) + 1\<close> for the value
  \<open>slot\<close> of \<open>patterns[hour]\<close>, which is truthy. The code is strict (a class body in a
  module), so an assignment to a property of a number, a string or a boolean raises, as
  does the reading of a property of \<open>undefined\<close> or \<open>null\<close>. An array has no \<open>types\<close>; and
  an array at \<open>slot.types\<close> takes the count as a named property, which JSON does not
  write.
\<close>

definition bump_slot :: "platform \<Rightarrow> string \<Rightarrow> json \<Rightarrow> error + json" where
  "bump_slot pf name slot =
     (case slot of
        JObj kvs \<Rightarrow>
          (let kvs1 = AList.update ''count''
                        (persist (js_add pf (map_option Json (map_of kvs ''count''))
                                           (Some (Json (JNum 1))))) kvs
           in case map_of kvs1 ''types'' of
                Some (JObj ts) \<Rightarrow>
                  Inr (JObj (AList.update ''types''
                    (JObj (AList.update name
                       (persist (js_add pf (Some (Json (or_else (map_of ts name) (JNum 0))))
                                           (Some (Json (JNum 1))))) ts)) kvs1))
              | Some (JArr xs) \<Rightarrow> Inr (JObj kvs1)
              | _ \<Rightarrow> Inl TypeError)
      | _ \<Rightarrow> Inl TypeError)"

definition updateHourlyPatterns :: "platform \<Rightarrow> string \<Rightarrow> nat option \<Rightarrow> activity \<Rightarrow> unit io" where
  "updateHourlyPatterns pf userId hour activity =
     tryCatch
       (let patternsKey = ''user:'' @ userId @ '':patterns:hourly''
        in bindE (kv_get patternsKey) (\<lambda>d.
           let patterns = (case d of None \<Rightarrow> [] | Some doc \<Rightarrow> doc);
               slot = or_else (map_of patterns (hour_key hour))
                        (JObj [(''count'', JNum 0), (''types'', JObj [])])
           in bindE (liftE (bump_slot pf (type_name (a_type activity)) slot)) (\<lambda>slot'.
              kv_set patternsKey (AList.update (hour_key hour) slot' patterns))))
       (\<lambda>error. returnE ())"

text \<open>The \<open>switch\<close> of \<open>updatePeriodMetric\<close>: two cases, and a comment where the others
  would be.\<close>

definition period_switch :: "platform \<Rightarrow> activity \<Rightarrow> metrics \<Rightarrow> metrics" where
  "period_switch pf activity m =
     (case a_type activity of
        TaskComplete \<Rightarrow> add_to pf ''tasksCompleted'' (JNum 1) m
      | Capture \<Rightarrow> add_to pf ''captureCount'' (JNum 1) m
      | _ \<Rightarrow> m)"

definition updatePeriodMetric ::
  "platform \<Rightarrow> string \<Rightarrow> string \<Rightarrow> string \<Rightarrow> activity \<Rightarrow> unit io" where
  "updatePeriodMetric pf userId period key activity =
     (let metricsKey = ''user:'' @ userId @ '':metrics:'' @ period @ '':'' @ key
      in bindE (kv_get metricsKey) (\<lambda>d.
         kv_set metricsKey (unload (period_switch pf activity (metrics_or_zero d)))))"

definition updatePeriodMetrics :: "platform \<Rightarrow> string \<Rightarrow> jsdate \<Rightarrow> activity \<Rightarrow> unit io" where
  "updatePeriodMetrics pf userId date activity =
     tryCatch
       (let weekKey = getWeekKey date;
            monthKey = getMonthKey date
        in bindE (updatePeriodMetric pf userId ''weekly'' weekKey activity) (\<lambda>_.
           updatePeriodMetric pf userId ''monthly'' monthKey activity))
       (\<lambda>error. returnE ())"

definition recordActivity :: "platform \<Rightarrow> string \<Rightarrow> activity \<Rightarrow> unit io" where
  "recordActivity pf userId activity =
     tryCatch
       (bindE (case a_timestamp activity of
                 None \<Rightarrow> now
               | Some t \<Rightarrow> if t \<noteq> [] then returnE t else now) (\<lambda>timestamp.
        let date = newDate pf (Some (JStr timestamp));
            dayKey = toDateString date;
            hour = getHours date
        in bindE (updateDailyMetrics pf userId dayKey activity) (\<lambda>_.
           bindE (updateHourlyPatterns pf userId hour activity) (\<lambda>_.
           updatePeriodMetrics pf userId date activity))))
       (\<lambda>error. returnE ())"

datatype trend = Up | Down | Stable

text \<open>\<open>values.slice(-a, -b)\<close> for \<open>b \<le> a\<close>, and \<open>values.slice(-a)\<close> for \<open>b = 0\<close>: both ends
  count from the end of the array and are clamped at its start.\<close>

definition slice_from_end :: "'a list \<Rightarrow> nat \<Rightarrow> nat \<Rightarrow> 'a list" where
  "slice_from_end xs a b =
     (let n = length xs; start = n - a; stop = n - b
      in take (stop - start) (drop start xs))"

text \<open>The literals \<open>1.1\<close> and \<open>0.9\<close> are the doubles nearest to them; every sum, quotient
  and product is rounded.\<close>

definition calculateTrend :: "number list \<Rightarrow> trend" where
  "calculateTrend vals =
     (if length vals < 2 then Stable
      else
        let recent = num_div (foldl num_add (Fin 0) (slice_from_end vals 3 0)) (Fin 3);
            previous = num_div (foldl num_add (Fin 0) (slice_from_end vals 6 3)) (Fin 3)
        in if num_less (num_mul previous (fl (11 / 10))) recent then Up
           else if num_less recent (num_mul previous (fl (9 / 10))) then Down
           else Stable)"

section \<open>Project and task store\<close>

definition projectKey :: "string \<Rightarrow> string \<Rightarrow> string" where
  "projectKey userId projectId = ''user:'' @ userId @ '':project:'' @ projectId"

definition taskKey :: "string \<Rightarrow> string \<Rightarrow> string" where
  "taskKey userId taskId = ''user:'' @ userId @ '':task:'' @ taskId"

text \<open>\<open>v.length\<close>\<close>

definition js_length :: "json option \<Rightarrow> error + json option" where
  "js_length v =
     (case v of
        None \<Rightarrow> Inl TypeError
      | Some JNull \<Rightarrow> Inl TypeError
      | Some (JArr xs) \<Rightarrow> Inr (Some (JNum (of_nat (length xs))))
      | Some (JStr s) \<Rightarrow> Inr (Some (JNum (of_nat (length s))))
      | Some (JObj kvs) \<Rightarrow> Inr (map_of kvs ''length'')
      | Some _ \<Rightarrow> Inr None)"

text \<open>\<open>xs.filter(p)\<close> and \<open>xs.findIndex(p)\<close> for a callback that may raise; \<open>None\<close> is
  \<open>-1\<close>.\<close>

fun filterE :: "('a \<Rightarrow> error + bool) \<Rightarrow> 'a list \<Rightarrow> error + 'a list" where
  "filterE p [] = Inr []"
| "filterE p (x # xs) =
     bindS (p x) (\<lambda>keep. bindS (filterE p xs) (\<lambda>rest. Inr (if keep then x # rest else rest)))"

fun findIndexE :: "('a \<Rightarrow> error + bool) \<Rightarrow> 'a list \<Rightarrow> error + nat option" where
  "findIndexE p [] = Inr None"
| "findIndexE p (x # xs) =
     bindS (p x) (\<lambda>found.
       if found then Inr (Some 0)
       else bindS (findIndexE p xs) (\<lambda>r. Inr (map_option Suc r)))"

text \<open>\<open>task => task.status === 'completed'\<close> and \<open>t => t.id === taskId\<close>\<close>

definition is_completed :: "json \<Rightarrow> error + bool" where
  "is_completed t = bindS (member t ''status'') (\<lambda>s. Inr (s = Some (JStr ''completed'')))"

definition has_id :: "string \<Rightarrow> json \<Rightarrow> error + bool" where
  "has_id taskId t = bindS (member t ''id'') (\<lambda>i. Inr (i = Some (JStr taskId)))"

text \<open>
  \<open>calculateProgress(tasks)\<close> for the value \<open>tasks\<close> of a property. \<open>tasks.filter\<close> is a
  function for an array only; an object with the property \<open>length: 0\<close> returns before the
  call. The quotient and the product are rounded to doubles before \<open>Math.round\<close>.
\<close>

definition percentage :: "nat \<Rightarrow> nat \<Rightarrow> number" where
  "percentage c n =
     Math_round (num_mul (num_div (Fin (of_nat c)) (Fin (of_nat n))) (Fin 100))"

definition calculateProgress :: "json option \<Rightarrow> error + json" where
  "calculateProgress taskList =
     bindS (js_length taskList) (\<lambda>len.
       if len = Some (JNum 0) then Inr (JNum 0)
       else case taskList of
              Some (JArr xs) \<Rightarrow>
                bindS (filterE is_completed xs) (\<lambda>completedTasks.
                  Inr (json_of_number (percentage (length completedTasks) (length xs))))
            | _ \<Rightarrow> Inl TypeError)"

text \<open>\<open>analytics.actions.push({ action, timestamp: new Date().toISOString() })\<close> and the
  cut to the last 100 actions. Without an \<open>actions\<close> property the call raises before its
  argument is evaluated; with one that is no array, after.\<close>

definition updateProjectAnalytics :: "string \<Rightarrow> string \<Rightarrow> string \<Rightarrow> unit io" where
  "updateProjectAnalytics userId projectId action =
     tryCatch
       (let analyticsKey = ''user:'' @ userId @ '':project_analytics:'' @ projectId
        in bindE (kv_get analyticsKey) (\<lambda>d.
           bindE (case d of
                    Some doc \<Rightarrow> returnE doc
                  | None \<Rightarrow> bindE now (\<lambda>t.
                      returnE [(''projectId'', JStr projectId), (''created'', JStr t),
                               (''actions'', JArr []),
                               (''metrics'', JObj [(''totalTasks'', JNum 0),
                                  (''completedTasks'', JNum 0), (''timeSpent'', JNum 0),
                                  (''teamSize'', JNum 0)])])) (\<lambda>analytics.
           case map_of analytics ''actions'' of
             None \<Rightarrow> throwE TypeError
           | Some JNull \<Rightarrow> throwE TypeError
           | Some (JArr xs) \<Rightarrow>
               bindE now (\<lambda>t.
               let actions = xs @ [JObj [(''action'', JStr action), (''timestamp'', JStr t)]]
               in kv_set analyticsKey
                    (AList.update ''actions'' (JArr (slice_from_end actions 100 0)) analytics))
           | Some _ \<Rightarrow> bindE now (\<lambda>t. throwE TypeError))))
       (\<lambda>error. returnE ())"

text \<open>
  \<open>Array.prototype.sort\<close> with a comparator is a stable sort; a comparator value \<open>NaN\<close>
  (an \<open>updated\<close> that is no date) counts as \<open>0\<close>. For a comparator that is not a
  consistent order the engine's result is implementation-defined and only known to be a
  permutation; the insertion sort below is one such result.
\<close>

fun insert_sorted :: "('a \<Rightarrow> 'a \<Rightarrow> int) \<Rightarrow> 'a \<Rightarrow> 'a list \<Rightarrow> 'a list" where
  "insert_sorted cmp x [] = [x]"
| "insert_sorted cmp x (y # ys) =
     (if cmp x y \<le> 0 then x # y # ys else y # insert_sorted cmp x ys)"

definition js_sort :: "('a \<Rightarrow> 'a \<Rightarrow> int) \<Rightarrow> 'a list \<Rightarrow> 'a list" where
  "js_sort cmp xs = foldr (insert_sorted cmp) xs []"

definition newest_first :: "platform \<Rightarrow> obj \<Rightarrow> obj \<Rightarrow> int" where
  "newest_first pf a b =
     (case (getTime (newDate pf (map_of b ''updated'')), getTime (newDate pf (map_of a ''updated''))) of
        (Some tb, Some ta) \<Rightarrow> tb - ta
      | _ \<Rightarrow> 0)"

definition getUserProjects :: "platform \<Rightarrow> string \<Rightarrow> obj list io" where
  "getUserProjects pf userId =
     tryCatch
       (bindE (kv_getByPrefix (''user:'' @ userId @ '':project:'')) (\<lambda>docs.
        returnE (js_sort (newest_first pf) docs)))
       (\<lambda>error. throwE (Failure ''Failed to fetch projects''))"

text \<open>The identifier \<open>`${Date.now()}-${Math.random().toString(36).substr(2, 9)}`\<close> is drawn
  by the platform; it is the parameter \<open>stamp\<close>. The object literal reads the properties
  of \<open>projectData\<close>, which raises when \<open>projectData\<close> is \<open>null\<close>.\<close>

definition project_literal :: "string \<Rightarrow> string \<Rightarrow> string \<Rightarrow> json \<Rightarrow> error + obj" where
  "project_literal projectId userId t projectData =
     bindS (member projectData ''name'') (\<lambda>d_name.
     bindS (member projectData ''description'') (\<lambda>d_description.
     bindS (member projectData ''status'') (\<lambda>d_status.
     bindS (member projectData ''priority'') (\<lambda>d_priority.
     bindS (member projectData ''team'') (\<lambda>d_team.
     bindS (member projectData ''deadline'') (\<lambda>d_deadline.
     bindS (member projectData ''tags'') (\<lambda>d_tags.
     bindS (member projectData ''metadata'') (\<lambda>d_metadata.
     Inr ([(''id'', JStr projectId),
           (''userId'', JStr userId),
           (''name'', or_else d_name (JStr ''Untitled Project'')),
           (''description'', or_else d_description (JStr [])),
           (''status'', or_else d_status (JStr ''active'')),
           (''priority'', or_else d_priority (JStr ''medium'')),
           (''progress'', JNum 0),
           (''tasks'', JArr []),
           (''team'', or_else d_team (JArr []))]
          @ entry ''deadline'' d_deadline
          @ [(''created'', JStr t),
             (''updated'', JStr t),
             (''tags'', or_else d_tags (JArr [])),
             (''metadata'', or_else d_metadata (JObj []))])))))))))"

definition createProject :: "string \<Rightarrow> string \<Rightarrow> json \<Rightarrow> obj io" where
  "createProject stamp userId projectData =
     tryCatch
       (let projectId = ''project-'' @ stamp
        in bindE now (\<lambda>t.
           bindE (liftE (project_literal projectId userId t projectData)) (\<lambda>project.
           bindE (kv_set (projectKey userId projectId) project) (\<lambda>_.
           bindE (updateProjectAnalytics userId projectId ''created'') (\<lambda>_.
           returnE project)))))
       (\<lambda>error. throwE (Failure ''Failed to create project''))"

text \<open>The object literal of \<open>updateProject\<close>: the spread of the stored project and of the
  updates, with the identity pinned to the arguments of the call and \<open>updated\<close> set to
  the time of the call.\<close>

definition updated_project :: "obj \<Rightarrow> string \<Rightarrow> string \<Rightarrow> json \<Rightarrow> string \<Rightarrow> obj" where
  "updated_project existing userId projectId updates t =
     AList.update ''updated'' (JStr t)
       (AList.update ''userId'' (JStr userId)
          (AList.update ''id'' (JStr projectId) (spread existing updates)))"

text \<open>\<open>if (updates.tasks) { updated.progress = calculateProgress(updated.tasks) }\<close>\<close>

definition recalculated :: "json \<Rightarrow> obj \<Rightarrow> error + obj" where
  "recalculated updates updated =
     bindS (member updates ''tasks'') (\<lambda>u_tasks.
       if (case u_tasks of None \<Rightarrow> False | Some v \<Rightarrow> truthy v)
       then bindS (calculateProgress (map_of updated ''tasks'')) (\<lambda>p.
              Inr (AList.update ''progress'' p updated))
       else Inr updated)"

definition updateProject :: "string \<Rightarrow> string \<Rightarrow> json \<Rightarrow> obj io" where
  "updateProject userId projectId updates =
     tryCatch
       (bindE (kv_get (projectKey userId projectId)) (\<lambda>d.
        case d of
          None \<Rightarrow> throwE (NotFound ''Project not found'')
        | Some existing \<Rightarrow>
            bindE now (\<lambda>t.
            bindE (liftE (recalculated updates
                     (updated_project existing userId projectId updates t))) (\<lambda>updated.
            bindE (kv_set (projectKey userId projectId) updated) (\<lambda>_.
            bindE (updateProjectAnalytics userId projectId ''updated'') (\<lambda>_.
            returnE updated))))))
       (\<lambda>error. throwE (Failure ''Failed to update project''))"

definition getProjectById :: "string \<Rightarrow> string \<Rightarrow> obj option io" where
  "getProjectById userId projectId =
     tryCatch
       (bindE (kv_get (projectKey userId projectId)) (\<lambda>d. returnE d))
       (\<lambda>error. returnE None)"

definition archived :: "obj \<Rightarrow> string \<Rightarrow> obj" where
  "archived project t =
     AList.update ''updated'' (JStr t) (AList.update ''status'' (JStr ''archived'') project)"

definition deleteProject :: "string \<Rightarrow> string \<Rightarrow> bool io" where
  "deleteProject userId projectId =
     tryCatch
       (bindE (getProjectById userId projectId) (\<lambda>found.
        case found of
          None \<Rightarrow> returnE False
        | Some project \<Rightarrow>
            bindE now (\<lambda>t.
            bindE (kv_set (projectKey userId projectId) (archived project t)) (\<lambda>_.
            returnE True))))
       (\<lambda>error. returnE False)"

text \<open>The object literal of \<open>createTask\<close>; its property reads raise when \<open>taskData\<close> is
  \<open>null\<close>.\<close>

definition task_literal :: "string \<Rightarrow> string \<Rightarrow> string \<Rightarrow> json \<Rightarrow> error + obj" where
  "task_literal taskId projectId t taskData =
     bindS (member taskData ''title'') (\<lambda>d_title.
     bindS (member taskData ''description'') (\<lambda>d_description.
     bindS (member taskData ''status'') (\<lambda>d_status.
     bindS (member taskData ''priority'') (\<lambda>d_priority.
     bindS (member taskData ''assignee'') (\<lambda>d_assignee.
     bindS (member taskData ''due_date'') (\<lambda>d_due_date.
     bindS (member taskData ''estimatedHours'') (\<lambda>d_estimatedHours.
     bindS (member taskData ''actualHours'') (\<lambda>d_actualHours.
     bindS (member taskData ''dependencies'') (\<lambda>d_dependencies.
     bindS (member taskData ''tags'') (\<lambda>d_tags.
     Inr ([(''id'', JStr taskId),
           (''projectId'', JStr projectId),
           (''title'', or_else d_title (JStr ''Untitled Task''))]
          @ entry ''description'' d_description
          @ [(''status'', or_else d_status (JStr ''pending'')),
             (''priority'', or_else d_priority (JStr ''medium''))]
          @ entry ''assignee'' d_assignee
          @ entry ''due_date'' d_due_date
          @ [(''created'', JStr t),
             (''updated'', JStr t)]
          @ entry ''estimatedHours'' d_estimatedHours
          @ [(''actualHours'', or_else d_actualHours (JNum 0)),
             (''dependencies'', or_else d_dependencies (JArr [])),
             (''tags'', or_else d_tags (JArr []))])))))))))))"

text \<open>\<open>project.tasks\<close> as the array whose \<open>push\<close> or \<open>findIndex\<close> is called: the call
  raises for any other value.\<close>

definition tasks_array :: "obj \<Rightarrow> error + json list" where
  "tasks_array project =
     (case map_of project ''tasks'' of Some (JArr xs) \<Rightarrow> Inr xs | _ \<Rightarrow> Inl TypeError)"

definition createTask :: "string \<Rightarrow> string \<Rightarrow> string \<Rightarrow> json \<Rightarrow> obj io" where
  "createTask stamp userId projectId taskData =
     tryCatch
       (bindE (getProjectById userId projectId) (\<lambda>found.
        case found of
          None \<Rightarrow> throwE (NotFound ''Project not found'')
        | Some project \<Rightarrow>
            let taskId = ''task-'' @ stamp
            in bindE now (\<lambda>t.
               bindE (liftE (task_literal taskId projectId t taskData)) (\<lambda>newTask.
               bindE (liftE (tasks_array project)) (\<lambda>xs.
               let pushed = xs @ [JObj newTask]
               in bindE (liftE (calculateProgress (Some (JArr pushed)))) (\<lambda>p.
                  let project' = AList.update ''updated'' (JStr t)
                                   (AList.update ''progress'' p
                                      (AList.update ''tasks'' (JArr pushed) project))
                  in bindE (kv_set (projectKey userId projectId) project') (\<lambda>_.
                     bindE (kv_set (taskKey userId taskId) newTask) (\<lambda>_.
                     returnE newTask))))))))
       (\<lambda>error. throwE (Failure ''Failed to create task''))"

text \<open>The object literal of \<open>updateTask\<close>: the spread of the stored task and of the
  updates, with the identity pinned to the arguments of the call and \<open>updated\<close> set to
  the time of the call.\<close>

definition updated_task :: "json \<Rightarrow> string \<Rightarrow> string \<Rightarrow> json \<Rightarrow> string \<Rightarrow> obj" where
  "updated_task existing taskId projectId updates t =
     AList.update ''updated'' (JStr t)
       (AList.update ''projectId'' (JStr projectId)
          (AList.update ''id'' (JStr taskId) (spread (own_props existing) updates)))"

text \<open>
  \<open>updates.status === 'completed' && project.tasks[taskIndex].status !== 'completed'\<close>,
  where \<open>project.tasks[taskIndex]\<close> is read after the updated task has been written
  there. Reading \<open>updates.status\<close> raises when \<open>updates\<close> is \<open>null\<close>.
\<close>

definition completes :: "json \<Rightarrow> json \<Rightarrow> error + bool" where
  "completes updates stored =
     bindS (member updates ''status'') (\<lambda>u_status.
       if u_status = Some (JStr ''completed'')
       then bindS (member stored ''status'') (\<lambda>s_status.
              Inr (s_status \<noteq> Some (JStr ''completed'')))
       else Inr False)"

definition updateTask :: "platform \<Rightarrow> string \<Rightarrow> string \<Rightarrow> string \<Rightarrow> json \<Rightarrow> obj io" where
  "updateTask pf userId projectId taskId updates =
     tryCatch
       (bindE (getProjectById userId projectId) (\<lambda>found.
        case found of
          None \<Rightarrow> throwE (NotFound ''Project not found'')
        | Some project \<Rightarrow>
            bindE (liftE (tasks_array project)) (\<lambda>xs.
            bindE (liftE (findIndexE (has_id taskId) xs)) (\<lambda>found_index.
            case found_index of
              None \<Rightarrow> throwE (NotFound ''Task not found'')
            | Some taskIndex \<Rightarrow>
                bindE now (\<lambda>t1.
                let updatedTask = updated_task (xs ! taskIndex) taskId projectId updates t1;
                    xs' = xs[taskIndex := JObj updatedTask]
                in bindE (liftE (calculateProgress (Some (JArr xs')))) (\<lambda>p.
                   bindE now (\<lambda>t2.
                   let project' = AList.update ''updated'' (JStr t2)
                                    (AList.update ''progress'' p
                                       (AList.update ''tasks'' (JArr xs') project))
                   in bindE (kv_set (projectKey userId projectId) project') (\<lambda>_.
                      bindE (kv_set (taskKey userId taskId) updatedTask) (\<lambda>_.
                      bindE (liftE (completes updates (xs' ! taskIndex))) (\<lambda>completed.
                      bindE (if completed
                             then recordActivity pf userId
                                    \<lparr>a_type = TaskComplete,
                                     a_metadata = Some (JObj
                                       ([(''taskId'', JStr taskId),
                                         (''projectId'', JStr projectId)]
                                        @ entry ''priority'' (map_of updatedTask ''priority''))),
                                     a_timestamp = None\<rparr>
                             else returnE ()) (\<lambda>_.
                      returnE updatedTask)))))))))))
       (\<lambda>error. throwE (Failure ''Failed to update task''))"

section \<open>Notions used in the statements\<close>

text \<open>The property \<open>name\<close> of a value as an object literal or a test reads it: \<open>None\<close>
  when it is not there, or when there is no object to read it from.\<close>

definition field_of :: "json \<Rightarrow> string \<Rightarrow> json option" where
  "field_of v name = (case member v name of Inl e \<Rightarrow> None | Inr x \<Rightarrow> x)"

text \<open>The spec's words for the trend: the mean of the most recent three data points, the
  mean of the three before them, and the comparison with a margin of ten percent; the sum,
  the quotient and the products are those of double arithmetic.\<close>

definition mean :: "number list \<Rightarrow> number" where
  "mean xs = num_div (foldl num_add (Fin 0) xs) (Fin (of_nat (length xs)))"

definition recent3 :: "'a list \<Rightarrow> 'a list" where
  "recent3 xs = drop (length xs - 3) xs"

definition previous3 :: "'a list \<Rightarrow> 'a list" where
  "previous3 xs = take 3 (drop (length xs - 6) xs)"

definition classify :: "number \<Rightarrow> number \<Rightarrow> trend" where
  "classify recent previous =
     (if num_less (num_mul previous (fl (11 / 10))) recent then Up
      else if num_less recent (num_mul previous (fl (9 / 10))) then Down
      else Stable)"

text \<open>A number that is neither negative nor \<open>NaN\<close>.\<close>

definition nonnegative :: "number \<Rightarrow> bool" where
  "nonnegative n = (case n of Fin x \<Rightarrow> 0 \<le> x | PInf \<Rightarrow> True | _ \<Rightarrow> False)"

text \<open>The document that a user's project key holds, the number of the completed tasks of
  a list, and the value of a property after \<open>{...existing, ...updates}\<close>.\<close>

definition stored_project :: "world \<Rightarrow> string \<Rightarrow> string \<Rightarrow> obj option" where
  "stored_project w userId projectId = map_of (entries w) (projectKey userId projectId)"

definition stored_task :: "world \<Rightarrow> string \<Rightarrow> string \<Rightarrow> obj option" where
  "stored_task w userId taskId = map_of (entries w) (taskKey userId taskId)"

definition completed_count :: "json list \<Rightarrow> nat" where
  "completed_count ts = length (filter (\<lambda>t. field_of t ''status'' = Some (JStr ''completed'')) ts)"

definition overlaid :: "obj \<Rightarrow> json \<Rightarrow> string \<Rightarrow> json option" where
  "overlaid existing updates name =
     (case map_of (own_props updates) name of Some v \<Rightarrow> Some v | None \<Rightarrow> map_of existing name)"

text \<open>The updates carry a \<open>tasks\<close> that is truthy: the test of \<open>updateProject\<close>.\<close>

definition replaces_tasks :: "json \<Rightarrow> bool" where
  "replaces_tasks updates =
     (case field_of updates ''tasks'' of None \<Rightarrow> False | Some v \<Rightarrow> truthy v)"

text \<open>A number that is \<open>+\<infinity>\<close> or a double that is not negative.\<close>

definition is_double :: "rat \<Rightarrow> bool" where
  "is_double d \<longleftrightarrow> fl d = Fin d"

definition good :: "number \<Rightarrow> bool" where
  "good n \<longleftrightarrow> n = PInf \<or> (\<exists>y. n = Fin y \<and> 0 \<le> y \<and> is_double y)"

text \<open>The store answers the next \<open>n\<close> calls.\<close>

definition answers :: "nat \<Rightarrow> world \<Rightarrow> bool" where
  "answers n w = (True \<notin> set (take n (faults w)))"

text \<open>A computation frames the keys \<open>K\<close> when it leaves every other key of the store as
  it was, whatever it returns or raises.\<close>

definition frames :: "string set \<Rightarrow> 'a io \<Rightarrow> bool" where
  "frames K m =
     (\<forall>w r w' k. m w = (r, w') \<longrightarrow> k \<notin> K \<longrightarrow> map_of (entries w') k = map_of (entries w) k)"

section \<open>Sample data\<close>

text \<open>One user, one project with one pending task, a store that answers every call, and a
  clock that stands at 10 o'clock on 5 March 2024. The sample platform reads that time; it
  prints the integer part of a number and takes every string for \<open>NaN\<close>, and the sample
  data has no fraction to print and no string to convert.\<close>

definition sample_time :: string where
  "sample_time = ''2024-03-05T10:00:00.000Z''"

definition sample_date :: jsdate where
  "sample_date =
     ValidDate \<lparr>time_ms = 1709632800000, fullYear = 2024, month = 2, dayOfMonth = 5,
                hours = 10, dateString = ''Tue Mar 05 2024''\<rparr>"

definition sample_parse :: "json option \<Rightarrow> jsdate" where
  "sample_parse v = (if v = Some (JStr sample_time) then sample_date else InvalidDate)"

definition sample_platform :: platform where
  "sample_platform =
     \<lparr>newDate = sample_parse, numberToString = (\<lambda>x. show_int \<lfloor>x\<rfloor>),
      stringToNumber = (\<lambda>s. NaN)\<rparr>"

definition sample_task :: obj where
  "sample_task =
     [(''id'', JStr ''t1''), (''projectId'', JStr ''p1''), (''title'', JStr ''Write the report''),
      (''status'', JStr ''pending''), (''priority'', JStr ''medium''),
      (''created'', JStr ''2024-03-01T09:00:00.000Z''),
      (''updated'', JStr ''2024-03-01T09:00:00.000Z''), (''actualHours'', JNum 0),
      (''dependencies'', JArr []), (''tags'', JArr [])]"

definition sample_project :: obj where
  "sample_project =
     [(''id'', JStr ''p1''), (''userId'', JStr ''u1''), (''name'', JStr ''Quarterly report''),
      (''description'', JStr []), (''status'', JStr ''active''), (''priority'', JStr ''medium''),
      (''progress'', JNum 0), (''tasks'', JArr [JObj sample_task]), (''team'', JArr []),
      (''created'', JStr ''2024-03-01T09:00:00.000Z''),
      (''updated'', JStr ''2024-03-01T09:00:00.000Z''), (''tags'', JArr []),
      (''metadata'', JObj [])]"

definition empty_world :: world where
  "empty_world = \<lparr>entries = [], faults = [], clock = (\<lambda>n. sample_time), tick = 0\<rparr>"

definition sample_world :: world where
  "sample_world =
     \<lparr>entries = [(''user:u1:project:p1'', sample_project), (''user:u1:task:t1'', sample_task)],
      faults = [], clock = (\<lambda>n. sample_time), tick = 0\<rparr>"

definition focus_session_30 :: activity where
  "focus_session_30 =
     \<lparr>a_type = FocusSession, a_metadata = Some (JObj [(''duration'', JNum 30)]),
      a_timestamp = Some sample_time\<rparr>"

text \<open>Forty tasks of which the first twenty-three are completed.\<close>

definition task_with_status :: "string \<Rightarrow> json" where
  "task_with_status s = JObj [(''status'', JStr s)]"

definition forty_tasks :: "json list" where
  "forty_tasks = replicate 23 (task_with_status ''completed'') @ replicate 17 (task_with_status ''pending'')"

section \<open>Properties\<close>

subsection \<open>Heuristic summary\<close>

lemma dropWhile_rev_dropWhile_empty:
  "dropWhile P (rev (dropWhile P s)) = [] \<longleftrightarrow> (\<forall>c\<in>set s. P c)"
proof (cases "dropWhile P s")
  case Nil
  then have a: "\<forall>c\<in>set s. P c" by (simp only: dropWhile_eq_Nil_conv)
  from Nil have "dropWhile P (rev (dropWhile P s)) = []" by (simp only: rev.simps dropWhile.simps)
  with a show ?thesis by blast
next
  case (Cons x xs)
  then have nx: "\<not> P x" using hd_dropWhile[of P s] by simp
  have "x \<in> set s" using Cons set_dropWhileD[of x P s] by simp
  with nx have r: "\<not> (\<forall>c\<in>set s. P c)" by blast
  have "x \<in> set (rev (dropWhile P s))" using Cons by simp
  with nx have "\<not> (\<forall>c\<in>set (rev (dropWhile P s)). P c)" by blast
  then have "dropWhile P (rev (dropWhile P s)) \<noteq> []"
    by (simp only: dropWhile_eq_Nil_conv not_False_eq_True)
  with r show ?thesis by blast
qed

lemma trim_empty_iff: "trim s = [] \<longleftrightarrow> (\<forall>c\<in>set s. is_space c)"
  unfolding trim_def rev_is_Nil_conv by (rule dropWhile_rev_dropWhile_empty)

lemma concat_split_runs:
  "(b \<longrightarrow> acc = []) \<Longrightarrow> concat (split_runs P b acc s) = rev acc @ filter (\<lambda>c. \<not> P c) s"
  by (induction s arbitrary: b acc) simp_all

lemma split_runs_no_separator:
  "\<forall>c\<in>set s. \<not> P c \<Longrightarrow> split_runs P b acc s = [rev acc @ s]"
  by (induction s arbitrary: b acc) simp_all

lemma sentences_of_empty_iff:
  "sentences_of content = [] \<longleftrightarrow> (\<forall>c\<in>set content. is_boundary c \<or> is_space c)"
proof -
  have "sentences_of content = [] \<longleftrightarrow>
        (\<forall>seg\<in>set (split_on is_boundary content). \<forall>c\<in>set seg. is_space c)"
    by (simp add: sentences_of_def filter_empty_conv trim_empty_iff)
  also have "\<dots> \<longleftrightarrow> (\<forall>c\<in>set (concat (split_on is_boundary content)). is_space c)"
    by auto
  also have "\<dots> \<longleftrightarrow> (\<forall>c\<in>set content. is_boundary c \<or> is_space c)"
    by (auto simp: split_on_def concat_split_runs)
  finally show ?thesis .
qed

lemma sentences_of_nonblank: "seg \<in> set (sentences_of content) \<Longrightarrow> trim seg \<noteq> []"
  by (simp add: sentences_of_def)

lemma sentences_of_no_boundary:
  assumes "\<forall>c\<in>set content. \<not> is_boundary c" "\<not> (\<forall>c\<in>set content. is_space c)"
  shows "sentences_of content = [content]"
  using assms by (simp add: sentences_of_def split_on_def split_runs_no_separator trim_empty_iff)

lemma generateFallbackSummary_nonempty: "generateFallbackSummary content \<noteq> []"
proof (cases "sentences_of content")
  case Nil
  then show ?thesis by (simp add: generateFallbackSummary_def)
next
  case (Cons seg segs)
  then have "trim seg \<noteq> []" using sentences_of_nonblank[of seg content] by simp
  with Cons show ?thesis by (simp add: generateFallbackSummary_def)
qed

subsection \<open>Merging the gateway's analysis\<close>

lemma member_cases:
  "member analysis name = Inl TypeError \<and> analysis = JNull \<or>
   member analysis name = Inr (field_of analysis name) \<and> analysis \<noteq> JNull"
  by (cases analysis) (simp_all add: field_of_def)

lemma merge_analysis_null: "merge_analysis JNull cd = Inl TypeError"
  by (simp add: merge_analysis_def bindS_def)

lemma merge_analysis_fields:
  assumes "analysis \<noteq> JNull"
  shows "merge_analysis analysis cd =
     Inr \<lparr>summary = or_else (field_of analysis ''summary'') (JStr (generateFallbackSummary (c_content cd))),
          category = or_else (field_of analysis ''category'')
            (JStr (categorizeContent (c_content cd) (c_type cd))),
          priority = or_else (field_of analysis ''priority'') (JStr (determinePriority (c_content cd))),
          suggestedActions = or_else (field_of analysis ''actions'') (strings (generateSuggestedActions cd)),
          extractedEntities =
            \<lparr>people = or_else (field_of analysis ''people'') (strings (extractPeople (c_content cd))),
             dates = or_else (field_of analysis ''dates'') (strings (extractDates (c_content cd))),
             projects = or_else (field_of analysis ''projects'') (strings []),
             tasks = or_else (field_of analysis ''tasks'') (strings (extractTasks (c_content cd)))\<rparr>\<rparr>"
proof -
  have m: "\<And>name. member analysis name = Inr (field_of analysis name)"
    using assms member_cases by blast
  show ?thesis by (simp add: merge_analysis_def bindS_def m)
qed

lemma field_of_null: "field_of JNull name = None"
  by (simp add: field_of_def)

lemma field_of_empty: "field_of (JObj []) name = None"
  by (simp add: field_of_def)

lemma or_else_None: "or_else None b = b"
  by (simp add: or_else_def)

lemma processWithAI_merge:
  "processWithAI parse outcome cd =
     (let analysis = analyzeWithOpenAI parse outcome; heuristic = getFallbackProcessing cd
      in \<lparr>summary = or_else (field_of analysis ''summary'') (summary heuristic),
          category = or_else (field_of analysis ''category'') (category heuristic),
          priority = or_else (field_of analysis ''priority'') (priority heuristic),
          suggestedActions = or_else (field_of analysis ''actions'') (suggestedActions heuristic),
          extractedEntities =
            \<lparr>people = or_else (field_of analysis ''people'') (people (extractedEntities heuristic)),
             dates = or_else (field_of analysis ''dates'') (dates (extractedEntities heuristic)),
             projects = or_else (field_of analysis ''projects'')
                          (projects (extractedEntities heuristic)),
             tasks = or_else (field_of analysis ''tasks'') (tasks (extractedEntities heuristic))\<rparr>\<rparr>)"
proof (cases "analyzeWithOpenAI parse outcome = JNull")
  case True
  then show ?thesis
    by (simp add: processWithAI_def merge_analysis_null field_of_null or_else_None
        getFallbackProcessing_def Let_def)
next
  case False
  then show ?thesis
    by (simp add: processWithAI_def merge_analysis_fields getFallbackProcessing_def Let_def)
qed

lemma analyzeWithOpenAI_failed:
  assumes "outcome = FetchRejected \<or> outcome = HttpResponse False body \<or>
           outcome = HttpResponse True None \<or>
           (outcome = HttpResponse True body \<and> parse_reply parse body = Inl e)"
  shows "analyzeWithOpenAI parse outcome = JObj []"
  using assms
  by (auto simp: analyzeWithOpenAI_def parse_reply_def response_json_def bindS_def)

lemma processWithAI_no_analysis:
  assumes "analyzeWithOpenAI parse outcome = JObj []"
  shows "processWithAI parse outcome cd = getFallbackProcessing cd"
  using assms
  by (simp add: processWithAI_merge field_of_empty or_else_None Let_def)

text \<open>
  Claim C2, as the code has it. The summary of the heuristic analyzer is never empty. When
  the content has nothing but sentence punctuation (\<open>.\<close>, \<open>!\<close>, \<open>?\<close>) and white space, so
  that no sentence is left after the split, the summary is the first 100 characters of the
  content followed by \<open>...\<close>, at most 103 characters. Otherwise it is the first non-blank
  sentence, trimmed, with \<open>...\<close> appended exactly when there is more than one non-blank
  sentence; a content without any sentence punctuation is one sentence and is returned
  whole, trimmed, whatever its length. This is the summary of the processed object when the
  gateway gives none (stated here for a rejected request).
\<close>

theorem generateFallbackSummary_shape:
  "generateFallbackSummary content \<noteq> [] \<and>
   ((\<forall>c\<in>set content. is_boundary c \<or> is_space c) \<longrightarrow>
      generateFallbackSummary content = take 100 content @ ''...'' \<and>
      length (generateFallbackSummary content) \<le> 103) \<and>
   (\<not> (\<forall>c\<in>set content. is_boundary c \<or> is_space c) \<longrightarrow>
      generateFallbackSummary content =
        trim (hd (sentences_of content)) @
        (if length (sentences_of content) > 1 then ''...'' else [])) \<and>
   ((\<forall>c\<in>set content. \<not> is_boundary c) \<and> \<not> (\<forall>c\<in>set content. is_space c) \<longrightarrow>
      generateFallbackSummary content = trim content) \<and>
   summary (processWithAI parse FetchRejected
              \<lparr>c_type = ty, c_content = content, c_source = src, c_metadata = md,
               c_priority = pr\<rparr>) = JStr (generateFallbackSummary content)"
proof (intro conjI impI)
  show "generateFallbackSummary content \<noteq> []" by (rule generateFallbackSummary_nonempty)
next
  assume a: "\<forall>c\<in>set content. is_boundary c \<or> is_space c"
  then have e: "sentences_of content = []" by (simp only: sentences_of_empty_iff)
  then show "generateFallbackSummary content = take 100 content @ ''...''"
    by (simp add: generateFallbackSummary_def)
  then show "length (generateFallbackSummary content) \<le> 103" by simp
next
  assume "\<not> (\<forall>c\<in>set content. is_boundary c \<or> is_space c)"
  then have "sentences_of content \<noteq> []" by (simp only: sentences_of_empty_iff not_False_eq_True)
  then show "generateFallbackSummary content =
        trim (hd (sentences_of content)) @
        (if length (sentences_of content) > 1 then ''...'' else [])"
    by (simp add: generateFallbackSummary_def)
next
  assume "(\<forall>c\<in>set content. \<not> is_boundary c) \<and> \<not> (\<forall>c\<in>set content. is_space c)"
  then have "sentences_of content = [content]" by (simp add: sentences_of_no_boundary)
  then show "generateFallbackSummary content = trim content"
    by (simp add: generateFallbackSummary_def)
next
  show "summary (processWithAI parse FetchRejected
              \<lparr>c_type = ty, c_content = content, c_source = src, c_metadata = md,
               c_priority = pr\<rparr>) = JStr (generateFallbackSummary content)"
    by (simp add: processWithAI_def analyzeWithOpenAI_def merge_analysis_def bindS_def or_else_def)
qed

text \<open>The three cases of C2 at concrete contents.\<close>

theorem generateFallbackSummary_shape_witness:
  "generateFallbackSummary ''?!'' = ''?!...'' \<and>
   generateFallbackSummary ''Plan the launch. Then rest'' = ''Plan the launch...'' \<and>
   generateFallbackSummary '' hello world '' = ''hello world''"
proof -
  have a: "\<forall>c\<in>set ''?!''. is_boundary c \<or> is_space c"
    by (simp add: is_boundary_def)
  have b: "\<not> (\<forall>c\<in>set ''Plan the launch. Then rest''. is_boundary c \<or> is_space c)"
    by (simp add: is_boundary_def is_space_def)
  have s: "sentences_of ''Plan the launch. Then rest'' = [''Plan the launch'', '' Then rest'']"
    by (simp add: sentences_of_def split_on_def is_boundary_def trim_def is_space_def)
  have c: "(\<forall>c\<in>set '' hello world ''. \<not> is_boundary c) \<and>
           \<not> (\<forall>c\<in>set '' hello world ''. is_space c)"
    by (simp add: is_boundary_def is_space_def)
  have t1: "trim ''Plan the launch'' = ''Plan the launch''" by (simp add: trim_def is_space_def)
  have t2: "trim '' hello world '' = ''hello world''" by (simp add: trim_def is_space_def)
  have 1: "generateFallbackSummary ''?!'' = ''?!...''"
    using generateFallbackSummary_shape[of "''?!''", THEN conjunct2, THEN conjunct1, THEN mp,
        OF a]
    by simp
  have 2: "generateFallbackSummary ''Plan the launch. Then rest'' = ''Plan the launch...''"
    using generateFallbackSummary_shape[of "''Plan the launch. Then rest''", THEN conjunct2,
        THEN conjunct2, THEN conjunct1, THEN mp, OF b]
    by (simp add: s t1)
  have 3: "generateFallbackSummary '' hello world '' = ''hello world''"
    using generateFallbackSummary_shape[of "'' hello world ''", THEN conjunct2,
        THEN conjunct2, THEN conjunct2, THEN conjunct1, THEN mp, OF c]
    by (simp add: t2)
  from 1 2 3 show ?thesis by simp
qed

text \<open>
  C2 as the spec states it fails: a content without sentence punctuation is not cut to 100
  characters and gets no ellipsis, so the summary of a content of 104 letters has 104
  characters.
\<close>

theorem generateFallbackSummary_counterexample:
  "generateFallbackSummary ''hello world'' = ''hello world'' \<and>
   generateFallbackSummary ''hello world'' \<noteq> take 100 ''hello world'' @ ''...'' \<and>
   length (generateFallbackSummary (replicate 104 (CHR ''a''))) = 104"
proof -
  have 1: "generateFallbackSummary ''hello world'' = ''hello world''"
    by (simp add: generateFallbackSummary_def sentences_of_def split_on_def is_boundary_def
        trim_def is_space_def)
  have nb: "\<forall>c\<in>set (replicate 104 (CHR ''a'')). \<not> is_boundary c"
    by (simp add: is_boundary_def)
  have ns: "\<not> (\<forall>c\<in>set (replicate 104 (CHR ''a'')). is_space c)"
    by (simp add: is_space_def)
  have "sentences_of (replicate 104 (CHR ''a'')) = [replicate 104 (CHR ''a'')]"
    using nb ns by (rule sentences_of_no_boundary)
  moreover have "dropWhile is_space (replicate 104 (CHR ''a'')) = replicate 104 (CHR ''a'')"
    by (rule dropWhile_eq_self_iff[THEN iffD2]) (simp add: is_space_def)
  ultimately have 2: "generateFallbackSummary (replicate 104 (CHR ''a'')) = replicate 104 (CHR ''a'')"
    by (simp add: generateFallbackSummary_def trim_def)
  show ?thesis by (simp add: 1 2)
qed

subsection \<open>Heuristic priority\<close>

lemma sublist_map_lower: "sublist w s \<Longrightarrow> sublist (map f w) (map f s)"
  by (auto simp: sublist_def) (metis map_append)

lemma urgentWords_lower: "w \<in> set urgentWords \<Longrightarrow> toLowerCase w = w"
  by (auto simp: urgentWords_def toLowerCase_def lower_char_def)

lemma urgent_literal:
  assumes "list_ex (str_includes content) urgentWords"
  shows "list_ex (str_includes (toLowerCase content)) urgentWords"
proof -
  from assms obtain w where w: "w \<in> set urgentWords" "sublist w content"
    by (auto simp: list_ex_iff str_includes_def)
  then have "sublist (toLowerCase w) (toLowerCase content)"
    unfolding toLowerCase_def by (intro sublist_map_lower)
  with w have "str_includes (toLowerCase content) w"
    by (simp add: urgentWords_lower str_includes_def)
  with w show ?thesis by (auto simp: list_ex_iff)
qed

text \<open>
  Claim C7, as the code has it. The priority of the heuristic analyzer is one of \<open>high\<close>,
  \<open>medium\<close> and \<open>low\<close>; it is \<open>high\<close> whenever the content contains an urgent word, in
  any letter case and whatever else it contains; \<open>medium\<close> when it contains no urgent word
  but a secondary one; \<open>low\<close> otherwise. The priority of the processed object is the
  gateway's priority when the gateway gives a truthy one, and the heuristic priority
  otherwise.
\<close>

theorem determinePriority_tiers:
  "determinePriority content \<in> {''high'', ''medium'', ''low''} \<and>
   (list_ex (str_includes (toLowerCase content)) urgentWords \<longrightarrow>
      determinePriority content = ''high'') \<and>
   (list_ex (str_includes content) urgentWords \<longrightarrow> determinePriority content = ''high'') \<and>
   (\<not> list_ex (str_includes (toLowerCase content)) urgentWords \<and>
    list_ex (str_includes (toLowerCase content)) highPriorityWords \<longrightarrow>
      determinePriority content = ''medium'') \<and>
   (\<not> list_ex (str_includes (toLowerCase content)) urgentWords \<and>
    \<not> list_ex (str_includes (toLowerCase content)) highPriorityWords \<longrightarrow>
      determinePriority content = ''low'') \<and>
   priority (processWithAI parse outcome cd) =
     or_else (field_of (analyzeWithOpenAI parse outcome) ''priority'')
       (JStr (determinePriority (c_content cd)))"
proof (intro conjI impI)
  show "determinePriority content \<in> {''high'', ''medium'', ''low''}"
    by (simp add: determinePriority_def Let_def)
next
  assume "list_ex (str_includes (toLowerCase content)) urgentWords"
  then show "determinePriority content = ''high''"
    by (simp add: determinePriority_def Let_def)
next
  assume "list_ex (str_includes content) urgentWords"
  then have "list_ex (str_includes (toLowerCase content)) urgentWords" by (rule urgent_literal)
  then show "determinePriority content = ''high''"
    by (simp add: determinePriority_def Let_def)
next
  assume "\<not> list_ex (str_includes (toLowerCase content)) urgentWords \<and>
    list_ex (str_includes (toLowerCase content)) highPriorityWords"
  then show "determinePriority content = ''medium''"
    by (simp add: determinePriority_def Let_def)
next
  assume "\<not> list_ex (str_includes (toLowerCase content)) urgentWords \<and>
    \<not> list_ex (str_includes (toLowerCase content)) highPriorityWords"
  then show "determinePriority content = ''low''"
    by (simp add: determinePriority_def Let_def)
next
  show "priority (processWithAI parse outcome cd) =
     or_else (field_of (analyzeWithOpenAI parse outcome) ''priority'')
       (JStr (determinePriority (c_content cd)))"
    by (simp add: processWithAI_merge Let_def getFallbackProcessing_def)
qed

text \<open>The tiers of C7 at concrete contents.\<close>

theorem determinePriority_tiers_witness:
  "determinePriority ''URGENT: call the client'' = ''high'' \<and>
   determinePriority ''this is urgent'' = ''high'' \<and>
   determinePriority ''Meeting with the client'' = ''medium'' \<and>
   determinePriority ''buy milk'' = ''low''"
proof -
  have a: "list_ex (str_includes (toLowerCase ''URGENT: call the client'')) urgentWords"
    by code_simp
  have b: "list_ex (str_includes ''this is urgent'') urgentWords"
    by code_simp
  have c: "\<not> list_ex (str_includes (toLowerCase ''Meeting with the client'')) urgentWords \<and>
           list_ex (str_includes (toLowerCase ''Meeting with the client'')) highPriorityWords"
    by code_simp
  have d: "\<not> list_ex (str_includes (toLowerCase ''buy milk'')) urgentWords \<and>
           \<not> list_ex (str_includes (toLowerCase ''buy milk'')) highPriorityWords"
    by code_simp
  note t = determinePriority_tiers
  show ?thesis
    using t[of "''URGENT: call the client''", THEN conjunct2, THEN conjunct1, THEN mp, OF a]
      t[of "''this is urgent''", THEN conjunct2, THEN conjunct2, THEN conjunct1, THEN mp, OF b]
      t[of "''Meeting with the client''", THEN conjunct2, THEN conjunct2, THEN conjunct2,
        THEN conjunct1, THEN mp, OF c]
      t[of "''buy milk''", THEN conjunct2, THEN conjunct2, THEN conjunct2, THEN conjunct2,
        THEN conjunct1, THEN mp, OF d]
    by simp
qed

text \<open>
  C7 as the spec states it fails for the processed object: the gateway's answer wins over
  the keywords. Here the gateway answers \<open>{"priority":"low"}\<close> for a content that contains
  \<open>urgent\<close>, and the processed priority is \<open>low\<close>.
\<close>

theorem processed_priority_counterexample:
  \<open>priority (processWithAI
       (\<lambda>v. if v = JStr ''{"priority":"low"}'' then Some (JObj [(''priority'', JStr ''low'')])
            else None)
       (HttpResponse True (Some (JObj [(''choices'', JArr [JObj [(''message'',
          JObj [(''content'', JStr ''{"priority":"low"}'')])]])])))
       \<lparr>c_type = Note, c_content = ''urgent: the server is down'', c_source = None,
        c_metadata = None, c_priority = None\<rparr>) = JStr ''low'' \<and>
    str_includes ''urgent: the server is down'' ''urgent''\<close>
  by (simp add: processWithAI_def analyzeWithOpenAI_def parse_reply_def response_json_def
      bindS_def or_else_def JSON_parse_def merge_analysis_def str_includes_def)

text \<open>
  Claim C6. When the gateway call fails (the request is rejected, the response is not
  \<open>ok\<close>, the body does not parse, or the reply in it cannot be read as JSON), the processed
  object is the one the heuristic analyzer builds. In general every field of the processed
  object is the gateway's value for that field when it is there and truthy, and the
  heuristic analyzer's value for that very field otherwise.
\<close>

theorem processWithAI_field_level_fallback:
  "((outcome = FetchRejected \<or> outcome = HttpResponse False body \<or>
     outcome = HttpResponse True None \<or>
     (outcome = HttpResponse True body \<and> parse_reply parse body = Inl e)) \<longrightarrow>
      processWithAI parse outcome cd = getFallbackProcessing cd) \<and>
   processWithAI parse outcome cd =
     (let analysis = analyzeWithOpenAI parse outcome; heuristic = getFallbackProcessing cd
      in \<lparr>summary = or_else (field_of analysis ''summary'') (summary heuristic),
          category = or_else (field_of analysis ''category'') (category heuristic),
          priority = or_else (field_of analysis ''priority'') (priority heuristic),
          suggestedActions = or_else (field_of analysis ''actions'') (suggestedActions heuristic),
          extractedEntities =
            \<lparr>people = or_else (field_of analysis ''people'') (people (extractedEntities heuristic)),
             dates = or_else (field_of analysis ''dates'') (dates (extractedEntities heuristic)),
             projects = or_else (field_of analysis ''projects'')
                          (projects (extractedEntities heuristic)),
             tasks = or_else (field_of analysis ''tasks'') (tasks (extractedEntities heuristic))\<rparr>\<rparr>) \<and>
   ((a = None \<or> (\<exists>v. a = Some v \<and> \<not> truthy v)) \<longrightarrow> or_else a b = b) \<and>
   (truthy v \<longrightarrow> or_else (Some v) b = v)"
proof (intro conjI impI)
  assume "outcome = FetchRejected \<or> outcome = HttpResponse False body \<or>
     outcome = HttpResponse True None \<or>
     (outcome = HttpResponse True body \<and> parse_reply parse body = Inl e)"
  then have "analyzeWithOpenAI parse outcome = JObj []" by (rule analyzeWithOpenAI_failed)
  then show "processWithAI parse outcome cd = getFallbackProcessing cd"
    by (rule processWithAI_no_analysis)
next
  show "processWithAI parse outcome cd =
     (let analysis = analyzeWithOpenAI parse outcome; heuristic = getFallbackProcessing cd
      in \<lparr>summary = or_else (field_of analysis ''summary'') (summary heuristic),
          category = or_else (field_of analysis ''category'') (category heuristic),
          priority = or_else (field_of analysis ''priority'') (priority heuristic),
          suggestedActions = or_else (field_of analysis ''actions'') (suggestedActions heuristic),
          extractedEntities =
            \<lparr>people = or_else (field_of analysis ''people'') (people (extractedEntities heuristic)),
             dates = or_else (field_of analysis ''dates'') (dates (extractedEntities heuristic)),
             projects = or_else (field_of analysis ''projects'')
                          (projects (extractedEntities heuristic)),
             tasks = or_else (field_of analysis ''tasks'') (tasks (extractedEntities heuristic))\<rparr>\<rparr>)"
    by (rule processWithAI_merge)
next
  assume "a = None \<or> (\<exists>v. a = Some v \<and> \<not> truthy v)"
  then show "or_else a b = b" by (auto simp: or_else_def)
next
  assume "truthy v"
  then show "or_else (Some v) b = v" by (simp add: or_else_def)
qed

text \<open>C6 at a rejected request and at a reply that is no JSON; \<open>||\<close> at a falsy and at a
  truthy value.\<close>

theorem processWithAI_field_level_fallback_witness:
  "processWithAI (\<lambda>v. None) FetchRejected
      \<lparr>c_type = Note, c_content = ''Call the client'', c_source = None, c_metadata = None,
       c_priority = None\<rparr>
    = getFallbackProcessing
      \<lparr>c_type = Note, c_content = ''Call the client'', c_source = None, c_metadata = None,
       c_priority = None\<rparr> \<and>
   processWithAI (\<lambda>v. None)
      (HttpResponse True (Some (JObj [(''choices'', JArr [JObj [(''message'',
          JObj [(''content'', JStr ''I am sorry'')])]])])))
      \<lparr>c_type = Note, c_content = ''Call the client'', c_source = None, c_metadata = None,
       c_priority = None\<rparr>
    = getFallbackProcessing
      \<lparr>c_type = Note, c_content = ''Call the client'', c_source = None, c_metadata = None,
       c_priority = None\<rparr> \<and>
   or_else (Some (JStr [])) (JStr ''general'') = JStr ''general'' \<and>
   or_else (Some (JStr ''meeting'')) (JStr ''general'') = JStr ''meeting''"
proof -
  let ?cd = "\<lparr>c_type = Note, c_content = ''Call the client'', c_source = None,
              c_metadata = None, c_priority = None\<rparr>"
  let ?body = "Some (JObj [(''choices'', JArr [JObj [(''message'',
          JObj [(''content'', JStr ''I am sorry'')])]])])"
  note t = processWithAI_field_level_fallback
  have h1: "FetchRejected = FetchRejected \<or> FetchRejected = HttpResponse False None \<or>
     FetchRejected = HttpResponse True None \<or>
     (FetchRejected = HttpResponse True None \<and> parse_reply (\<lambda>v. None) None = Inl TypeError)"
    by simp
  have p: "parse_reply (\<lambda>v. None) ?body = Inl SyntaxError"
    by (simp add: parse_reply_def response_json_def bindS_def or_else_def JSON_parse_def)
  have h2: "HttpResponse True ?body = FetchRejected \<or>
     HttpResponse True ?body = HttpResponse False ?body \<or>
     HttpResponse True ?body = HttpResponse True None \<or>
     (HttpResponse True ?body = HttpResponse True ?body \<and>
      parse_reply (\<lambda>v. None) ?body = Inl SyntaxError)"
    using p by simp
  have h3: "Some (JStr []) = None \<or> (\<exists>v. Some (JStr []) = Some v \<and> \<not> truthy v)"
    by simp
  have h4: "truthy (JStr ''meeting'')" by simp
  show ?thesis
    using t[THEN conjunct1, THEN mp, OF h1, of ?cd]
      t[THEN conjunct1, THEN mp, OF h2, of ?cd]
      t[THEN conjunct2, THEN conjunct2, THEN conjunct1, THEN mp, OF h3, of "JStr ''general''"]
      t[THEN conjunct2, THEN conjunct2, THEN conjunct2, THEN mp, OF h4, of "JStr ''general''"]
    by simp
qed

subsection \<open>Double arithmetic\<close>

lemma rhe_of_int [simp]: "round_half_even (of_int n) = n"
  by (simp add: round_half_even_def)

lemma rhe_bounds: "\<lfloor>x\<rfloor> \<le> round_half_even x \<and> round_half_even x \<le> \<lfloor>x\<rfloor> + 1"
  by (simp add: round_half_even_def Let_def)

lemma rhe_mono:
  assumes "x \<le> y"
  shows "round_half_even x \<le> round_half_even y"
proof (cases "\<lfloor>x\<rfloor> = \<lfloor>y\<rfloor>")
  case True
  then have "x - of_int \<lfloor>x\<rfloor> \<le> y - of_int \<lfloor>y\<rfloor>" using assms by simp
  then show ?thesis using True by (auto simp: round_half_even_def Let_def)
next
  case False
  moreover have "\<lfloor>x\<rfloor> \<le> \<lfloor>y\<rfloor>" using assms by (rule floor_mono)
  ultimately have "\<lfloor>x\<rfloor> + 1 \<le> \<lfloor>y\<rfloor>" by simp
  with rhe_bounds[of x] rhe_bounds[of y] show ?thesis by linarith
qed

lemma rhe_ge: "of_int n \<le> x \<Longrightarrow> n \<le> round_half_even x"
  using rhe_mono[of "of_int n" x] by simp

lemma rhe_le: "x \<le> of_int n \<Longrightarrow> round_half_even x \<le> n"
  using rhe_mono[of x "of_int n"] by simp

lemma powi_nat: "0 \<le> k \<Longrightarrow> (2::rat) powi k = of_int (2 ^ nat k)"
  by (simp add: power_int_nonneg_exp)

lemma exponent_of_bounds:
  assumes "x \<noteq> 0"
  shows "2 powi exponent_of x \<le> \<bar>x\<bar> \<and> \<bar>x\<bar> < 2 powi (exponent_of x + 1)"
proof (cases "1 \<le> \<bar>x\<bar>")
  case True
  let ?n = "\<lfloor>\<bar>x\<bar>\<rfloor>"
  have n: "0 < ?n" using True by simp
  from bitlen_bounds[OF n]
  have b1: "2 ^ nat (bitlen ?n - 1) \<le> ?n" and b2: "?n < 2 ^ nat (bitlen ?n)" by auto
  have bl: "1 \<le> bitlen ?n"
    using n bitlen_eq_zero_iff[of ?n] bitlen_nonneg[of ?n] by linarith
  have e: "exponent_of x = bitlen ?n - 1" by (simp add: exponent_of_def True)
  have "(2::rat) powi (bitlen ?n - 1) = of_int (2 ^ nat (bitlen ?n - 1))"
    using bl by (simp add: powi_nat)
  also have "\<dots> \<le> of_int ?n" using b1 by (simp only: of_int_le_iff)
  also have "\<dots> \<le> \<bar>x\<bar>" by simp
  finally have 1: "2 powi exponent_of x \<le> \<bar>x\<bar>" by (simp add: e)
  have "\<bar>x\<bar> < of_int (?n + 1)" by linarith
  also have "\<dots> \<le> of_int (2 ^ nat (bitlen ?n))" using b2 by (simp only: of_int_le_iff)
  also have "\<dots> = (2::rat) powi (bitlen ?n)" using bl by (simp add: powi_nat)
  finally have 2: "\<bar>x\<bar> < 2 powi (exponent_of x + 1)" by (simp add: e)
  from 1 2 show ?thesis by simp
next
  case False
  let ?u = "1 / \<bar>x\<bar>"
  let ?N = "\<lceil>?u\<rceil>"
  have pos: "0 < \<bar>x\<bar>" using assms by simp
  have lt: "\<bar>x\<bar> < 1" using False by simp
  have u: "1 < ?u" using pos lt by (simp add: field_simps)
  have N: "2 \<le> ?N" using u by linarith
  let ?k = "bitlen (?N - 1)"
  have n: "0 < ?N - 1" using N by simp
  from bitlen_bounds[OF n]
  have b1: "2 ^ nat (?k - 1) \<le> ?N - 1" and b2: "?N - 1 < 2 ^ nat ?k" by auto
  have bl: "1 \<le> ?k"
    using n bitlen_eq_zero_iff[of "?N - 1"] bitlen_nonneg[of "?N - 1"] by linarith
  have e: "exponent_of x = - ?k" using False by (simp add: exponent_of_def)
  have "?u \<le> of_int ?N" by simp
  also have "\<dots> \<le> of_int (2 ^ nat ?k)" using b2 by (simp only: of_int_le_iff)
  also have "\<dots> = (2::rat) powi ?k" using bl by (simp add: powi_nat)
  finally have "?u \<le> 2 powi ?k" .
  then have "1 \<le> 2 powi ?k * \<bar>x\<bar>" using pos by (simp add: field_simps)
  then have 1: "2 powi exponent_of x \<le> \<bar>x\<bar>"
    by (simp add: e power_int_minus field_simps)
  have "(2::rat) powi (?k - 1) = of_int (2 ^ nat (?k - 1))" using bl by (simp add: powi_nat)
  also have "\<dots> \<le> of_int (?N - 1)" using b1 by (simp only: of_int_le_iff)
  also have "\<dots> < ?u" by linarith
  finally have "2 powi (?k - 1) < ?u" .
  then have "\<bar>x\<bar> * 2 powi (?k - 1) < 1" using pos by (simp add: field_simps)
  moreover have pp: "0 < (2::rat) powi (?k - 1)" by simp
  ultimately have "\<bar>x\<bar> < 1 / 2 powi (?k - 1)" by (simp only: pos_less_divide_eq)
  moreover have "(2::rat) powi (exponent_of x + 1) = 1 / 2 powi (?k - 1)"
    by (simp add: e power_int_minus_divide[symmetric])
  ultimately have 2: "\<bar>x\<bar> < 2 powi (exponent_of x + 1)" by simp
  from 1 2 show ?thesis by simp
qed

lemma powi_less_cancel: "(2::rat) powi a < 2 powi b \<Longrightarrow> a < b"
proof (rule ccontr)
  assume l: "(2::rat) powi a < 2 powi b" and "\<not> a < b"
  then have "b \<le> a" by simp
  then have "(2::rat) powi b \<le> 2 powi a" by (intro power_int_increasing) simp_all
  with l show False by simp
qed

lemma powi_mono: "a \<le> b \<Longrightarrow> (2::rat) powi a \<le> 2 powi b"
  by (intro power_int_increasing) simp_all

lemma powi_split: "(2::rat) powi (a + b) = 2 powi a * 2 powi b"
  by (simp add: power_int_add)

lemma exponent_mono:
  assumes "0 < x" "x \<le> y"
  shows "exponent_of x \<le> exponent_of y"
proof -
  from assms have nz: "x \<noteq> 0" "y \<noteq> 0" by simp_all
  have "2 powi exponent_of x \<le> \<bar>x\<bar>" using exponent_of_bounds[OF nz(1)] by simp
  also have "\<dots> \<le> \<bar>y\<bar>" using assms by simp
  also have "\<dots> < 2 powi (exponent_of y + 1)" using exponent_of_bounds[OF nz(2)] by simp
  finally have "exponent_of x < exponent_of y + 1" by (rule powi_less_cancel)
  then show ?thesis by simp
qed

lemma quantum_mono: "0 < x \<Longrightarrow> x \<le> y \<Longrightarrow> quantum x \<le> quantum y"
  using exponent_mono[of x y] by (simp add: quantum_def)

lemma scaled_upper:
  assumes "0 < x"
  shows "x / 2 powi quantum x < 2 powi (exponent_of x + 1 - quantum x)"
proof -
  from assms have "x < 2 powi (exponent_of x + 1)" using exponent_of_bounds[of x] by simp
  also have "\<dots> = 2 powi (exponent_of x + 1 - quantum x) * 2 powi quantum x"
    by (simp add: powi_split[symmetric])
  finally show ?thesis by (simp add: pos_divide_less_eq)
qed

lemma scaled_lower:
  assumes "0 < x"
  shows "2 powi (exponent_of x - quantum x) \<le> x / 2 powi quantum x"
proof -
  have "2 powi (exponent_of x - quantum x) * 2 powi quantum x = (2::rat) powi exponent_of x"
    by (simp add: powi_split[symmetric])
  also from assms have "\<dots> \<le> x" using exponent_of_bounds[of x] by simp
  finally show ?thesis by (simp add: pos_le_divide_eq)
qed

lemma rounded_upper:
  assumes "0 < x"
  shows "of_int (round_half_even (x / 2 powi quantum x)) * (2::rat) powi quantum x
           \<le> max (2 powi (exponent_of x + 1)) (2 powi quantum x)"
proof -
  let ?q = "quantum x" and ?e = "exponent_of x"
  define K where "K = max 0 (?e + 1 - ?q)"
  have "x / 2 powi ?q < 2 powi (?e + 1 - ?q)" using assms by (rule scaled_upper)
  also have "\<dots> \<le> 2 powi K" by (rule powi_mono) (simp add: K_def)
  also have "\<dots> = of_int (2 ^ nat K)" by (rule powi_nat) (simp add: K_def)
  finally have "x / 2 powi ?q \<le> of_int (2 ^ nat K)" by simp
  then have "round_half_even (x / 2 powi ?q) \<le> 2 ^ nat K" by (rule rhe_le)
  then have "(of_int (round_half_even (x / 2 powi ?q)) :: rat) \<le> of_int (2 ^ nat K)"
    by (simp only: of_int_le_iff)
  also have "\<dots> = 2 powi K" by (rule powi_nat[symmetric]) (simp add: K_def)
  finally have "of_int (round_half_even (x / 2 powi ?q)) * (2::rat) powi ?q \<le> 2 powi K * 2 powi ?q"
    by (simp add: mult_right_mono)
  also have "\<dots> = 2 powi (K + ?q)" by (simp add: powi_split)
  also have "\<dots> = max (2 powi (?e + 1)) (2 powi ?q)"
  proof (cases "0 \<le> ?e + 1 - ?q")
    case True
    then have "K + ?q = ?e + 1" by (simp add: K_def)
    moreover have "(2::rat) powi ?q \<le> 2 powi (?e + 1)" using True by (intro powi_mono) simp
    ultimately show ?thesis by (simp add: max_def)
  next
    case False
    then have "K + ?q = ?q" by (simp add: K_def)
    moreover have "(2::rat) powi (?e + 1) \<le> 2 powi ?q" using False by (intro powi_mono) simp
    ultimately show ?thesis by (simp add: max_def)
  qed
  finally show ?thesis .
qed

lemma fl_pos_cases:
  assumes "0 < x"
  shows "fl x = PInf \<and> overflow_threshold \<le> of_int (round_half_even (x / 2 powi quantum x)) * 2 powi quantum x \<or>
         fl x = Fin (of_int (round_half_even (x / 2 powi quantum x)) * 2 powi quantum x) \<and>
         of_int (round_half_even (x / 2 powi quantum x)) * 2 powi quantum x < overflow_threshold"
proof -
  let ?y = "of_int (round_half_even (x / 2 powi quantum x)) * (2::rat) powi quantum x"
  have "0 \<le> x / 2 powi quantum x" using assms by simp
  then have "0 \<le> round_half_even (x / 2 powi quantum x)" using rhe_ge[of 0] by simp
  then have nn: "0 \<le> ?y" by simp
  have small: "?y < overflow_threshold" if "exponent_of x < 1023"
  proof -
    from that have "exponent_of x + 1 \<le> 1023" by simp
    then have "(2::rat) powi (exponent_of x + 1) \<le> 2 powi 1023" by (rule powi_mono)
    moreover have "quantum x \<le> 1023" using that by (simp add: quantum_def)
    then have "(2::rat) powi quantum x \<le> 2 powi 1023" by (rule powi_mono)
    ultimately have "max ((2::rat) powi (exponent_of x + 1)) (2 powi quantum x) \<le> 2 powi 1023"
      by (simp only: max_def split: if_splits) simp
    with rounded_upper[OF assms] have "?y \<le> 2 powi 1023" by (rule order_trans)
    moreover have "(2::rat) powi 1023 < 2 powi 1024" by (rule power_int_strict_increasing) simp_all
    ultimately show ?thesis by (simp only: overflow_threshold_def)
  qed
  show ?thesis using assms nn small by (auto simp: fl_def Let_def abs_if signed_zero_def signed_infinity_def)
qed

lemma is_double_posD:
  assumes "is_double d" "0 < d"
  shows "d = of_int (round_half_even (d / 2 powi quantum d)) * 2 powi quantum d \<and> d < overflow_threshold"
  using fl_pos_cases[OF assms(2)] assms(1) by (auto simp: is_double_def)

lemma fl_ge:
  assumes d: "0 < d" "is_double d" and le: "d \<le> x"
  shows "fl x = PInf \<or> (\<exists>y. fl x = Fin y \<and> d \<le> y)"
proof -
  from d le have x: "0 < x" by simp
  let ?qx = "quantum x" and ?qd = "quantum d"
  let ?mx = "round_half_even (x / 2 powi ?qx)" and ?md = "round_half_even (d / 2 powi ?qd)"
  from is_double_posD[OF d(2) d(1)] have dd: "d = of_int ?md * 2 powi ?qd" by simp
  have q: "?qd \<le> ?qx" using d(1) le by (rule quantum_mono)
  have "d \<le> of_int ?mx * 2 powi ?qx"
  proof (cases "?qd = ?qx")
    case True
    have "d / 2 powi ?qx = of_int ?md" using dd True
      by (metis nonzero_mult_div_cancel_right power_int_eq_0_iff zero_neq_numeral)
    moreover have "d / 2 powi ?qx \<le> x / 2 powi ?qx" using le by (simp add: divide_right_mono)
    ultimately have "?md \<le> ?mx" using rhe_ge by simp
    then have "of_int ?md * (2::rat) powi ?qx \<le> of_int ?mx * 2 powi ?qx"
      by (simp add: mult_right_mono)
    with dd True show ?thesis by simp
  next
    case False
    with q have lt: "?qd < ?qx" by simp
    then have qx: "?qx = exponent_of x - 52" by (simp add: quantum_def max_def split: if_splits)
    have "exponent_of d - 52 \<le> ?qd" by (simp add: quantum_def)
    with lt qx have e: "exponent_of d + 1 \<le> exponent_of x" by simp
    define P where "P = (2::int) ^ 52"
    have P: "(2::rat) powi 52 = of_int P" by (simp add: P_def)
    have "exponent_of x - ?qx = 52" using qx by simp
    with scaled_lower[OF x] have "of_int P \<le> x / 2 powi ?qx" by (simp only: P)
    then have "P \<le> ?mx" by (rule rhe_ge)
    then have "(of_int P :: rat) \<le> of_int ?mx" by (simp only: of_int_le_iff)
    then have "of_int P * 2 powi ?qx \<le> of_int ?mx * (2::rat) powi ?qx"
      by (simp add: mult_right_mono)
    moreover have "of_int P * 2 powi ?qx = (2::rat) powi exponent_of x"
      unfolding P[symmetric] powi_split[symmetric] using qx by simp
    ultimately have "(2::rat) powi exponent_of x \<le> of_int ?mx * 2 powi ?qx" by simp
    moreover have "d < 2 powi (exponent_of d + 1)" using exponent_of_bounds[of d] d(1) by simp
    moreover have "(2::rat) powi (exponent_of d + 1) \<le> 2 powi exponent_of x"
      using e by (rule powi_mono)
    ultimately show ?thesis by simp
  qed
  with fl_pos_cases[OF x] show ?thesis by auto
qed

lemma fl_le:
  assumes x: "0 < x" and le: "x \<le> d" and d: "is_double d"
  shows "\<exists>y. fl x = Fin y \<and> 0 \<le> y \<and> y \<le> d"
proof -
  from x le have dp: "0 < d" by simp
  let ?qx = "quantum x" and ?qd = "quantum d"
  let ?mx = "round_half_even (x / 2 powi ?qx)" and ?md = "round_half_even (d / 2 powi ?qd)"
  from is_double_posD[OF d dp] have dd: "d = of_int ?md * 2 powi ?qd" and fin: "d < overflow_threshold"
    by simp_all
  have q: "?qx \<le> ?qd" using x le by (rule quantum_mono)
  have "0 \<le> x / 2 powi ?qx" using x by simp
  then have "0 \<le> ?mx" using rhe_ge[of 0] by simp
  then have nonneg: "0 \<le> (of_int ?mx :: rat) * 2 powi ?qx" by simp
  have "of_int ?mx * 2 powi ?qx \<le> d"
  proof (cases "?qd = ?qx")
    case True
    have "d / 2 powi ?qx = of_int ?md" using dd True
      by (metis nonzero_mult_div_cancel_right power_int_eq_0_iff zero_neq_numeral)
    moreover have "x / 2 powi ?qx \<le> d / 2 powi ?qx" using le by (simp add: divide_right_mono)
    ultimately have "?mx \<le> ?md" using rhe_le by simp
    then have "of_int ?mx * (2::rat) powi ?qx \<le> of_int ?md * 2 powi ?qx"
      by (simp add: mult_right_mono)
    with dd True show ?thesis by simp
  next
    case False
    with q have lt: "?qx < ?qd" by simp
    then have qd: "?qd = exponent_of d - 52" by (simp add: quantum_def max_def split: if_splits)
    have "exponent_of x - 52 \<le> ?qx" by (simp add: quantum_def)
    with lt qd have e: "exponent_of x + 1 \<le> exponent_of d" by simp
    define K where "K = max 0 (exponent_of x + 1 - ?qx)"
    have "x / 2 powi ?qx < 2 powi (exponent_of x + 1 - ?qx)" using x by (rule scaled_upper)
    also have "\<dots> \<le> 2 powi K" by (rule powi_mono) (simp add: K_def)
    also have "\<dots> = of_int (2 ^ nat K)" by (rule powi_nat) (simp add: K_def)
    finally have "x / 2 powi ?qx \<le> of_int (2 ^ nat K)" by simp
    then have "?mx \<le> 2 ^ nat K" by (rule rhe_le)
    then have "(of_int ?mx :: rat) \<le> of_int (2 ^ nat K)" by (simp only: of_int_le_iff)
    also have "\<dots> = 2 powi K" by (rule powi_nat[symmetric]) (simp add: K_def)
    finally have "of_int ?mx * (2::rat) powi ?qx \<le> 2 powi K * 2 powi ?qx"
      by (simp add: mult_right_mono)
    also have "\<dots> = 2 powi (K + ?qx)" by (simp add: powi_split)
    also have "\<dots> \<le> 2 powi exponent_of d"
    proof (rule powi_mono)
      have "?qx \<le> exponent_of d" using lt qd by simp
      with e show "K + ?qx \<le> exponent_of d" by (simp add: K_def max_def)
    qed
    also have "\<dots> \<le> d" using exponent_of_bounds[of d] dp by simp
    finally show ?thesis .
  qed
  with fin nonneg fl_pos_cases[OF x] show ?thesis by auto
qed

lemma fl_idem:
  assumes x: "0 \<le> x" and f: "fl x = Fin y"
  shows "is_double y \<and> 0 \<le> y"
proof (cases "x = 0")
  case True
  with f show ?thesis by (simp add: fl_def is_double_def)
next
  case False
  with x have xp: "0 < x" by simp
  let ?q = "quantum x"
  let ?m = "round_half_even (x / 2 powi ?q)"
  from fl_pos_cases[OF xp] f have y: "y = of_int ?m * 2 powi ?q" and fin: "y < overflow_threshold"
    by auto
  have "0 \<le> x / 2 powi ?q" using xp by simp
  then have m0: "0 \<le> ?m" using rhe_ge[of 0] by simp
  show ?thesis
  proof (cases "?m = 0")
    case True
    with y show ?thesis by (simp add: fl_def is_double_def)
  next
    case False
    with m0 have mp: "0 < ?m" by simp
    then have yp: "0 < y" using y by simp
    define P where "P = (2::int) ^ 53"
    have P: "(2::rat) powi 53 = of_int P" by (simp add: P_def)
    have "exponent_of x - 52 \<le> ?q" by (simp add: quantum_def)
    then have "exponent_of x + 1 - ?q \<le> 53" by simp
    then have "(2::rat) powi (exponent_of x + 1 - ?q) \<le> 2 powi 53" by (rule powi_mono)
    with scaled_upper[OF xp] have "x / 2 powi ?q \<le> of_int P" by (simp only: P)
    then have mu: "?m \<le> P" by (rule rhe_le)
    define qy where "qy = quantum y"
    define ey where "ey = exponent_of y"
    have qy: "qy = max (ey - 52) (- 1074)" by (simp add: qy_def ey_def quantum_def)
    have qlow: "- 1074 \<le> ?q" by (simp add: quantum_def)
    have ey: "2 powi ey \<le> y" "y < 2 powi (ey + 1)"
      using exponent_of_bounds[of y] yp by (simp_all add: ey_def)
    have int: "\<exists>k. y / 2 powi qy = of_int k"
    proof (cases "?m = P")
      case True
      then have y53: "y = 2 powi (53 + ?q)" using y by (simp only: P[symmetric] powi_split)
      have "(2::rat) powi (53 + ?q) < 2 powi (53 + ?q + 1)"
        by (rule power_int_strict_increasing) simp_all
      with ey(1) have "(2::rat) powi ey < 2 powi (53 + ?q + 1)" by (simp only: y53)
      then have "ey < 53 + ?q + 1" by (rule powi_less_cancel)
      moreover have "(2::rat) powi (53 + ?q) < 2 powi (ey + 1)"
        using ey(2) by (simp only: y53[symmetric])
      then have "53 + ?q < ey + 1" by (rule powi_less_cancel)
      ultimately have "ey = 53 + ?q" by simp
      with qlow have "qy = ?q + 1" by (simp add: qy)
      then have "53 + ?q = 52 + qy" by simp
      then have "y = 2 powi 52 * 2 powi qy" using y53 by (simp only: powi_split)
      then have "y / 2 powi qy = 2 powi 52" by simp
      also have "\<dots> = of_int (2 ^ 52)" by simp
      finally show ?thesis by blast
    next
      case False
      with mu have "?m < P" by simp
      then have "(of_int ?m :: rat) < of_int P" by (simp only: of_int_less_iff)
      then have "of_int ?m * 2 powi ?q < of_int P * (2::rat) powi ?q"
        by (simp add: mult_strict_right_mono)
      then have "y < 2 powi (53 + ?q)" unfolding y P[symmetric] powi_split[symmetric] .
      with ey(1) have "(2::rat) powi ey < 2 powi (53 + ?q)" by simp
      then have "ey < 53 + ?q" by (rule powi_less_cancel)
      with qlow have qq: "qy \<le> ?q" by (simp add: qy)
      have "y / 2 powi qy = of_int ?m * 2 powi (?q - qy)"
        using y by (simp add: power_int_diff)
      also have "\<dots> = of_int ?m * of_int (2 ^ nat (?q - qy))"
        using qq by (simp add: powi_nat)
      also have "\<dots> = of_int (?m * 2 ^ nat (?q - qy))" by simp
      finally show ?thesis by blast
    qed
    then have "\<exists>k. y / 2 powi quantum y = of_int k" by (simp only: qy_def)
    then obtain k where k: "y / 2 powi quantum y = of_int k" by blast
    have "of_int (round_half_even (y / 2 powi quantum y)) * 2 powi quantum y
            = y / 2 powi quantum y * 2 powi quantum y"
      by (simp only: k rhe_of_int)
    also have "\<dots> = y" by simp
    finally have "of_int (round_half_even (y / 2 powi quantum y)) * 2 powi quantum y = y" .
    then have "fl y = Fin y" using yp fin fl_pos_cases[OF yp] by auto
    with yp show ?thesis by (simp add: is_double_def)
  qed
qed

subsection \<open>Trend classification\<close>

lemma fl_11_10: "fl (11 / 10) = Fin (2476979795053773 / 2251799813685248)"
  by code_simp

lemma fl_9_10: "fl (9 / 10) = Fin (8106479329266893 / 9007199254740992)"
  by code_simp

lemma good_fl: "0 \<le> x \<Longrightarrow> good (fl x)"
proof (cases "x = 0")
  case True
  then show ?thesis by (simp add: good_def fl_def is_double_def)
next
  case False
  assume "0 \<le> x"
  with False have xp: "0 < x" by simp
  from fl_pos_cases[OF xp] show ?thesis
  proof
    assume "fl x = PInf \<and> overflow_threshold \<le> of_int (round_half_even (x / 2 powi quantum x)) * 2 powi quantum x"
    then show ?thesis by (simp add: good_def)
  next
    assume a: "fl x = Fin (of_int (round_half_even (x / 2 powi quantum x)) * 2 powi quantum x) \<and>
         of_int (round_half_even (x / 2 powi quantum x)) * 2 powi quantum x < overflow_threshold"
    then have "fl x = Fin (of_int (round_half_even (x / 2 powi quantum x)) * 2 powi quantum x)" by simp
    from fl_idem[OF \<open>0 \<le> x\<close> this] a show ?thesis by (auto simp: good_def)
  qed
qed

lemma good_zero: "good (Fin 0)"
  using good_fl[of 0] by (simp add: fl_def)

lemma nonnegative_good_add:
  assumes "good a" "nonnegative b"
  shows "good (num_add a b)"
proof -
  from assms(2) consider "b = PInf" | y where "b = Fin y" "0 \<le> y"
    by (auto simp: nonnegative_def split: number.splits)
  then show ?thesis
  proof cases
    case 1
    with assms(1) show ?thesis by (auto simp: good_def num_add_def is_infinite_def)
  next
    case 2
    from assms(1) show ?thesis unfolding good_def
    proof
      assume "a = PInf"
      with 2 show "num_add a b = PInf \<or> (\<exists>y. num_add a b = Fin y \<and> 0 \<le> y \<and> is_double y)"
        by (simp add: num_add_def is_infinite_def)
    next
      assume "\<exists>y. a = Fin y \<and> 0 \<le> y \<and> is_double y"
      then obtain x where x: "a = Fin x" "0 \<le> x" by blast
      with 2 have "num_add a b = fl (x + y)" by (simp add: num_add_def is_infinite_def)
      moreover have "good (fl (x + y))" using x 2 by (intro good_fl) simp
      ultimately show "num_add a b = PInf \<or> (\<exists>y. num_add a b = Fin y \<and> 0 \<le> y \<and> is_double y)"
        by (simp add: good_def)
    qed
  qed
qed

lemma good_foldl_add:
  assumes "good a" "\<forall>x \<in> set xs. nonnegative x"
  shows "good (foldl num_add a xs)"
  using assms by (induction xs arbitrary: a) (simp_all add: nonnegative_good_add)

lemma good_div_3:
  assumes "good a"
  shows "good (num_div a (Fin 3))"
  using assms unfolding good_def
proof
  assume "a = PInf"
  then show "num_div a (Fin 3) = PInf \<or> (\<exists>y. num_div a (Fin 3) = Fin y \<and> 0 \<le> y \<and> is_double y)"
    by (simp add: num_div_def is_infinite_def signed_infinity_def)
next
  assume "\<exists>y. a = Fin y \<and> 0 \<le> y \<and> is_double y"
  then obtain x where x: "a = Fin x" "0 \<le> x" by blast
  show "num_div a (Fin 3) = PInf \<or> (\<exists>y. num_div a (Fin 3) = Fin y \<and> 0 \<le> y \<and> is_double y)"
  proof (cases "x = 0")
    case True
    with x have "num_div a (Fin 3) = Fin 0"
      by (simp add: num_div_def is_infinite_def is_zero_def signed_zero_def)
    with good_zero show ?thesis by (simp add: good_def)
  next
    case False
    with x have "num_div a (Fin 3) = fl (x / 3)"
      by (simp add: num_div_def is_infinite_def is_zero_def)
    moreover have "good (fl (x / 3))" using x by (intro good_fl) simp
    ultimately show ?thesis by (simp add: good_def)
  qed
qed

lemma classify_good_self:
  assumes "good r"
  shows "classify r r = Stable"
  using assms unfolding good_def
proof
  assume "r = PInf"
  then show ?thesis
    by (simp add: classify_def fl_11_10 fl_9_10 num_mul_def num_less_def is_infinite_def
        is_zero_def signed_infinity_def)
next
  assume "\<exists>y. r = Fin y \<and> 0 \<le> y \<and> is_double y"
  then obtain y where y: "r = Fin y" "0 \<le> y" "is_double y" by blast
  let ?u = "2476979795053773 / 2251799813685248 :: rat"
  let ?d = "8106479329266893 / 9007199254740992 :: rat"
  show ?thesis
  proof (cases "y = 0")
    case True
    with y show ?thesis
      by (simp add: classify_def fl_11_10 fl_9_10 num_mul_def num_less_def is_infinite_def
          signed_zero_def)
  next
    case False
    with y have yp: "0 < y" by simp
    have up: "num_mul r (fl (11 / 10)) = fl (y * ?u)"
      using y yp by (simp add: fl_11_10 num_mul_def is_infinite_def)
    have down: "num_mul r (fl (9 / 10)) = fl (y * ?d)"
      using y yp by (simp add: fl_9_10 num_mul_def is_infinite_def)
    have "y \<le> y * ?u" using yp by simp
    from fl_ge[OF yp y(3) this]
    have 1: "\<not> num_less (fl (y * ?u)) r"
      using y by (auto simp: num_less_def)
    have "0 < y * ?d" "y * ?d \<le> y" using yp by simp_all
    from fl_le[OF this y(3)]
    have 2: "\<not> num_less r (fl (y * ?d))"
      using y by (auto simp: num_less_def)
    from 1 2 show ?thesis by (simp add: classify_def up down)
  qed
qed

lemma calculateTrend_short: "length vs < 2 \<Longrightarrow> calculateTrend vs = Stable"
  by (simp add: calculateTrend_def)

lemma calculateTrend_long:
  assumes "6 \<le> length vs"
  shows "calculateTrend vs = classify (mean (recent3 vs)) (mean (previous3 vs))"
proof -
  from assms have r: "slice_from_end vs 3 0 = recent3 vs"
    by (simp add: slice_from_end_def recent3_def)
  from assms have p: "slice_from_end vs 6 3 = previous3 vs"
    by (simp add: slice_from_end_def previous3_def)
  from assms have lr: "length (recent3 vs) = 3" by (simp add: recent3_def)
  from assms have lp: "length (previous3 vs) = 3" by (simp add: previous3_def)
  from assms show ?thesis
    by (simp add: calculateTrend_def r p classify_def mean_def lr lp Let_def)
qed

lemma calculateTrend_constant:
  assumes "6 \<le> n" "nonnegative c"
  shows "calculateTrend (replicate n c) = Stable"
proof -
  have 1: "recent3 (replicate n c) = replicate 3 c"
    using assms by (simp add: recent3_def)
  have 2: "previous3 (replicate n c) = replicate 3 c"
    using assms by (simp add: previous3_def min_def)
  have "good (foldl num_add (Fin 0) (replicate 3 c))"
    using assms(2) by (intro good_foldl_add good_zero) simp
  then have "good (mean (replicate 3 c))"
    using good_div_3 by (simp add: mean_def)
  then have "classify (mean (replicate 3 c)) (mean (replicate 3 c)) = Stable"
    by (rule classify_good_self)
  then show ?thesis using assms by (simp add: calculateTrend_long 1 2)
qed

text \<open>
  Claim C3, as the code has it. A list of fewer than two data points is \<open>stable\<close>. For a
  list of at least six data points, oldest first, the trend is \<open>up\<close> when the mean of the
  most recent three exceeds 1.1 times the mean of the three before them, \<open>down\<close> when it is
  below 0.9 times that mean and \<open>stable\<close> otherwise, with the means and the two products
  rounded as double arithmetic rounds them. So \<open>[10,10,10,10,10,10,20,20,20]\<close> is \<open>up\<close>,
  \<open>[20,20,20,10,10,10,10,10,10]\<close> is \<open>stable\<close> (its last six points are equal),
  \<open>[16,16,18,15,15,15]\<close> is \<open>down\<close> (the rounded product of 50/3 and 0.9 exceeds 15), and a
  constant list of at least six points that are not negative is \<open>stable\<close>.
\<close>

theorem calculateTrend_classification:
  "(length vs < 2 \<longrightarrow> calculateTrend vs = Stable) \<and>
   (6 \<le> length vs \<longrightarrow>
      calculateTrend vs = classify (mean (recent3 vs)) (mean (previous3 vs))) \<and>
   calculateTrend (map Fin [10, 10, 10, 10, 10, 10, 20, 20, 20]) = Up \<and>
   calculateTrend (map Fin [20, 20, 20, 10, 10, 10, 10, 10, 10]) = Stable \<and>
   calculateTrend (map Fin [16, 16, 18, 15, 15, 15]) = Down \<and>
   (6 \<le> n \<and> nonnegative c \<longrightarrow> calculateTrend (replicate n c) = Stable)"
proof (intro conjI impI)
  assume "length vs < 2"
  then show "calculateTrend vs = Stable" by (rule calculateTrend_short)
next
  assume "6 \<le> length vs"
  then show "calculateTrend vs = classify (mean (recent3 vs)) (mean (previous3 vs))"
    by (rule calculateTrend_long)
next
  show "calculateTrend (map Fin [10, 10, 10, 10, 10, 10, 20, 20, 20]) = Up"
    by code_simp
next
  show "calculateTrend (map Fin [20, 20, 20, 10, 10, 10, 10, 10, 10]) = Stable"
    by code_simp
next
  show "calculateTrend (map Fin [16, 16, 18, 15, 15, 15]) = Down"
    by code_simp
next
  assume "6 \<le> n \<and> nonnegative c"
  then show "calculateTrend (replicate n c) = Stable"
    by (simp add: calculateTrend_constant)
qed

text \<open>C3 at a single point, at seven points that fall by a third, and at seven equal
  points.\<close>

theorem calculateTrend_classification_witness:
  "calculateTrend [Fin 5] = Stable \<and>
   calculateTrend (map Fin [3, 30, 30, 30, 20, 20, 20]) = Down \<and>
   calculateTrend (replicate 7 (Fin 4)) = Stable"
proof -
  have a: "length [Fin 5] < 2" by simp
  have b: "6 \<le> length (map Fin [3, 30, 30, 30, 20, 20, 20])" by simp
  have c: "6 \<le> (7 :: nat) \<and> nonnegative (Fin 4)" by (simp add: nonnegative_def)
  have d: "classify (mean (recent3 (map Fin [3, 30, 30, 30, 20, 20, 20])))
             (mean (previous3 (map Fin [3, 30, 30, 30, 20, 20, 20]))) = Down"
    by code_simp
  note t = calculateTrend_classification
  show ?thesis
    using t[THEN conjunct1, THEN mp, OF a]
      t[THEN conjunct2, THEN conjunct1, THEN mp, OF b]
      t[THEN conjunct2, THEN conjunct2, THEN conjunct2, THEN conjunct2, THEN conjunct2, THEN mp, OF c]
    by (simp only: d simp_thms)
qed

text \<open>
  C3 as the spec states it fails twice: \<open>[20,20,20,10,10,10,10,10,10]\<close> is \<open>stable\<close>, not
  \<open>down\<close>, because only the last six points are compared; and the constant list \<open>[5,5]\<close>
  is \<open>up\<close>, because both sums are divided by three however many points they have.
\<close>

theorem calculateTrend_counterexample:
  "calculateTrend (map Fin [20, 20, 20, 10, 10, 10, 10, 10, 10]) \<noteq> Down \<and>
   calculateTrend [Fin 5, Fin 5] = Up"
  by code_simp

subsection \<open>Store calls, exceptions and frames\<close>

lemma bindE_InrD:
  assumes "bindE m f w = (Inr y, w'')"
  obtains x w' where "m w = (Inr x, w')" "f x w' = (Inr y, w'')"
  using assms by (auto simp: bindE_def split: prod.splits sum.splits)

lemma tryCatch_rethrow_InrD:
  "tryCatch m (\<lambda>e. throwE e') w = (Inr y, w') \<Longrightarrow> m w = (Inr y, w')"
  by (auto simp: tryCatch_def throwE_def split: prod.splits sum.splits)

lemma store_call_InrD:
  assumes "store_call f w = (Inr x, w')"
  obtains w1 where "f w1 = (x, w')" "entries w1 = entries w" "clock w1 = clock w"
    "tick w1 = tick w"
  using assms
  by (auto simp: store_call_def split: list.splits prod.splits if_splits)

lemma store_call_InlD:
  assumes "store_call f w = (Inl e, w')"
  shows "e = StoreError \<and> entries w' = entries w \<and> clock w' = clock w \<and> tick w' = tick w"
  using assms
  by (auto simp: store_call_def split: list.splits prod.splits if_splits)

lemma kv_get_InrD:
  assumes "kv_get k w = (Inr d, w')"
  shows "d = map_of (entries w) k \<and> entries w' = entries w \<and> clock w' = clock w \<and>
         tick w' = tick w"
  using assms unfolding kv_get_def by (elim store_call_InrD) auto

lemma kv_get_InlD:
  assumes "kv_get k w = (Inl e, w')"
  shows "entries w' = entries w \<and> clock w' = clock w \<and> tick w' = tick w"
  using assms unfolding kv_get_def by (auto dest: store_call_InlD)

lemma kv_set_InrD:
  assumes "kv_set k v w = (Inr x, w')"
  shows "entries w' = AList.update k v (entries w) \<and> clock w' = clock w \<and> tick w' = tick w"
  using assms unfolding kv_set_def by (elim store_call_InrD) auto

lemma kv_set_InlD:
  assumes "kv_set k v w = (Inl e, w')"
  shows "entries w' = entries w \<and> clock w' = clock w \<and> tick w' = tick w"
  using assms unfolding kv_set_def by (auto dest: store_call_InlD)

lemma kv_getByPrefix_InrD:
  assumes "kv_getByPrefix pre w = (Inr ds, w')"
  shows "ds = map snd (filter (\<lambda>kv. prefix pre (fst kv)) (entries w)) \<and>
         entries w' = entries w \<and> clock w' = clock w \<and> tick w' = tick w"
  using assms unfolding kv_getByPrefix_def by (elim store_call_InrD) auto

lemma store_call_no_faults:
  "faults w = [] \<Longrightarrow> store_call f w = (Inr (fst (f w)), snd (f w))"
  by (simp add: store_call_def split: prod.splits)

lemma map_of_update_same: "map_of (AList.update k v al) k = Some v"
  by (simp add: update_conv')

lemma map_of_update_other: "k' \<noteq> k \<Longrightarrow> map_of (AList.update k v al) k' = map_of al k'"
  by (simp add: update_conv')

lemma not_isl_Inr: "\<not> isl x \<Longrightarrow> \<exists>y. x = Inr y"
  by (cases x) simp_all

lemma framesD:
  "frames K m \<Longrightarrow> m w = (r, w') \<Longrightarrow> k \<notin> K \<Longrightarrow> map_of (entries w') k = map_of (entries w) k"
  unfolding frames_def by blast

lemma frames_returnE: "frames K (returnE x)"
  by (simp add: frames_def returnE_def)

lemma frames_throwE: "frames K (throwE e)"
  by (simp add: frames_def throwE_def)

lemma frames_liftE: "frames K (liftE r)"
  by (simp add: frames_def liftE_def)

lemma frames_now: "frames K now"
  by (auto simp: frames_def now_def)

lemma frames_kv_get: "frames K (kv_get key)"
  unfolding frames_def
proof (intro allI impI)
  fix w r w' k assume "kv_get key w = (r, w')"
  then have "entries w' = entries w"
    using kv_get_InrD kv_get_InlD by (cases r) blast+
  then show "map_of (entries w') k = map_of (entries w) k" by simp
qed

lemma frames_kv_set: "key \<in> K \<Longrightarrow> frames K (kv_set key v)"
  unfolding frames_def
proof (intro allI impI)
  fix w r w' k assume key: "key \<in> K" and s: "kv_set key v w = (r, w')" and k: "k \<notin> K"
  show "map_of (entries w') k = map_of (entries w) k"
  proof (cases r)
    case (Inl e)
    with s show ?thesis using kv_set_InlD by metis
  next
    case (Inr x)
    with s have "entries w' = AList.update key v (entries w)" using kv_set_InrD by blast
    moreover from key k have "k \<noteq> key" by blast
    ultimately show ?thesis by (simp add: map_of_update_other)
  qed
qed

lemma frames_bindE:
  assumes "frames K m" "\<And>x. frames K (f x)"
  shows "frames K (bindE m f)"
  unfolding frames_def
proof (intro allI impI)
  fix w r w' k assume b: "bindE m f w = (r, w')" and k: "k \<notin> K"
  obtain r1 w1 where m: "m w = (r1, w1)" by (cases "m w")
  from assms(1) m k have 1: "map_of (entries w1) k = map_of (entries w) k" by (rule framesD)
  show "map_of (entries w') k = map_of (entries w) k"
  proof (cases r1)
    case (Inl e)
    with b m have "w' = w1" by (simp add: bindE_def)
    with 1 show ?thesis by simp
  next
    case (Inr x)
    with b m have fx: "f x w1 = (r, w')" by (simp add: bindE_def)
    have "map_of (entries w') k = map_of (entries w1) k" by (rule framesD[OF assms(2) fx k])
    with 1 show ?thesis by simp
  qed
qed

lemma frames_tryCatch:
  assumes "frames K m" "\<And>e. frames K (h e)"
  shows "frames K (tryCatch m h)"
  unfolding frames_def
proof (intro allI impI)
  fix w r w' k assume b: "tryCatch m h w = (r, w')" and k: "k \<notin> K"
  obtain r1 w1 where m: "m w = (r1, w1)" by (cases "m w")
  from assms(1) m k have 1: "map_of (entries w1) k = map_of (entries w) k" by (rule framesD)
  show "map_of (entries w') k = map_of (entries w) k"
  proof (cases r1)
    case (Inr x)
    with b m have "w' = w1" by (simp add: tryCatch_def)
    with 1 show ?thesis by simp
  next
    case (Inl e)
    with b m have he: "h e w1 = (r, w')" by (simp add: tryCatch_def)
    have "map_of (entries w') k = map_of (entries w1) k" by (rule framesD[OF assms(2) he k])
    with 1 show ?thesis by simp
  qed
qed

lemmas frames_intros = frames_returnE frames_throwE frames_liftE frames_now frames_kv_get
  frames_kv_set frames_bindE frames_tryCatch

lemma bindE_InlD:
  assumes "bindE m f w = (Inl e, w'')"
  shows "m w = (Inl e, w'') \<or> (\<exists>x w'. m w = (Inr x, w') \<and> f x w' = (Inl e, w''))"
  using assms by (auto simp: bindE_def split: prod.splits sum.splits)

lemma tryCatch_rethrow_InlD:
  "tryCatch m (\<lambda>e. throwE e') w = (Inl e, w') \<Longrightarrow> e = e' \<and> (\<exists>e0. m w = (Inl e0, w'))"
  by (auto simp: tryCatch_def throwE_def split: prod.splits sum.splits)

lemma tryCatch_swallow:
  "tryCatch m (\<lambda>e. returnE x) w = (r, w') \<Longrightarrow> (\<exists>y. r = Inr y)"
  by (auto simp: tryCatch_def returnE_def split: prod.splits sum.splits)

lemma now_D: "now w = (r, w') \<Longrightarrow> r = Inr (clock w (tick w)) \<and> entries w' = entries w \<and>
    clock w' = clock w \<and> tick w' = Suc (tick w) \<and> faults w' = faults w"
  by (auto simp: now_def)

lemma liftE_D: "liftE x w = (r, w') \<Longrightarrow> r = x \<and> w' = w"
  by (simp add: liftE_def)

lemma kv_set_D:
  assumes "kv_set k v w = (r, w')"
  shows "(r = Inr () \<and> entries w' = AList.update k v (entries w) \<or>
          r = Inl StoreError \<and> entries w' = entries w) \<and>
         clock w' = clock w \<and> tick w' = tick w"
proof (cases r)
  case (Inl e)
  with assms show ?thesis
    unfolding kv_set_def using store_call_InlD by fastforce
next
  case (Inr x)
  with assms show ?thesis using kv_set_InrD by fastforce
qed

subsection \<open>Project and task store\<close>

lemma set_insert_sorted: "set (insert_sorted cmp x xs) = insert x (set xs)"
  by (induction xs) auto

lemma set_js_sort: "set (js_sort cmp xs) = set xs"
  by (induction xs) (simp_all add: js_sort_def set_insert_sorted)

lemma project_key_not_analytics:
  "projectKey u pid \<noteq> ''user:'' @ u @ '':project_analytics:'' @ pid'"
  by (simp add: projectKey_def)

lemma project_key_not_task: "projectKey u pid \<noteq> taskKey u tid"
  by (simp add: projectKey_def taskKey_def)

lemma getProjectById_D:
  assumes "getProjectById u pid w = (r, w')"
  shows "entries w' = entries w \<and> clock w' = clock w \<and> tick w' = tick w \<and>
         (r = Inr None \<or> r = Inr (map_of (entries w) (projectKey u pid)))"
proof -
  obtain r1 w1 where g: "kv_get (projectKey u pid) w = (r1, w1)"
    by (cases "kv_get (projectKey u pid) w")
  show ?thesis
  proof (cases r1)
    case (Inl e)
    with g assms have "r = Inr None" "w' = w1"
      by (auto simp: getProjectById_def tryCatch_def bindE_def returnE_def)
    with g Inl show ?thesis using kv_get_InlD by blast
  next
    case (Inr d)
    with g assms have "r = Inr d" "w' = w1"
      by (auto simp: getProjectById_def tryCatch_def bindE_def returnE_def)
    with g Inr show ?thesis using kv_get_InrD by blast
  qed
qed

lemma getProjectById_SomeD:
  assumes "getProjectById u pid w = (Inr (Some p), w')"
  shows "map_of (entries w) (projectKey u pid) = Some p \<and> entries w' = entries w \<and>
         clock w' = clock w \<and> tick w' = tick w"
  using getProjectById_D[OF assms] by auto

lemma frames_getProjectById: "frames K (getProjectById u pid)"
  unfolding getProjectById_def by (intro frames_intros)

lemma getProjectById_answered:
  assumes "answers 1 w"
  shows "fst (getProjectById u pid w) = Inr (map_of (entries w) (projectKey u pid))"
  using assms
  by (auto simp: getProjectById_def tryCatch_def bindE_def returnE_def kv_get_def
      store_call_def answers_def split: list.splits)

lemma getUserProjects_lists:
  assumes st: "map_of (entries w) (projectKey u pid) = Some p"
      and g: "getUserProjects pf u w = (Inr ps, w')"
  shows "p \<in> set ps"
proof -
  let ?pre = "''user:'' @ u @ '':project:''"
  from g have "bindE (kv_getByPrefix ?pre) (\<lambda>docs.
        returnE (js_sort (newest_first pf) docs)) w = (Inr ps, w')"
    unfolding getUserProjects_def by (rule tryCatch_rethrow_InrD)
  then obtain ds w1 where k: "kv_getByPrefix ?pre w = (Inr ds, w1)"
    and r: "returnE (js_sort (newest_first pf) ds) w1 = (Inr ps, w')"
    by (rule bindE_InrD)
  from k have ds: "ds = map snd (filter (\<lambda>kv. prefix ?pre (fst kv)) (entries w))"
    using kv_getByPrefix_InrD by blast
  from st have "(projectKey u pid, p) \<in> set (entries w)" by (rule map_of_SomeD)
  moreover have "prefix ?pre (projectKey u pid)" by (simp add: projectKey_def)
  ultimately have "p \<in> set ds" unfolding ds by force
  with r show ?thesis by (auto simp: returnE_def set_js_sort)
qed

lemma getUserProjects_answered:
  assumes "answers 1 w"
  shows "\<exists>ps. fst (getUserProjects pf u w) = Inr ps"
  using assms
  by (auto simp: getUserProjects_def tryCatch_def bindE_def returnE_def kv_getByPrefix_def
      store_call_def answers_def split: list.splits)

lemma deleteProject_D:
  assumes st: "map_of (entries w) (projectKey u pid) = Some p"
      and d: "deleteProject u pid w = (r, w')"
  shows "(r = Inr True \<and> answers 2 w \<and>
          entries w' = AList.update (projectKey u pid) (archived p (clock w (tick w))) (entries w) \<and>
          faults w' = drop 2 (faults w)) \<or>
         (r = Inr False \<and> \<not> answers 2 w \<and> entries w' = entries w)"
proof (cases "faults w")
  case Nil
  with st d show ?thesis
    by (auto simp: deleteProject_def getProjectById_def tryCatch_def bindE_def returnE_def
        kv_get_def kv_set_def store_call_def now_def answers_def)
next
  case (Cons f1 rest)
  show ?thesis
  proof (cases rest)
    case Nil
    with Cons st d show ?thesis
      by (auto simp: deleteProject_def getProjectById_def tryCatch_def bindE_def returnE_def
          kv_get_def kv_set_def store_call_def now_def answers_def split: if_splits)
  next
    case (Cons f2 rest2)
    with \<open>faults w = f1 # rest\<close> st d show ?thesis
      by (auto simp: deleteProject_def getProjectById_def tryCatch_def bindE_def returnE_def
          kv_get_def kv_set_def store_call_def now_def answers_def split: if_splits)
  qed
qed

lemma archived_props:
  "map_of (archived p t) ''status'' = Some (JStr ''archived'') \<and>
   map_of (archived p t) ''updated'' = Some (JStr t) \<and>
   (\<forall>name. name \<noteq> ''status'' \<and> name \<noteq> ''updated'' \<longrightarrow>
      map_of (archived p t) name = map_of p name)"
  by (simp add: archived_def update_conv')

lemma member_InrD: "member v name = Inr x \<Longrightarrow> x = field_of v name \<and> v \<noteq> JNull"
  using member_cases[of v name] by auto

lemma member_Some_obj:
  "member v name = Inr (Some x) \<Longrightarrow> \<exists>kvs. v = JObj kvs \<and> map_of kvs name = Some x"
  by (cases v) simp_all

lemma bindS_InrD:
  assumes "bindS m f = Inr y"
  obtains x where "m = Inr x" "f x = Inr y"
  using assms by (auto simp: bindS_def split: sum.splits)

lemma frames_updateProjectAnalytics:
  "frames {''user:'' @ u @ '':project_analytics:'' @ pid} (updateProjectAnalytics u pid a)"
  unfolding updateProjectAnalytics_def Let_def
  by (intro frames_intros)
     (auto split: option.splits json.splits intro!: frames_intros)

lemma updateProjectAnalytics_D:
  assumes "updateProjectAnalytics u pid a w = (r, w')"
  shows "r = Inr () \<and>
         (\<forall>k. k \<noteq> ''user:'' @ u @ '':project_analytics:'' @ pid \<longrightarrow>
            map_of (entries w') k = map_of (entries w) k)"
proof -
  from assms have "\<exists>y. r = Inr y"
    unfolding updateProjectAnalytics_def by (rule tryCatch_swallow)
  moreover have "map_of (entries w') k = map_of (entries w) k"
    if "k \<noteq> ''user:'' @ u @ '':project_analytics:'' @ pid" for k
    using framesD[OF frames_updateProjectAnalytics assms] that by simp
  ultimately show ?thesis by auto
qed

text \<open>What \<open>updateProject\<close> does, whatever it returns.\<close>

lemma updateProject_D:
  assumes "updateProject u pid ups w = (r, w')"
  shows "(\<exists>existing p'.
            map_of (entries w) (projectKey u pid) = Some existing \<and>
            recalculated ups (updated_project existing u pid ups (clock w (tick w))) = Inr p' \<and>
            r = Inr p' \<and>
            map_of (entries w') (projectKey u pid) = Some p' \<and>
            (\<forall>k. k \<noteq> projectKey u pid \<and> k \<noteq> ''user:'' @ u @ '':project_analytics:'' @ pid \<longrightarrow>
               map_of (entries w') k = map_of (entries w) k)) \<or>
         (r = Inl (Failure ''Failed to update project'') \<and> entries w' = entries w)"
proof -
  let ?key = "projectKey u pid"
  let ?akey = "''user:'' @ u @ '':project_analytics:'' @ pid"
  obtain r1 w1 where g: "kv_get ?key w = (r1, w1)" by (cases "kv_get ?key w")
  show ?thesis
  proof (cases r1)
    case (Inl e)
    with g assms have "r = Inl (Failure ''Failed to update project'')" "w' = w1"
      by (auto simp: updateProject_def tryCatch_def bindE_def throwE_def)
    moreover from g Inl have "entries w1 = entries w" using kv_get_InlD by blast
    ultimately show ?thesis by simp
  next
    case (Inr d)
    with g have d: "d = map_of (entries w) ?key" and e1: "entries w1 = entries w"
      and c1: "clock w1 = clock w" "tick w1 = tick w"
      using kv_get_InrD by blast+
    show ?thesis
    proof (cases d)
      case None
      with g Inr assms have "r = Inl (Failure ''Failed to update project'')" "w' = w1"
        by (auto simp: updateProject_def tryCatch_def bindE_def throwE_def)
      with e1 show ?thesis by simp
    next
      case (Some existing)
      let ?t = "clock w (tick w)"
      obtain w2 where n: "now w1 = (Inr ?t, w2)" and e2: "entries w2 = entries w1"
        using c1 by (simp add: now_def)
      let ?rc = "recalculated ups (updated_project existing u pid ups ?t)"
      show ?thesis
      proof (cases ?rc)
        case (Inl e)
        with g \<open>r1 = Inr d\<close> Some n assms
        have "r = Inl (Failure ''Failed to update project'')" "w' = w2"
          by (auto simp: updateProject_def tryCatch_def bindE_def throwE_def liftE_def)
        with e1 e2 show ?thesis by simp
      next
        case rc: (Inr p')
        obtain r3 w3 where s: "kv_set ?key p' w2 = (r3, w3)" by (cases "kv_set ?key p' w2")
        from kv_set_D[OF s]
        have sd: "r3 = Inr () \<and> entries w3 = AList.update ?key p' (entries w2) \<or>
                  r3 = Inl StoreError \<and> entries w3 = entries w2" by simp
        then show ?thesis
        proof
          assume f: "r3 = Inl StoreError \<and> entries w3 = entries w2"
          with g \<open>r1 = Inr d\<close> Some n rc s assms
          have "r = Inl (Failure ''Failed to update project'')" "w' = w3"
            by (auto simp: updateProject_def tryCatch_def bindE_def throwE_def liftE_def)
          with f e1 e2 show ?thesis by simp
        next
          assume ok: "r3 = Inr () \<and> entries w3 = AList.update ?key p' (entries w2)"
          obtain r4 w4 where a: "updateProjectAnalytics u pid ''updated'' w3 = (r4, w4)"
            by (cases "updateProjectAnalytics u pid ''updated'' w3")
          from updateProjectAnalytics_D[OF a]
          have r4: "r4 = Inr ()"
            and fr: "\<And>k. k \<noteq> ?akey \<Longrightarrow> map_of (entries w4) k = map_of (entries w3) k"
            by auto
          from g \<open>r1 = Inr d\<close> Some n rc s ok a r4 assms
          have res: "r = Inr p'" "w' = w4"
            by (auto simp: updateProject_def tryCatch_def bindE_def throwE_def liftE_def
                returnE_def)
          have st: "map_of (entries w') ?key = Some p'"
            using fr[OF project_key_not_analytics] ok res by (simp add: update_conv')
          have other: "map_of (entries w') k = map_of (entries w) k"
            if "k \<noteq> ?key \<and> k \<noteq> ?akey" for k
            using fr[of k] that ok res e1 e2 by (simp add: update_conv')
          from Some d have "map_of (entries w) ?key = Some existing" by simp
          with rc res st other show ?thesis by blast
        qed
      qed
    qed
  qed
qed

lemma updated_project_props:
  "map_of (updated_project ex u pid ups t) ''id'' = Some (JStr pid) \<and>
   map_of (updated_project ex u pid ups t) ''userId'' = Some (JStr u) \<and>
   map_of (updated_project ex u pid ups t) ''updated'' = Some (JStr t) \<and>
   (\<forall>name. name \<noteq> ''id'' \<and> name \<noteq> ''userId'' \<and> name \<noteq> ''updated'' \<longrightarrow>
      map_of (updated_project ex u pid ups t) name = overlaid ex ups name)"
  by (auto simp: updated_project_def update_conv' spread_def merge_conv' overlaid_def map_add_def
      split: option.splits)

lemma updated_task_props:
  "map_of (updated_task old tid pid ups t) ''id'' = Some (JStr tid) \<and>
   map_of (updated_task old tid pid ups t) ''projectId'' = Some (JStr pid) \<and>
   map_of (updated_task old tid pid ups t) ''updated'' = Some (JStr t) \<and>
   (\<forall>name. name \<noteq> ''id'' \<and> name \<noteq> ''projectId'' \<and> name \<noteq> ''updated'' \<longrightarrow>
      map_of (updated_task old tid pid ups t) name = overlaid (own_props old) ups name)"
  by (auto simp: updated_task_def update_conv' spread_def merge_conv' overlaid_def map_add_def
      split: option.splits)

lemma field_of_own_props: "field_of v name = Some x \<Longrightarrow> map_of (own_props v) name = Some x"
  by (cases v) (simp_all add: field_of_def own_props_def)

lemma recalculated_D:
  assumes "recalculated ups upd = Inr p'"
  shows "ups \<noteq> JNull \<and>
         (if replaces_tasks ups
          then \<exists>j. calculateProgress (map_of upd ''tasks'') = Inr j \<and>
                   p' = AList.update ''progress'' j upd
          else p' = upd)"
proof -
  from assms obtain x where m: "member ups ''tasks'' = Inr x"
    and r: "(if (case x of None \<Rightarrow> False | Some v \<Rightarrow> truthy v)
             then bindS (calculateProgress (map_of upd ''tasks'')) (\<lambda>p.
                    Inr (AList.update ''progress'' p upd))
             else Inr upd) = Inr p'"
    unfolding recalculated_def by (rule bindS_InrD)
  from member_InrD[OF m] have x: "x = field_of ups ''tasks''" and nn: "ups \<noteq> JNull" by simp_all
  show ?thesis
  proof (cases "replaces_tasks ups")
    case True
    with x r have "bindS (calculateProgress (map_of upd ''tasks'')) (\<lambda>p.
                    Inr (AList.update ''progress'' p upd)) = Inr p'"
      by (simp add: replaces_tasks_def)
    then obtain j where "calculateProgress (map_of upd ''tasks'') = Inr j"
      "Inr (AList.update ''progress'' j upd) = (Inr p' :: error + obj)"
      by (rule bindS_InrD)
    with True nn show ?thesis by auto
  next
    case False
    with x r nn show ?thesis by (simp add: replaces_tasks_def)
  qed
qed

lemma project_literal_D:
  assumes "project_literal pid u t pd = Inr p"
  shows "map_of p ''id'' = Some (JStr pid) \<and> map_of p ''userId'' = Some (JStr u) \<and>
         map_of p ''tasks'' = Some (JArr []) \<and> map_of p ''progress'' = Some (JNum 0)"
  using assms unfolding project_literal_def
  by (elim bindS_InrD) auto

lemma createProject_success:
  assumes "createProject stamp u pd w = (Inr p, w')"
  shows "project_literal (''project-'' @ stamp) u (clock w (tick w)) pd = Inr p \<and>
         map_of (entries w') (projectKey u (''project-'' @ stamp)) = Some p"
proof -
  let ?pid = "''project-'' @ stamp"
  let ?rest = "\<lambda>t. bindE (liftE (project_literal ?pid u t pd)) (\<lambda>project.
           bindE (kv_set (projectKey u ?pid) project) (\<lambda>_.
           bindE (updateProjectAnalytics u ?pid ''created'') (\<lambda>_.
           returnE project)))"
  from assms have "bindE now ?rest w = (Inr p, w')"
    unfolding createProject_def Let_def by (rule tryCatch_rethrow_InrD)
  then obtain t w1 where n: "now w = (Inr t, w1)" and r1: "?rest t w1 = (Inr p, w')"
    by (rule bindE_InrD)
  from n have t: "t = clock w (tick w)" by (auto simp: now_def)
  from r1 obtain q w2 where l: "liftE (project_literal ?pid u t pd) w1 = (Inr q, w2)"
    and r2: "bindE (kv_set (projectKey u ?pid) q) (\<lambda>_.
           bindE (updateProjectAnalytics u ?pid ''created'') (\<lambda>_.
           returnE q)) w2 = (Inr p, w')"
    by (rule bindE_InrD)
  from l have lit: "project_literal ?pid u t pd = Inr q" by (simp add: liftE_def)
  from r2 obtain x w3 where s: "kv_set (projectKey u ?pid) q w2 = (Inr x, w3)"
    and r3: "bindE (updateProjectAnalytics u ?pid ''created'') (\<lambda>_. returnE q) w3 = (Inr p, w')"
    by (rule bindE_InrD)
  from r3 obtain y w4 where a: "updateProjectAnalytics u ?pid ''created'' w3 = (Inr y, w4)"
    and r4: "returnE q w4 = (Inr p, w')"
    by (rule bindE_InrD)
  from r4 have pp: "p = q" and ww: "w' = w4" by (auto simp: returnE_def)
  from s have "entries w3 = AList.update (projectKey u ?pid) q (entries w2)"
    using kv_set_InrD by blast
  moreover have "map_of (entries w4) (projectKey u ?pid) = map_of (entries w3) (projectKey u ?pid)"
    using updateProjectAnalytics_D[OF a] project_key_not_analytics by blast
  ultimately have "map_of (entries w') (projectKey u ?pid) = Some p"
    by (simp add: ww pp update_conv')
  with lit t pp show ?thesis by simp
qed

lemma findIndexE_SomeD:
  "findIndexE p xs = Inr (Some i) \<Longrightarrow> i < length xs \<and> p (xs ! i) = Inr True"
proof (induction xs arbitrary: i)
  case Nil
  then show ?case by simp
next
  case (Cons x xs)
  from Cons.prems obtain found where f: "p x = Inr found"
    and r: "(if found then Inr (Some 0)
             else bindS (findIndexE p xs) (\<lambda>r. Inr (map_option Suc r))) = Inr (Some i)"
    by (auto elim: bindS_InrD)
  show ?case
  proof (cases found)
    case True
    with f r show ?thesis by simp
  next
    case False
    with r obtain r' where "findIndexE p xs = Inr r'" "map_option Suc r' = Some i"
      by (auto elim: bindS_InrD)
    then obtain j where "findIndexE p xs = Inr (Some j)" "i = Suc j" by auto
    with Cons.IH[of j] show ?thesis by simp
  qed
qed

lemma has_id_TrueD:
  "has_id tid t = Inr True \<Longrightarrow> \<exists>kvs. t = JObj kvs \<and> map_of kvs ''id'' = Some (JStr tid)"
  unfolding has_id_def by (cases t) (auto simp: bindS_def)

lemma tasks_array_D: "tasks_array project = Inr xs \<Longrightarrow> map_of project ''tasks'' = Some (JArr xs)"
  by (auto simp: tasks_array_def split: option.splits json.splits)

text \<open>The test that guards the call of \<open>recordActivity\<close> in \<open>updateTask\<close> is never true:
  the task it reads is the updated one, whose status is the status of the updates.\<close>

lemma updateTask_guard:
  "completes ups (JObj (updated_task old tid pid ups t)) \<noteq> Inr True"
proof (cases "member ups ''status'' = Inr (Some (JStr ''completed''))")
  case True
  then obtain kvs where "ups = JObj kvs" "map_of kvs ''status'' = Some (JStr ''completed'')"
    using member_Some_obj by blast
  then have "map_of (updated_task old tid pid ups t) ''status'' = Some (JStr ''completed'')"
    using updated_task_props[of old tid pid ups t]
    by (simp add: overlaid_def own_props_def)
  with True show ?thesis by (simp add: completes_def bindS_def)
next
  case False
  then show ?thesis by (auto simp: completes_def bindS_def split: sum.splits)
qed

lemma task_literal_D:
  assumes "task_literal tid pid t td = Inr q"
  shows "map_of q ''id'' = Some (JStr tid) \<and> map_of q ''projectId'' = Some (JStr pid)"
  using assms unfolding task_literal_def
  by (elim bindS_InrD) auto

lemma createTask_success:
  assumes "createTask stamp u pid td w = (Inr t, w')"
  obtains project xs p where
    "map_of (entries w) (projectKey u pid) = Some project"
    "tasks_array project = Inr xs"
    "task_literal (''task-'' @ stamp) pid (clock w (tick w)) td = Inr t"
    "calculateProgress (Some (JArr (xs @ [JObj t]))) = Inr p"
    "map_of (entries w') (projectKey u pid) =
       Some (AList.update ''updated'' (JStr (clock w (tick w)))
               (AList.update ''progress'' p
                  (AList.update ''tasks'' (JArr (xs @ [JObj t])) project)))"
    "map_of (entries w') (taskKey u (''task-'' @ stamp)) = Some t"
proof -
  let ?tid = "''task-'' @ stamp"
  let ?pr = "\<lambda>project xs q p tm. AList.update ''updated'' (JStr tm)
                                   (AList.update ''progress'' p
                                      (AList.update ''tasks'' (JArr (xs @ [JObj q])) project))"
  let ?rest = "\<lambda>found. case found of
          None \<Rightarrow> throwE (NotFound ''Project not found'')
        | Some project \<Rightarrow>
            bindE now (\<lambda>tm.
               bindE (liftE (task_literal ?tid pid tm td)) (\<lambda>newTask.
               bindE (liftE (tasks_array project)) (\<lambda>xs.
               bindE (liftE (calculateProgress (Some (JArr (xs @ [JObj newTask]))))) (\<lambda>p.
                  bindE (kv_set (projectKey u pid) (?pr project xs newTask p tm)) (\<lambda>_.
                     bindE (kv_set (taskKey u ?tid) newTask) (\<lambda>_.
                     returnE newTask))))))"
  from assms have "bindE (getProjectById u pid) ?rest w = (Inr t, w')"
    unfolding createTask_def Let_def by (rule tryCatch_rethrow_InrD)
  then obtain found w1 where g: "getProjectById u pid w = (Inr found, w1)"
    and r1: "?rest found w1 = (Inr t, w')"
    by (rule bindE_InrD)
  from r1 obtain project where f: "found = Some project"
    by (cases found) (auto simp: throwE_def)
  from g f have st: "map_of (entries w) (projectKey u pid) = Some project"
    and c1: "clock w1 = clock w" "tick w1 = tick w"
    using getProjectById_SomeD by blast+
  let ?tm = "clock w (tick w)"
  obtain w2 where n: "now w1 = (Inr ?tm, w2)"
    using c1 by (simp add: now_def)
  from r1 f n have r2: "bindE (liftE (task_literal ?tid pid ?tm td)) (\<lambda>newTask.
               bindE (liftE (tasks_array project)) (\<lambda>xs.
               bindE (liftE (calculateProgress (Some (JArr (xs @ [JObj newTask]))))) (\<lambda>p.
                  bindE (kv_set (projectKey u pid) (?pr project xs newTask p ?tm)) (\<lambda>_.
                     bindE (kv_set (taskKey u ?tid) newTask) (\<lambda>_.
                     returnE newTask))))) w2 = (Inr t, w')"
    by (simp add: bindE_def)
  then obtain q wa where l1: "liftE (task_literal ?tid pid ?tm td) w2 = (Inr q, wa)"
    and r3: "bindE (liftE (tasks_array project)) (\<lambda>xs.
               bindE (liftE (calculateProgress (Some (JArr (xs @ [JObj q]))))) (\<lambda>p.
                  bindE (kv_set (projectKey u pid) (?pr project xs q p ?tm)) (\<lambda>_.
                     bindE (kv_set (taskKey u ?tid) q) (\<lambda>_.
                     returnE q)))) wa = (Inr t, w')"
    by (rule bindE_InrD)
  from r3 obtain xs wb where l2: "liftE (tasks_array project) wa = (Inr xs, wb)"
    and r4: "bindE (liftE (calculateProgress (Some (JArr (xs @ [JObj q]))))) (\<lambda>p.
                  bindE (kv_set (projectKey u pid) (?pr project xs q p ?tm)) (\<lambda>_.
                     bindE (kv_set (taskKey u ?tid) q) (\<lambda>_.
                     returnE q))) wb = (Inr t, w')"
    by (rule bindE_InrD)
  from r4 obtain p wc where l3: "liftE (calculateProgress (Some (JArr (xs @ [JObj q])))) wb = (Inr p, wc)"
    and r5: "bindE (kv_set (projectKey u pid) (?pr project xs q p ?tm)) (\<lambda>_.
                     bindE (kv_set (taskKey u ?tid) q) (\<lambda>_.
                     returnE q)) wc = (Inr t, w')"
    by (rule bindE_InrD)
  from r5 obtain x w3 where s1: "kv_set (projectKey u pid) (?pr project xs q p ?tm) wc = (Inr x, w3)"
    and r6: "bindE (kv_set (taskKey u ?tid) q) (\<lambda>_. returnE q) w3 = (Inr t, w')"
    by (rule bindE_InrD)
  from r6 obtain y w4 where s2: "kv_set (taskKey u ?tid) q w3 = (Inr y, w4)"
    and r7: "returnE q w4 = (Inr t, w')"
    by (rule bindE_InrD)
  from r7 have tt: "t = q" and ww: "w' = w4" by (auto simp: returnE_def)
  from l1 have a: "task_literal ?tid pid ?tm td = Inr t" by (simp add: liftE_def tt)
  from l2 have b: "tasks_array project = Inr xs" by (simp add: liftE_def)
  from l3 have c: "calculateProgress (Some (JArr (xs @ [JObj t]))) = Inr p"
    by (simp add: liftE_def tt)
  from s1 have "entries w3 = AList.update (projectKey u pid) (?pr project xs q p ?tm) (entries wc)"
    using kv_set_InrD by blast
  then have "map_of (entries w3) (projectKey u pid) = Some (?pr project xs q p ?tm)"
    by (simp only: map_of_update_same)
  moreover from s2 have e4: "entries w4 = AList.update (taskKey u ?tid) q (entries w3)"
    using kv_set_InrD by blast
  then have "map_of (entries w4) (projectKey u pid) = map_of (entries w3) (projectKey u pid)"
    by (simp only: map_of_update_other[OF project_key_not_task])
  ultimately have d: "map_of (entries w') (projectKey u pid) = Some (?pr project xs t p ?tm)"
    by (simp add: ww tt)
  from e4 have e: "map_of (entries w') (taskKey u ?tid) = Some t"
    by (simp only: ww tt map_of_update_same)
  show ?thesis using that[OF st b a c d e] .
qed

text \<open>What \<open>updateTask\<close> does, whatever it returns: it leaves the store as it was, or it
  writes the project, or the project and the task; no activity is ever recorded.\<close>

lemma updateTask_D:
  assumes "updateTask pf u pid tid ups w = (r, w')"
  shows "(r = Inl (Failure ''Failed to update task'') \<and> entries w' = entries w) \<or>
         (\<exists>project xs i p.
            map_of (entries w) (projectKey u pid) = Some project \<and>
            tasks_array project = Inr xs \<and>
            findIndexE (has_id tid) xs = Inr (Some i) \<and>
            calculateProgress
              (Some (JArr (xs[i := JObj (updated_task (xs ! i) tid pid ups (clock w (tick w)))])))
              = Inr p \<and>
            (let ut = updated_task (xs ! i) tid pid ups (clock w (tick w));
                 pr = AList.update ''updated'' (JStr (clock w (Suc (tick w))))
                        (AList.update ''progress'' p
                           (AList.update ''tasks'' (JArr (xs[i := JObj ut])) project))
             in (r = Inr ut \<and>
                 entries w' = AList.update (taskKey u tid) ut
                                (AList.update (projectKey u pid) pr (entries w))) \<or>
                (r = Inl (Failure ''Failed to update task'') \<and>
                 (entries w' = AList.update (projectKey u pid) pr (entries w) \<or>
                  entries w' = AList.update (taskKey u tid) ut
                                 (AList.update (projectKey u pid) pr (entries w))))))"
proof -
  let ?F = "Inl (Failure ''Failed to update task'') :: error + obj"
  let ?pk = "projectKey u pid" and ?tk = "taskKey u tid"
  note defs = updateTask_def tryCatch_def bindE_def throwE_def liftE_def returnE_def
  obtain r1 w1 where g: "getProjectById u pid w = (r1, w1)" by (cases "getProjectById u pid w")
  from getProjectById_D[OF g]
  have e1: "entries w1 = entries w" and c1: "clock w1 = clock w" "tick w1 = tick w"
    and r1: "r1 = Inr None \<or> r1 = Inr (map_of (entries w) ?pk)"
    by auto
  show ?thesis
  proof (cases "r1 = Inr None")
    case True
    with g assms have "r = ?F" "w' = w1" by (auto simp: defs)
    with e1 show ?thesis by simp
  next
    case False
    with r1 obtain project where p: "r1 = Inr (Some project)"
      and st: "map_of (entries w) ?pk = Some project"
      by (cases "map_of (entries w) ?pk") auto
    show ?thesis
    proof (cases "tasks_array project")
      case (Inl e)
      with g p assms have "r = ?F" "w' = w1" by (auto simp: defs)
      with e1 show ?thesis by simp
    next
      case ta: (Inr xs)
      show ?thesis
      proof (cases "findIndexE (has_id tid) xs")
        case (Inl e)
        with g p ta assms have "r = ?F" "w' = w1" by (auto simp: defs)
        with e1 show ?thesis by simp
      next
        case fi: (Inr found_index)
        show ?thesis
        proof (cases found_index)
          case None
          with g p ta fi assms have "r = ?F" "w' = w1" by (auto simp: defs)
          with e1 show ?thesis by simp
        next
          case (Some i)
          let ?t1 = "clock w (tick w)" and ?t2 = "clock w (Suc (tick w))"
          let ?ut = "updated_task (xs ! i) tid pid ups ?t1"
          let ?xs' = "xs[i := JObj ?ut]"
          obtain w2 where n1: "now w1 = (Inr ?t1, w2)" and e2: "entries w2 = entries w1"
            and c2: "clock w2 = clock w" "tick w2 = Suc (tick w)"
            using c1 by (simp add: now_def)
          from fi Some have ilt: "i < length xs" using findIndexE_SomeD by blast
          then have at_i: "?xs' ! i = JObj ?ut" by simp
          show ?thesis
          proof (cases "calculateProgress (Some (JArr ?xs'))")
            case (Inl e)
            with g p ta fi Some n1 assms have "r = ?F" "w' = w2" by (auto simp: defs Let_def)
            with e1 e2 show ?thesis by simp
          next
            case cp: (Inr pg)
            let ?pr = "AList.update ''updated'' (JStr ?t2)
                        (AList.update ''progress'' pg
                           (AList.update ''tasks'' (JArr ?xs') project))"
            obtain w3 where n2: "now w2 = (Inr ?t2, w3)" and e3: "entries w3 = entries w2"
              using c2 by (simp add: now_def)
            obtain r4 w4 where s1: "kv_set ?pk ?pr w3 = (r4, w4)" by (cases "kv_set ?pk ?pr w3")
            from kv_set_D[OF s1]
            have sd1: "r4 = Inr () \<and> entries w4 = AList.update ?pk ?pr (entries w3) \<or>
                      r4 = Inl StoreError \<and> entries w4 = entries w3" by simp
            have known: "map_of (entries w) ?pk = Some project \<and>
                  tasks_array project = Inr xs \<and>
                  findIndexE (has_id tid) xs = Inr (Some i) \<and>
                  calculateProgress (Some (JArr ?xs')) = Inr pg"
              using st ta fi Some cp by simp
            from sd1 show ?thesis
            proof
              assume f: "r4 = Inl StoreError \<and> entries w4 = entries w3"
              with g p ta fi Some n1 cp n2 s1 assms have "r = ?F" "w' = w4"
                by (auto simp: defs Let_def)
              with f e1 e2 e3 show ?thesis by simp
            next
              assume ok1: "r4 = Inr () \<and> entries w4 = AList.update ?pk ?pr (entries w3)"
              then have E1: "entries w4 = AList.update ?pk ?pr (entries w)"
                using e1 e2 e3 by simp
              obtain r5 w5 where s2: "kv_set ?tk ?ut w4 = (r5, w5)" by (cases "kv_set ?tk ?ut w4")
              from kv_set_D[OF s2]
              have sd2: "r5 = Inr () \<and> entries w5 = AList.update ?tk ?ut (entries w4) \<or>
                        r5 = Inl StoreError \<and> entries w5 = entries w4" by simp
              from sd2 show ?thesis
              proof
                assume f: "r5 = Inl StoreError \<and> entries w5 = entries w4"
                with g p ta fi Some n1 cp n2 s1 ok1 s2 assms have "r = ?F" "w' = w5"
                  by (auto simp: defs Let_def)
                with f E1 have "r = ?F \<and> entries w' = AList.update ?pk ?pr (entries w)" by simp
                with known show ?thesis by (intro disjI2 exI[of _ project] exI[of _ xs]
                      exI[of _ i] exI[of _ pg]) (simp add: Let_def)
              next
                assume ok2: "r5 = Inr () \<and> entries w5 = AList.update ?tk ?ut (entries w4)"
                then have E2: "entries w5 = AList.update ?tk ?ut (AList.update ?pk ?pr (entries w))"
                  using E1 by simp
                have guard: "completes ups (?xs' ! i) \<noteq> Inr True"
                  unfolding at_i by (rule updateTask_guard)
                have "(r = Inr ?ut \<or> r = ?F) \<and> w' = w5"
                proof (cases "completes ups (?xs' ! i)")
                  case (Inl e)
                  with g p ta fi Some n1 cp n2 s1 ok1 s2 ok2 assms show ?thesis
                    by (auto simp: defs Let_def)
                next
                  case (Inr b)
                  with guard have "b = False" by simp
                  with Inr g p ta fi Some n1 cp n2 s1 ok1 s2 ok2 assms show ?thesis
                    by (auto simp: defs Let_def)
                qed
                with E2 have "(r = Inr ?ut \<and> entries w' = AList.update ?tk ?ut (AList.update ?pk ?pr (entries w))) \<or>
                   (r = ?F \<and> entries w' = AList.update ?tk ?ut (AList.update ?pk ?pr (entries w)))"
                  by auto
                with known show ?thesis by (intro disjI2 exI[of _ project] exI[of _ xs]
                      exI[of _ i] exI[of _ pg]) (auto simp: Let_def)
              qed
            qed
          qed
        qed
      qed
    qed
  qed
qed

lemma fl_1: "fl 1 = Fin 1"
  by code_simp

lemma fl_100: "fl 100 = Fin 100"
  by code_simp

lemma floor_half: "\<lfloor>1 / 2 :: rat\<rfloor> = 0"
  by (simp add: floor_eq_iff)

lemma percentage_zero: "0 < n \<Longrightarrow> percentage 0 n = Fin 0"
  by (simp add: percentage_def num_div_def num_mul_def is_infinite_def is_zero_def
      signed_zero_def signed_infinity_def Math_round_def floor_half)

lemma percentage_bounds:
  assumes "c \<le> n" "0 < n"
  shows "\<exists>k. percentage c n = Fin (of_nat k) \<and> k \<le> 100"
proof (cases "c = 0")
  case True
  then show ?thesis using percentage_zero[of n] assms by (intro exI[of _ 0]) simp
next
  case False
  let ?x = "of_nat c / of_nat n :: rat"
  from False assms have x: "0 < ?x" "?x \<le> 1" by simp_all
  have q: "num_div (Fin (of_nat c)) (Fin (of_nat n)) = fl ?x"
    using False assms by (simp add: num_div_def is_infinite_def is_zero_def)
  have d1: "is_double 1" by (simp add: is_double_def fl_1)
  have d100: "is_double 100" by (simp add: is_double_def fl_100)
  from fl_le[OF x d1] obtain y where y: "fl ?x = Fin y" "0 \<le> y" "y \<le> 1" by blast
  have "\<exists>z. num_mul (Fin y) (Fin 100) = Fin z \<and> 0 \<le> z \<and> z \<le> 100"
  proof (cases "y = 0")
    case True
    then show ?thesis
      by (simp add: num_mul_def is_infinite_def signed_zero_def)
  next
    case False
    with y have "0 < y * 100" "y * 100 \<le> 100" by simp_all
    from fl_le[OF this d100] obtain z where "fl (y * 100) = Fin z" "0 \<le> z" "z \<le> 100" by blast
    with False show ?thesis by (simp add: num_mul_def is_infinite_def)
  qed
  then obtain z where z: "num_mul (Fin y) (Fin 100) = Fin z" "0 \<le> z" "z \<le> 100" by blast
  let ?k = "\<lfloor>z + 1 / 2\<rfloor>"
  have k0: "0 \<le> ?k" using z(2) by simp
  have "z + 1 / 2 < 101" using z(3) by simp
  then have "?k < 101" by (simp only: floor_less_iff)
  then have k100: "?k \<le> 100" by linarith
  have "Math_round (Fin z) = Fin (of_int ?k)" using z(2) by (simp add: Math_round_def)
  also have "\<dots> = Fin (of_nat (nat ?k))" using k0 by simp
  finally have "percentage c n = Fin (of_nat (nat ?k))"
    by (simp add: percentage_def q y z)
  moreover have "nat ?k \<le> 100" using k100 by linarith
  ultimately show ?thesis by blast
qed

lemma percentage_all:
  assumes "0 < n"
  shows "percentage n n = Fin 100"
proof -
  have "num_div (Fin (of_nat n)) (Fin (of_nat n)) = Fin 1"
    using assms by (simp add: num_div_def is_infinite_def is_zero_def fl_1)
  moreover have "num_mul (Fin 1) (Fin 100) = Fin 100"
    by (simp add: num_mul_def is_infinite_def fl_100)
  moreover have "Math_round (Fin 100) = Fin 100"
    by (simp add: Math_round_def floor_eq_iff)
  ultimately show ?thesis by (simp add: percentage_def)
qed

lemma filterE_is_completed:
  "JNull \<notin> set xs \<Longrightarrow>
   filterE is_completed xs =
     Inr (filter (\<lambda>t. field_of t ''status'' = Some (JStr ''completed'')) xs)"
proof (induction xs)
  case Nil
  then show ?case by simp
next
  case (Cons x xs)
  then have "x \<noteq> JNull" by auto
  then have "member x ''status'' = Inr (field_of x ''status'')"
    using member_cases[of x "''status''"] by auto
  with Cons show ?case by (simp add: is_completed_def bindS_def)
qed

lemma calculateProgress_array:
  assumes "JNull \<notin> set xs"
  shows "calculateProgress (Some (JArr xs)) =
           Inr (if xs = [] then JNum 0
                else json_of_number (percentage (completed_count xs) (length xs)))"
  using assms
  by (simp add: calculateProgress_def js_length_def bindS_def filterE_is_completed
      completed_count_def)

text \<open>
  Claim C5, as the code has it. After a \<open>createProject\<close>, a \<open>createTask\<close> or an
  \<open>updateTask\<close> that succeeds, and after an \<open>updateProject\<close> that succeeds and whose
  updates carry a truthy \<open>tasks\<close>, the stored project's \<open>progress\<close> is
  \<open>calculateProgress\<close> of its stored tasks. An \<open>updateProject\<close> whose updates carry no
  \<open>tasks\<close>, or a \<open>tasks\<close> that is \<open>null\<close>, \<open>false\<close>, \<open>0\<close> or the empty string, stores
  the \<open>tasks\<close> and the \<open>progress\<close> of the updates where they have one and the previous
  ones otherwise, and computes nothing. For an array of tasks none of which is \<open>null\<close>,
  \<open>calculateProgress\<close> is 0 when the array is empty, and otherwise the percentage of the
  tasks whose status is \<open>completed\<close>, computed in double arithmetic as
  \<open>Math.round((completed / total) * 100)\<close>: an integer from 0 to 100, 0 when no task is
  completed and 100 when all are; it is 33 for one of three, 50 for one of two, and 57
  for 23 of 40, where the quotient \<open>0.575\<close> rounds down to \<open>57.49999999999999\<close>.
\<close>

theorem progress_recomputed_on_task_mutation:
  "(fst (createProject stamp u pd w) = Inr p \<longrightarrow>
      stored_project (snd (createProject stamp u pd w)) u (''project-'' @ stamp) = Some p \<and>
      map_of p ''tasks'' = Some (JArr []) \<and> map_of p ''progress'' = Some (JNum 0) \<and>
      calculateProgress (map_of p ''tasks'') = Inr (JNum 0)) \<and>
   (fst (createTask stamp u pid td w) = Inr t \<longrightarrow>
      (\<exists>q xs j. stored_project (snd (createTask stamp u pid td w)) u pid = Some q \<and>
           map_of q ''tasks'' = Some (JArr xs) \<and> JObj t \<in> set xs \<and>
           calculateProgress (map_of q ''tasks'') = Inr j \<and> map_of q ''progress'' = Some j)) \<and>
   (fst (updateTask pf u pid tid tus w) = Inr t \<longrightarrow>
      (\<exists>q xs j. stored_project (snd (updateTask pf u pid tid tus w)) u pid = Some q \<and>
           map_of q ''tasks'' = Some (JArr xs) \<and> JObj t \<in> set xs \<and>
           calculateProgress (map_of q ''tasks'') = Inr j \<and> map_of q ''progress'' = Some j)) \<and>
   (fst (updateProject u pid ups w) = Inr p \<longrightarrow>
      stored_project (snd (updateProject u pid ups w)) u pid = Some p \<and>
      (\<exists>existing. stored_project w u pid = Some existing \<and>
         map_of p ''tasks'' = overlaid existing ups ''tasks'' \<and>
         (if replaces_tasks ups
          then map_of p ''tasks'' = field_of ups ''tasks'' \<and>
               (\<exists>j. calculateProgress (map_of p ''tasks'') = Inr j \<and>
                    map_of p ''progress'' = Some j)
          else map_of p ''progress'' = overlaid existing ups ''progress''))) \<and>
   (JNull \<notin> set xs \<longrightarrow>
      calculateProgress (Some (JArr xs)) =
        Inr (if xs = [] then JNum 0
             else json_of_number (percentage (completed_count xs) (length xs)))) \<and>
   (c \<le> n \<and> 0 < n \<longrightarrow>
      (\<exists>k. percentage c n = Fin (of_nat k) \<and> k \<le> 100) \<and>
      (c = 0 \<longrightarrow> percentage c n = Fin 0) \<and>
      (c = n \<longrightarrow> percentage c n = Fin 100)) \<and>
   percentage 1 3 = Fin 33 \<and> percentage 1 2 = Fin 50 \<and> percentage 23 40 = Fin 57"
proof (intro conjI impI)
  assume a: "fst (createProject stamp u pd w) = Inr p"
  obtain w' where cp: "createProject stamp u pd w = (Inr p, w')"
    using a by (cases "createProject stamp u pd w") simp
  from createProject_success[OF cp]
  have l: "project_literal (''project-'' @ stamp) u (clock w (tick w)) pd = Inr p"
    and s: "map_of (entries w') (projectKey u (''project-'' @ stamp)) = Some p"
    by simp_all
  from s cp show "stored_project (snd (createProject stamp u pd w)) u (''project-'' @ stamp) = Some p"
    by (simp add: stored_project_def)
  from project_literal_D[OF l] show "map_of p ''tasks'' = Some (JArr [])"
    and "map_of p ''progress'' = Some (JNum 0)"
    by simp_all
  then show "calculateProgress (map_of p ''tasks'') = Inr (JNum 0)"
    by (simp add: calculateProgress_array)
next
  assume a: "fst (createTask stamp u pid td w) = Inr t"
  obtain w' where c: "createTask stamp u pid td w = (Inr t, w')"
    using a by (cases "createTask stamp u pid td w") simp
  from c obtain project xs j where
    j: "calculateProgress (Some (JArr (xs @ [JObj t]))) = Inr j" and
    s: "map_of (entries w') (projectKey u pid) =
       Some (AList.update ''updated'' (JStr (clock w (tick w)))
               (AList.update ''progress'' j
                  (AList.update ''tasks'' (JArr (xs @ [JObj t])) project)))"
    by (rule createTask_success)
  let ?q = "AList.update ''updated'' (JStr (clock w (tick w)))
               (AList.update ''progress'' j
                  (AList.update ''tasks'' (JArr (xs @ [JObj t])) project))"
  have "stored_project w' u pid = Some ?q" using s by (simp add: stored_project_def)
  moreover have "map_of ?q ''tasks'' = Some (JArr (xs @ [JObj t]))"
    by (simp add: update_conv')
  moreover have "map_of ?q ''progress'' = Some j" by (simp add: update_conv')
  moreover have "JObj t \<in> set (xs @ [JObj t])" by simp
  ultimately show "\<exists>q xs j. stored_project (snd (createTask stamp u pid td w)) u pid = Some q \<and>
           map_of q ''tasks'' = Some (JArr xs) \<and> JObj t \<in> set xs \<and>
           calculateProgress (map_of q ''tasks'') = Inr j \<and> map_of q ''progress'' = Some j"
    using c j by (intro exI[of _ ?q] exI[of _ "xs @ [JObj t]"] exI[of _ j]) simp
next
  assume a: "fst (updateTask pf u pid tid tus w) = Inr t"
  obtain w' where c: "updateTask pf u pid tid tus w = (Inr t, w')"
    using a by (cases "updateTask pf u pid tid tus w") simp
  from updateTask_D[OF c] obtain project xs i j where
    i: "findIndexE (has_id tid) xs = Inr (Some i)" and
    j: "calculateProgress
              (Some (JArr (xs[i := JObj (updated_task (xs ! i) tid pid tus (clock w (tick w)))])))
              = Inr j" and
    r: "t = updated_task (xs ! i) tid pid tus (clock w (tick w))" and
    e: "entries w' = AList.update (taskKey u tid) t
          (AList.update (projectKey u pid)
             (AList.update ''updated'' (JStr (clock w (Suc (tick w))))
                (AList.update ''progress'' j
                   (AList.update ''tasks'' (JArr (xs[i := JObj t])) project))) (entries w))"
    by (auto simp: Let_def)
  let ?q = "AList.update ''updated'' (JStr (clock w (Suc (tick w))))
                (AList.update ''progress'' j
                   (AList.update ''tasks'' (JArr (xs[i := JObj t])) project))"
  have "stored_project w' u pid = Some ?q"
    using project_key_not_task by (simp add: stored_project_def e update_conv')
  moreover have "map_of ?q ''tasks'' = Some (JArr (xs[i := JObj t]))"
    by (simp add: update_conv')
  moreover have "map_of ?q ''progress'' = Some j" by (simp add: update_conv')
  moreover from i have "i < length xs" using findIndexE_SomeD by blast
  then have "JObj t \<in> set (xs[i := JObj t])" by (rule set_update_memI)
  ultimately show "\<exists>q xs j. stored_project (snd (updateTask pf u pid tid tus w)) u pid = Some q \<and>
           map_of q ''tasks'' = Some (JArr xs) \<and> JObj t \<in> set xs \<and>
           calculateProgress (map_of q ''tasks'') = Inr j \<and> map_of q ''progress'' = Some j"
    using c j r by (intro exI[of _ ?q] exI[of _ "xs[i := JObj t]"] exI[of _ j]) simp
next
  assume a: "fst (updateProject u pid ups w) = Inr p"
  obtain w' where c: "updateProject u pid ups w = (Inr p, w')"
    using a by (cases "updateProject u pid ups w") simp
  from updateProject_D[OF c] obtain existing where
    e: "map_of (entries w) (projectKey u pid) = Some existing" and
    p: "recalculated ups (updated_project existing u pid ups (clock w (tick w))) = Inr p" and
    s: "map_of (entries w') (projectKey u pid) = Some p"
    by auto
  let ?upd = "updated_project existing u pid ups (clock w (tick w))"
  from s c show "stored_project (snd (updateProject u pid ups w)) u pid = Some p"
    by (simp add: stored_project_def)
  have ut: "map_of ?upd ''tasks'' = overlaid existing ups ''tasks''"
    and up: "map_of ?upd ''progress'' = overlaid existing ups ''progress''"
    using updated_project_props[of existing u pid ups "clock w (tick w)"] by simp_all
  note d = recalculated_D[OF p]
  have pt: "map_of p ''tasks'' = overlaid existing ups ''tasks''"
    using d ut by (auto simp: update_conv' split: if_splits)
  have "if replaces_tasks ups
          then map_of p ''tasks'' = field_of ups ''tasks'' \<and>
               (\<exists>j. calculateProgress (map_of p ''tasks'') = Inr j \<and>
                    map_of p ''progress'' = Some j)
          else map_of p ''progress'' = overlaid existing ups ''progress''"
  proof (cases "replaces_tasks ups")
    case True
    then obtain v where v: "field_of ups ''tasks'' = Some v"
      by (auto simp: replaces_tasks_def split: option.splits)
    then have "overlaid existing ups ''tasks'' = Some v"
      by (simp add: overlaid_def field_of_own_props)
    with pt v have 1: "map_of p ''tasks'' = field_of ups ''tasks''" by simp
    from d True obtain j where j: "calculateProgress (map_of ?upd ''tasks'') = Inr j"
      "p = AList.update ''progress'' j ?upd" by auto
    then have "calculateProgress (map_of p ''tasks'') = Inr j \<and> map_of p ''progress'' = Some j"
      by (simp add: update_conv' pt ut)
    with 1 True show ?thesis by auto
  next
    case False
    with d have "p = ?upd" by simp
    with up False show ?thesis by simp
  qed
  with pt e show "\<exists>existing. stored_project w u pid = Some existing \<and>
         map_of p ''tasks'' = overlaid existing ups ''tasks'' \<and>
         (if replaces_tasks ups
          then map_of p ''tasks'' = field_of ups ''tasks'' \<and>
               (\<exists>j. calculateProgress (map_of p ''tasks'') = Inr j \<and>
                    map_of p ''progress'' = Some j)
          else map_of p ''progress'' = overlaid existing ups ''progress'')"
    by (intro exI[of _ existing]) (simp add: stored_project_def)
next
  assume "JNull \<notin> set xs"
  then show "calculateProgress (Some (JArr xs)) =
        Inr (if xs = [] then JNum 0
             else json_of_number (percentage (completed_count xs) (length xs)))"
    by (rule calculateProgress_array)
next
  assume "c \<le> n \<and> 0 < n"
  then show "\<exists>k. percentage c n = Fin (of_nat k) \<and> k \<le> 100"
    using percentage_bounds by blast
next
  assume "c \<le> n \<and> 0 < n" "c = 0"
  then show "percentage c n = Fin 0" using percentage_zero by blast
next
  assume "c \<le> n \<and> 0 < n" "c = n"
  then show "percentage c n = Fin 100" using percentage_all by blast
next
  show "percentage 1 3 = Fin 33" by code_simp
  show "percentage 1 2 = Fin 50" by code_simp
  show "percentage 23 40 = Fin 57" by code_simp
qed

text \<open>C5 on the sample data: a project created, a completed task added to the sample
  project, the sample task completed, and the tasks replaced by forty tasks of which 23
  are completed.\<close>

theorem progress_recomputed_on_task_mutation_witness:
  "(\<exists>p. fst (createProject ''1709632800000-k3x9q2m1z'' ''u1'' (JObj [(''name'', JStr ''Plan'')])
               empty_world) = Inr p \<and>
        map_of p ''tasks'' = Some (JArr []) \<and> map_of p ''progress'' = Some (JNum 0)) \<and>
   (\<exists>t q xs j.
        fst (createTask ''1709632800000-a1b2c3d4e'' ''u1'' ''p1''
               (JObj [(''title'', JStr ''Review''), (''status'', JStr ''completed'')])
               sample_world) = Inr t \<and>
        stored_project
          (snd (createTask ''1709632800000-a1b2c3d4e'' ''u1'' ''p1''
               (JObj [(''title'', JStr ''Review''), (''status'', JStr ''completed'')])
               sample_world)) ''u1'' ''p1'' = Some q \<and>
        map_of q ''tasks'' = Some (JArr xs) \<and> JObj t \<in> set xs \<and>
        calculateProgress (map_of q ''tasks'') = Inr j \<and> map_of q ''progress'' = Some j) \<and>
   (\<exists>t q xs j.
        fst (updateTask sample_platform ''u1'' ''p1'' ''t1''
               (JObj [(''status'', JStr ''completed'')]) sample_world) = Inr t \<and>
        stored_project
          (snd (updateTask sample_platform ''u1'' ''p1'' ''t1''
               (JObj [(''status'', JStr ''completed'')]) sample_world)) ''u1'' ''p1'' = Some q \<and>
        map_of q ''tasks'' = Some (JArr xs) \<and> JObj t \<in> set xs \<and>
        calculateProgress (map_of q ''tasks'') = Inr j \<and> map_of q ''progress'' = Some j) \<and>
   (\<exists>p j. fst (updateProject ''u1'' ''p1'' (JObj [(''tasks'', JArr forty_tasks)]) sample_world)
            = Inr p \<and>
          map_of p ''tasks'' = Some (JArr forty_tasks) \<and>
          calculateProgress (map_of p ''tasks'') = Inr j \<and> map_of p ''progress'' = Some j) \<and>
   calculateProgress (Some (JArr forty_tasks)) =
     Inr (json_of_number (percentage (completed_count forty_tasks) (length forty_tasks))) \<and>
   (\<exists>k. percentage 23 40 = Fin (of_nat k) \<and> k \<le> 100)"
proof -
  note t = progress_recomputed_on_task_mutation
  have "\<not> isl (fst (createProject ''1709632800000-k3x9q2m1z'' ''u1''
                      (JObj [(''name'', JStr ''Plan'')]) empty_world))"
    by code_simp
  then obtain p1 where
    1: "fst (createProject ''1709632800000-k3x9q2m1z'' ''u1'' (JObj [(''name'', JStr ''Plan'')])
               empty_world) = Inr p1"
    using not_isl_Inr by blast
  have "\<not> isl (fst (createTask ''1709632800000-a1b2c3d4e'' ''u1'' ''p1''
               (JObj [(''title'', JStr ''Review''), (''status'', JStr ''completed'')])
               sample_world))"
    by code_simp
  then obtain t2 where
    2: "fst (createTask ''1709632800000-a1b2c3d4e'' ''u1'' ''p1''
               (JObj [(''title'', JStr ''Review''), (''status'', JStr ''completed'')])
               sample_world) = Inr t2"
    using not_isl_Inr by blast
  have "\<not> isl (fst (updateTask sample_platform ''u1'' ''p1'' ''t1''
               (JObj [(''status'', JStr ''completed'')]) sample_world))"
    by code_simp
  then obtain t3 where
    3: "fst (updateTask sample_platform ''u1'' ''p1'' ''t1''
               (JObj [(''status'', JStr ''completed'')]) sample_world) = Inr t3"
    using not_isl_Inr by blast
  have "\<not> isl (fst (updateProject ''u1'' ''p1'' (JObj [(''tasks'', JArr forty_tasks)])
                      sample_world))"
    by code_simp
  then obtain p4 where
    4: "fst (updateProject ''u1'' ''p1'' (JObj [(''tasks'', JArr forty_tasks)]) sample_world)
          = Inr p4"
    using not_isl_Inr by blast
  have f4: "field_of (JObj [(''tasks'', JArr forty_tasks)]) ''tasks'' = Some (JArr forty_tasks)"
    by (simp add: field_of_def)
  then have r4: "replaces_tasks (JObj [(''tasks'', JArr forty_tasks)])"
    by (simp add: replaces_tasks_def)
  have n5: "JNull \<notin> set forty_tasks" "forty_tasks \<noteq> []"
    by (simp_all add: forty_tasks_def task_with_status_def)
  have n6: "(23::nat) \<le> 40 \<and> (0::nat) < 40" by simp
  from t[THEN conjunct1, THEN mp, OF 1] 1
  have a: "\<exists>p. fst (createProject ''1709632800000-k3x9q2m1z'' ''u1''
                 (JObj [(''name'', JStr ''Plan'')]) empty_world) = Inr p \<and>
        map_of p ''tasks'' = Some (JArr []) \<and> map_of p ''progress'' = Some (JNum 0)"
    by blast
  from t[THEN conjunct2, THEN conjunct1, THEN mp, OF 2] 2
  have b: "\<exists>t q xs j.
        fst (createTask ''1709632800000-a1b2c3d4e'' ''u1'' ''p1''
               (JObj [(''title'', JStr ''Review''), (''status'', JStr ''completed'')])
               sample_world) = Inr t \<and>
        stored_project
          (snd (createTask ''1709632800000-a1b2c3d4e'' ''u1'' ''p1''
               (JObj [(''title'', JStr ''Review''), (''status'', JStr ''completed'')])
               sample_world)) ''u1'' ''p1'' = Some q \<and>
        map_of q ''tasks'' = Some (JArr xs) \<and> JObj t \<in> set xs \<and>
        calculateProgress (map_of q ''tasks'') = Inr j \<and> map_of q ''progress'' = Some j"
    by blast
  from t[THEN conjunct2, THEN conjunct2, THEN conjunct1, THEN mp, OF 3] 3
  have c: "\<exists>t q xs j.
        fst (updateTask sample_platform ''u1'' ''p1'' ''t1''
               (JObj [(''status'', JStr ''completed'')]) sample_world) = Inr t \<and>
        stored_project
          (snd (updateTask sample_platform ''u1'' ''p1'' ''t1''
               (JObj [(''status'', JStr ''completed'')]) sample_world)) ''u1'' ''p1'' = Some q \<and>
        map_of q ''tasks'' = Some (JArr xs) \<and> JObj t \<in> set xs \<and>
        calculateProgress (map_of q ''tasks'') = Inr j \<and> map_of q ''progress'' = Some j"
    by blast
  from t[THEN conjunct2, THEN conjunct2, THEN conjunct2, THEN conjunct1, THEN mp, OF 4]
  have "map_of p4 ''tasks'' = Some (JArr forty_tasks) \<and>
        (\<exists>j. calculateProgress (map_of p4 ''tasks'') = Inr j \<and> map_of p4 ''progress'' = Some j)"
    by (auto simp: r4 f4)
  with 4 have d: "\<exists>p j. fst (updateProject ''u1'' ''p1'' (JObj [(''tasks'', JArr forty_tasks)])
            sample_world) = Inr p \<and>
          map_of p ''tasks'' = Some (JArr forty_tasks) \<and>
          calculateProgress (map_of p ''tasks'') = Inr j \<and> map_of p ''progress'' = Some j"
    by blast
  from t[THEN conjunct2, THEN conjunct2, THEN conjunct2, THEN conjunct2, THEN conjunct1,
         THEN mp, OF n5(1)] n5(2)
  have e: "calculateProgress (Some (JArr forty_tasks)) =
     Inr (json_of_number (percentage (completed_count forty_tasks) (length forty_tasks)))"
    by simp
  from t[THEN conjunct2, THEN conjunct2, THEN conjunct2, THEN conjunct2, THEN conjunct2,
         THEN conjunct1, THEN mp, OF n6]
  have f: "\<exists>k. percentage 23 40 = Fin (of_nat k) \<and> k \<le> 100"
    by blast
  from a b c d e f show ?thesis by (intro conjI)
qed

text \<open>
  C5 as the spec states it fails. \<open>updateProject\<close> with the updates \<open>{progress: 50}\<close> on
  a project whose only task is pending stores the progress 50, where the tasks give 0;
  with the updates \<open>{tasks: null}\<close> it stores \<open>null\<close> for the tasks and keeps the
  progress. And 23 completed tasks of 40 give the progress 57, where the percentage
  57.5 rounds to 58.
\<close>

theorem progress_invariant_counterexample:
  "map_option (\<lambda>p. (map_of p ''tasks'', map_of p ''progress''))
     (stored_project
        (snd (updateProject ''u1'' ''p1'' (JObj [(''progress'', JNum 50)]) sample_world))
        ''u1'' ''p1'')
     = Some (Some (JArr [JObj sample_task]), Some (JNum 50)) \<and>
   calculateProgress (Some (JArr [JObj sample_task])) = Inr (JNum 0) \<and>
   map_option (\<lambda>p. (map_of p ''tasks'', map_of p ''progress''))
     (stored_project
        (snd (updateProject ''u1'' ''p1'' (JObj [(''tasks'', JNull)]) sample_world))
        ''u1'' ''p1'')
     = Some (Some JNull, Some (JNum 0)) \<and>
   completed_count forty_tasks = 23 \<and> length forty_tasks = 40 \<and>
   calculateProgress (Some (JArr forty_tasks)) = Inr (JNum 57) \<and>
   \<lfloor>100 * 23 / 40 + 1 / 2 :: rat\<rfloor> = 58"
  by code_simp

text \<open>
  Claim C8, as the code has it. \<open>deleteProject\<close> on an existing project never raises and
  never removes the record. It returns \<open>true\<close> exactly when the store answers its two
  calls; then the stored project is the previous one with the status \<open>archived\<close> and with
  \<open>updated\<close> set to the time of the call, every other property and every other key of
  the store as before, and \<open>getProjectById\<close> returns exactly that project and
  \<open>getUserProjects\<close> lists it (when the store answers them). When the store rejects one
  of the two calls, \<open>deleteProject\<close> returns \<open>false\<close> and the store is as it was.
\<close>

theorem deleteProject_archives:
  "stored_project w u pid = Some p \<longrightarrow>
     (let r = fst (deleteProject u pid w);
          w' = snd (deleteProject u pid w);
          a = archived p (clock w (tick w))
      in (r = Inr True \<or> r = Inr False) \<and>
         (r = Inr True \<longleftrightarrow> answers 2 w) \<and>
         (r = Inr False \<longleftrightarrow> \<not> answers 2 w) \<and>
         (r = Inr False \<longrightarrow> entries w' = entries w) \<and>
         (r = Inr True \<longrightarrow>
            stored_project w' u pid = Some a \<and>
            (\<forall>k. k \<noteq> projectKey u pid \<longrightarrow> map_of (entries w') k = map_of (entries w) k)) \<and>
         (stored_project w' u pid = Some a \<or> stored_project w' u pid = Some p) \<and>
         map_of a ''status'' = Some (JStr ''archived'') \<and>
         map_of a ''updated'' = Some (JStr (clock w (tick w))) \<and>
         (\<forall>name. name \<noteq> ''status'' \<and> name \<noteq> ''updated'' \<longrightarrow> map_of a name = map_of p name) \<and>
         (faults w = [] \<longrightarrow> r = Inr True \<and> faults w' = []) \<and>
         (r = Inr True \<and> answers 1 w' \<longrightarrow>
            fst (getProjectById u pid w') = Inr (Some a) \<and>
            (\<exists>ps. fst (getUserProjects pf u w') = Inr ps \<and> a \<in> set ps)))"
proof
  assume sp: "stored_project w u pid = Some p"
  then have st: "map_of (entries w) (projectKey u pid) = Some p"
    by (simp add: stored_project_def)
  obtain r w' where d: "deleteProject u pid w = (r, w')" by (cases "deleteProject u pid w")
  let ?a = "archived p (clock w (tick w))"
  from deleteProject_D[OF st d]
  have cases: "(r = Inr True \<and> answers 2 w \<and>
          entries w' = AList.update (projectKey u pid) ?a (entries w) \<and>
          faults w' = drop 2 (faults w)) \<or>
         (r = Inr False \<and> \<not> answers 2 w \<and> entries w' = entries w)" .
  have 1: "r = Inr True \<or> r = Inr False" using cases by blast
  have 2: "r = Inr True \<longleftrightarrow> answers 2 w" using cases by auto
  have 8: "r = Inr False \<longleftrightarrow> \<not> answers 2 w" using cases by auto
  have 3: "entries w' = entries w" if "r = Inr False" using cases that by auto
  have 4: "stored_project w' u pid = Some ?a \<and>
            (\<forall>k. k \<noteq> projectKey u pid \<longrightarrow> map_of (entries w') k = map_of (entries w) k)"
    if "r = Inr True"
    using cases that by (auto simp: stored_project_def update_conv')
  have 5: "stored_project w' u pid = Some ?a \<or> stored_project w' u pid = Some p"
    using cases sp by (auto simp: stored_project_def update_conv')
  have 6: "r = Inr True \<and> faults w' = []" if "faults w = []"
    using cases that by (auto simp: answers_def)
  have 7: "fst (getProjectById u pid w') = Inr (Some ?a) \<and>
            (\<exists>ps. fst (getUserProjects pf u w') = Inr ps \<and> ?a \<in> set ps)"
    if "r = Inr True \<and> answers 1 w'"
  proof -
    from that 4 have m: "map_of (entries w') (projectKey u pid) = Some ?a"
      by (simp add: stored_project_def)
    from that have f: "answers 1 w'" by simp
    have g: "fst (getProjectById u pid w') = Inr (Some ?a)"
      using getProjectById_answered[OF f, of u pid] m by simp
    from getUserProjects_answered[OF f, of pf u]
    obtain ps where ps: "fst (getUserProjects pf u w') = Inr ps" by blast
    then obtain w'' where "getUserProjects pf u w' = (Inr ps, w'')"
      by (cases "getUserProjects pf u w'") simp
    from getUserProjects_lists[OF m this] have "?a \<in> set ps" .
    with g ps show ?thesis by blast
  qed
  from 1 2 8 3 4 5 6 7 d archived_props[of p "clock w (tick w)"]
  show "let r = fst (deleteProject u pid w);
          w' = snd (deleteProject u pid w);
          a = archived p (clock w (tick w))
      in (r = Inr True \<or> r = Inr False) \<and>
         (r = Inr True \<longleftrightarrow> answers 2 w) \<and>
         (r = Inr False \<longleftrightarrow> \<not> answers 2 w) \<and>
         (r = Inr False \<longrightarrow> entries w' = entries w) \<and>
         (r = Inr True \<longrightarrow>
            stored_project w' u pid = Some a \<and>
            (\<forall>k. k \<noteq> projectKey u pid \<longrightarrow> map_of (entries w') k = map_of (entries w) k)) \<and>
         (stored_project w' u pid = Some a \<or> stored_project w' u pid = Some p) \<and>
         map_of a ''status'' = Some (JStr ''archived'') \<and>
         map_of a ''updated'' = Some (JStr (clock w (tick w))) \<and>
         (\<forall>name. name \<noteq> ''status'' \<and> name \<noteq> ''updated'' \<longrightarrow> map_of a name = map_of p name) \<and>
         (faults w = [] \<longrightarrow> r = Inr True \<and> faults w' = []) \<and>
         (r = Inr True \<and> answers 1 w' \<longrightarrow>
            fst (getProjectById u pid w') = Inr (Some a) \<and>
            (\<exists>ps. fst (getUserProjects pf u w') = Inr ps \<and> a \<in> set ps))"
    by (simp add: Let_def)
qed

text \<open>C8 on the sample data: with a store that answers, and with a store that rejects
  the second call.\<close>

theorem deleteProject_archives_witness:
  "fst (deleteProject ''u1'' ''p1'' sample_world) = Inr True \<and>
   stored_project (snd (deleteProject ''u1'' ''p1'' sample_world)) ''u1'' ''p1''
     = Some (archived sample_project sample_time) \<and>
   map_of (archived sample_project sample_time) ''status'' = Some (JStr ''archived'') \<and>
   map_of (archived sample_project sample_time) ''name'' = map_of sample_project ''name'' \<and>
   fst (getProjectById ''u1'' ''p1'' (snd (deleteProject ''u1'' ''p1'' sample_world)))
     = Inr (Some (archived sample_project sample_time)) \<and>
   (\<exists>ps. fst (getUserProjects sample_platform ''u1''
               (snd (deleteProject ''u1'' ''p1'' sample_world))) = Inr ps \<and>
         archived sample_project sample_time \<in> set ps) \<and>
   fst (deleteProject ''u1'' ''p1'' (sample_world\<lparr>faults := [False, True]\<rparr>)) = Inr False \<and>
   entries (snd (deleteProject ''u1'' ''p1'' (sample_world\<lparr>faults := [False, True]\<rparr>)))
     = entries sample_world"
proof -
  note t = deleteProject_archives
  have sp: "stored_project sample_world ''u1'' ''p1'' = Some sample_project" by code_simp
  have ck: "clock sample_world (tick sample_world) = sample_time" by (simp add: sample_world_def)
  have fs: "faults sample_world = []" by (simp add: sample_world_def)
  have nm: "''name'' \<noteq> ''status'' \<and> ''name'' \<noteq> ''updated''" by simp
  let ?w = "snd (deleteProject ''u1'' ''p1'' sample_world)"
  from t[of sample_world "''u1''" "''p1''" sample_project sample_platform, THEN mp, OF sp]
  have a: "fst (deleteProject ''u1'' ''p1'' sample_world) = Inr True"
    and fw: "faults ?w = []"
    and b: "fst (deleteProject ''u1'' ''p1'' sample_world) = Inr True \<longrightarrow>
            stored_project ?w ''u1'' ''p1'' = Some (archived sample_project sample_time)"
    and c: "map_of (archived sample_project sample_time) ''status'' = Some (JStr ''archived'')"
    and d: "\<forall>name. name \<noteq> ''status'' \<and> name \<noteq> ''updated'' \<longrightarrow>
              map_of (archived sample_project sample_time) name = map_of sample_project name"
    and e: "fst (deleteProject ''u1'' ''p1'' sample_world) = Inr True \<and> answers 1 ?w \<longrightarrow>
            fst (getProjectById ''u1'' ''p1'' ?w) = Inr (Some (archived sample_project sample_time)) \<and>
            (\<exists>ps. fst (getUserProjects sample_platform ''u1'' ?w) = Inr ps \<and>
                  archived sample_project sample_time \<in> set ps)"
    by (simp_all add: Let_def ck fs)
  from fw have an: "answers 1 ?w" by (simp add: answers_def)
  let ?v = "sample_world\<lparr>faults := [False, True]\<rparr>"
  have sp2: "stored_project ?v ''u1'' ''p1'' = Some sample_project" by code_simp
  have na: "\<not> answers 2 ?v" by (simp add: answers_def)
  have ev: "entries ?v = entries sample_world" by simp
  from t[of ?v "''u1''" "''p1''" sample_project sample_platform, THEN mp, OF sp2] na
  have f: "fst (deleteProject ''u1'' ''p1'' ?v) = Inr False"
    by (simp add: Let_def)
  from t[of ?v "''u1''" "''p1''" sample_project sample_platform, THEN mp, OF sp2] f
  have g: "entries (snd (deleteProject ''u1'' ''p1'' ?v)) = entries ?v"
    by (simp add: Let_def)
  from a b c d[rule_format, OF nm] e an f g ev show ?thesis by simp
qed

text \<open>
  C8 as the spec states it fails: after \<open>deleteProject\<close> the project that
  \<open>getProjectById\<close> returns differs from the previous one in its \<open>updated\<close> too, not in
  the status alone; and when the store rejects the write, \<open>deleteProject\<close> returns
  \<open>false\<close> and the status is still \<open>active\<close>.
\<close>

theorem deleteProject_counterexample:
  "fst (getProjectById ''u1'' ''p1'' (snd (deleteProject ''u1'' ''p1'' sample_world)))
     \<noteq> Inr (Some (AList.update ''status'' (JStr ''archived'') sample_project)) \<and>
   map_option (\<lambda>p. map_of p ''updated'')
     (stored_project (snd (deleteProject ''u1'' ''p1'' sample_world)) ''u1'' ''p1'')
     \<noteq> Some (map_of sample_project ''updated'') \<and>
   fst (deleteProject ''u1'' ''p1'' (sample_world\<lparr>faults := [False, True]\<rparr>)) = Inr False \<and>
   map_option (\<lambda>p. map_of p ''status'')
     (stored_project (snd (deleteProject ''u1'' ''p1'' (sample_world\<lparr>faults := [False, True]\<rparr>)))
        ''u1'' ''p1'') = Some (Some (JStr ''active''))"
  by code_simp

lemma updateTask_keys:
  assumes "updateTask pf u pid tid ups w = (r, w')"
  shows "k \<noteq> projectKey u pid \<Longrightarrow> k \<noteq> taskKey u tid \<Longrightarrow>
         map_of (entries w') k = map_of (entries w) k"
  using updateTask_D[OF assms] by (auto simp: Let_def update_conv')

lemma frames_updateTask: "frames {projectKey u pid, taskKey u tid} (updateTask pf u pid tid ups)"
  unfolding frames_def using updateTask_keys by blast

text \<open>
  Claim C10, as the code has it. An \<open>updateProject\<close> that succeeds stores the project it
  returns; the \<open>id\<close> and the \<open>userId\<close> of that project are the arguments of the call,
  whatever the updates say (the previous values for a project stored under its own
  identity); its \<open>updated\<close> is the time of the call, every other property but \<open>progress\<close>
  is the one of the updates when they have it and the previous one otherwise, and
  \<open>progress\<close> is recomputed from the tasks when the updates carry a truthy \<open>tasks\<close>. An
  \<open>updateProject\<close> that fails leaves the store as it was. An \<open>updateTask\<close> that
  succeeds stores the task it returns under the task's key and in place of the previous
  one in the stored project, whose other properties but \<open>progress\<close> and \<open>updated\<close> are
  as before; the \<open>id\<close> of that task is the previous one and its \<open>projectId\<close> is the
  argument of the call, its \<open>updated\<close> is the time of the call and every other property
  is the one of the updates when they have it and the previous one otherwise. Whether
  \<open>updateTask\<close> succeeds or fails, the task's key afterwards holds what it held or a
  task with the \<open>id\<close> and the \<open>projectId\<close> of the call, the project's key holds what it
  held or the project with one task replaced by a task with that \<open>id\<close> and \<open>projectId\<close>,
  and every other key holds what it held.
\<close>

theorem update_pins_identity:
  "(fst (updateProject u pid ups w) = Inr p' \<longrightarrow>
      stored_project (snd (updateProject u pid ups w)) u pid = Some p' \<and>
      (\<exists>existing. stored_project w u pid = Some existing \<and>
         map_of p' ''id'' = Some (JStr pid) \<and> map_of p' ''userId'' = Some (JStr u) \<and>
         (map_of existing ''id'' = Some (JStr pid) \<and> map_of existing ''userId'' = Some (JStr u) \<longrightarrow>
            map_of p' ''id'' = map_of existing ''id'' \<and>
            map_of p' ''userId'' = map_of existing ''userId'') \<and>
         map_of p' ''updated'' = Some (JStr (clock w (tick w))) \<and>
         (\<forall>name. name \<notin> {''id'', ''userId'', ''updated'', ''progress''} \<longrightarrow>
            map_of p' name = overlaid existing ups name) \<and>
         (if replaces_tasks ups
          then \<exists>j. calculateProgress (map_of p' ''tasks'') = Inr j \<and>
                   map_of p' ''progress'' = Some j
          else map_of p' ''progress'' = overlaid existing ups ''progress''))) \<and>
   (isl (fst (updateProject u pid ups w)) \<longrightarrow>
      entries (snd (updateProject u pid ups w)) = entries w) \<and>
   (fst (updateTask pf u pid tid tus w) = Inr t' \<longrightarrow>
      stored_task (snd (updateTask pf u pid tid tus w)) u tid = Some t' \<and>
      (\<exists>project xs i q.
         stored_project w u pid = Some project \<and>
         map_of project ''tasks'' = Some (JArr xs) \<and> i < length xs \<and>
         field_of (xs ! i) ''id'' = Some (JStr tid) \<and>
         stored_project (snd (updateTask pf u pid tid tus w)) u pid = Some q \<and>
         map_of q ''tasks'' = Some (JArr (xs[i := JObj t'])) \<and>
         (\<forall>name. name \<notin> {''tasks'', ''progress'', ''updated''} \<longrightarrow>
            map_of q name = map_of project name) \<and>
         map_of t' ''id'' = Some (JStr tid) \<and> map_of t' ''id'' = field_of (xs ! i) ''id'' \<and>
         map_of t' ''projectId'' = Some (JStr pid) \<and>
         (field_of (xs ! i) ''projectId'' = Some (JStr pid) \<longrightarrow>
            map_of t' ''projectId'' = field_of (xs ! i) ''projectId'') \<and>
         map_of t' ''updated'' = Some (JStr (clock w (tick w))) \<and>
         (\<forall>name. name \<notin> {''id'', ''projectId'', ''updated''} \<longrightarrow>
            map_of t' name = overlaid (own_props (xs ! i)) tus name))) \<and>
   (let w' = snd (updateTask pf u pid tid tus w)
    in (stored_task w' u tid = stored_task w u tid \<or>
        (\<exists>t. stored_task w' u tid = Some t \<and> map_of t ''id'' = Some (JStr tid) \<and>
             map_of t ''projectId'' = Some (JStr pid))) \<and>
       (stored_project w' u pid = stored_project w u pid \<or>
        (\<exists>project xs i t q.
           stored_project w u pid = Some project \<and>
           map_of project ''tasks'' = Some (JArr xs) \<and> i < length xs \<and>
           stored_project w' u pid = Some q \<and>
           map_of q ''tasks'' = Some (JArr (xs[i := JObj t])) \<and>
           map_of t ''id'' = Some (JStr tid) \<and> map_of t ''projectId'' = Some (JStr pid))) \<and>
       (\<forall>k. k \<noteq> projectKey u pid \<and> k \<noteq> taskKey u tid \<longrightarrow>
          map_of (entries w') k = map_of (entries w) k))"
proof (intro conjI impI)
  assume a: "fst (updateProject u pid ups w) = Inr p'"
  obtain w' where c: "updateProject u pid ups w = (Inr p', w')"
    using a by (cases "updateProject u pid ups w") simp
  from updateProject_D[OF c] obtain existing where
    e: "map_of (entries w) (projectKey u pid) = Some existing" and
    p: "recalculated ups (updated_project existing u pid ups (clock w (tick w))) = Inr p'" and
    s: "map_of (entries w') (projectKey u pid) = Some p'"
    by auto
  let ?upd = "updated_project existing u pid ups (clock w (tick w))"
  from s c show "stored_project (snd (updateProject u pid ups w)) u pid = Some p'"
    by (simp add: stored_project_def)
  note props = updated_project_props[of existing u pid ups "clock w (tick w)"]
  note d = recalculated_D[OF p]
  have same: "name \<noteq> ''progress'' \<Longrightarrow> map_of p' name = map_of ?upd name" for name
    using d by (auto simp: update_conv' split: if_splits)
  have 1: "map_of p' ''id'' = Some (JStr pid)" using same[of "''id''"] props by simp
  have 2: "map_of p' ''userId'' = Some (JStr u)" using same[of "''userId''"] props by simp
  have 3: "map_of p' ''updated'' = Some (JStr (clock w (tick w)))"
    using same[of "''updated''"] props by simp
  have 4: "\<forall>name. name \<notin> {''id'', ''userId'', ''updated'', ''progress''} \<longrightarrow>
            map_of p' name = overlaid existing ups name"
    using same props by auto
  have 5: "if replaces_tasks ups
          then \<exists>j. calculateProgress (map_of p' ''tasks'') = Inr j \<and>
                   map_of p' ''progress'' = Some j
          else map_of p' ''progress'' = overlaid existing ups ''progress''"
  proof (cases "replaces_tasks ups")
    case True
    with d obtain j where j: "calculateProgress (map_of ?upd ''tasks'') = Inr j"
      "p' = AList.update ''progress'' j ?upd" by auto
    then have "calculateProgress (map_of p' ''tasks'') = Inr j \<and> map_of p' ''progress'' = Some j"
      using same[of "''tasks''"] by (simp add: update_conv')
    with True show ?thesis by auto
  next
    case False
    with d have "p' = ?upd" by simp
    with props False show ?thesis by simp
  qed
  from e 1 2 3 4 5
  show "\<exists>existing. stored_project w u pid = Some existing \<and>
         map_of p' ''id'' = Some (JStr pid) \<and> map_of p' ''userId'' = Some (JStr u) \<and>
         (map_of existing ''id'' = Some (JStr pid) \<and> map_of existing ''userId'' = Some (JStr u) \<longrightarrow>
            map_of p' ''id'' = map_of existing ''id'' \<and>
            map_of p' ''userId'' = map_of existing ''userId'') \<and>
         map_of p' ''updated'' = Some (JStr (clock w (tick w))) \<and>
         (\<forall>name. name \<notin> {''id'', ''userId'', ''updated'', ''progress''} \<longrightarrow>
            map_of p' name = overlaid existing ups name) \<and>
         (if replaces_tasks ups
          then \<exists>j. calculateProgress (map_of p' ''tasks'') = Inr j \<and>
                   map_of p' ''progress'' = Some j
          else map_of p' ''progress'' = overlaid existing ups ''progress'')"
    by (intro exI[of _ existing] conjI) (simp_all add: stored_project_def)
next
  assume a: "isl (fst (updateProject u pid ups w))"
  obtain r w' where c: "updateProject u pid ups w = (r, w')"
    by (cases "updateProject u pid ups w") simp
  with a have "isl r" by simp
  with updateProject_D[OF c] have "entries w' = entries w" by auto
  with c show "entries (snd (updateProject u pid ups w)) = entries w" by simp
next
  assume a: "fst (updateTask pf u pid tid tus w) = Inr t'"
  obtain w' where c: "updateTask pf u pid tid tus w = (Inr t', w')"
    using a by (cases "updateTask pf u pid tid tus w") simp
  from updateTask_D[OF c] obtain project xs i j where
    e0: "map_of (entries w) (projectKey u pid) = Some project" and
    ta: "tasks_array project = Inr xs" and
    i: "findIndexE (has_id tid) xs = Inr (Some i)" and
    r: "t' = updated_task (xs ! i) tid pid tus (clock w (tick w))" and
    e: "entries w' = AList.update (taskKey u tid) t'
          (AList.update (projectKey u pid)
             (AList.update ''updated'' (JStr (clock w (Suc (tick w))))
                (AList.update ''progress'' j
                   (AList.update ''tasks'' (JArr (xs[i := JObj t'])) project))) (entries w))"
    by (auto simp: Let_def)
  let ?q = "AList.update ''updated'' (JStr (clock w (Suc (tick w))))
                (AList.update ''progress'' j
                   (AList.update ''tasks'' (JArr (xs[i := JObj t'])) project))"
  from e c show "stored_task (snd (updateTask pf u pid tid tus w)) u tid = Some t'"
    by (simp add: stored_task_def update_conv')
  have sq: "stored_project w' u pid = Some ?q"
    using project_key_not_task by (simp add: stored_project_def e update_conv')
  from findIndexE_SomeD[OF i] have il: "i < length xs" and h: "has_id tid (xs ! i) = Inr True"
    by simp_all
  from has_id_TrueD[OF h] have oid: "field_of (xs ! i) ''id'' = Some (JStr tid)"
    by (auto simp: field_of_def)
  note props = updated_task_props[of "xs ! i" tid pid tus "clock w (tick w)"]
  have q1: "map_of ?q ''tasks'' = Some (JArr (xs[i := JObj t']))"
    by (simp add: update_conv')
  have q2: "\<forall>name. name \<notin> {''tasks'', ''progress'', ''updated''} \<longrightarrow>
            map_of ?q name = map_of project name"
    by (simp add: update_conv')
  have t1: "map_of t' ''id'' = Some (JStr tid)" using props by (simp add: r)
  have t2: "map_of t' ''projectId'' = Some (JStr pid)" using props by (simp add: r)
  have t3: "map_of t' ''updated'' = Some (JStr (clock w (tick w)))" using props by (simp add: r)
  have t4: "\<forall>name. name \<notin> {''id'', ''projectId'', ''updated''} \<longrightarrow>
            map_of t' name = overlaid (own_props (xs ! i)) tus name"
    using props by (simp add: r)
  have s0: "stored_project w u pid = Some project" using e0 by (simp add: stored_project_def)
  have s1: "stored_project (snd (updateTask pf u pid tid tus w)) u pid = Some ?q"
    using sq c by simp
  note ts = tasks_array_D[OF ta]
  from s0 ts il oid s1 q1 q2 t1 t2 t3 t4
  have "stored_project w u pid = Some project \<and>
         map_of project ''tasks'' = Some (JArr xs) \<and> i < length xs \<and>
         field_of (xs ! i) ''id'' = Some (JStr tid) \<and>
         stored_project (snd (updateTask pf u pid tid tus w)) u pid = Some ?q \<and>
         map_of ?q ''tasks'' = Some (JArr (xs[i := JObj t'])) \<and>
         (\<forall>name. name \<notin> {''tasks'', ''progress'', ''updated''} \<longrightarrow>
            map_of ?q name = map_of project name) \<and>
         map_of t' ''id'' = Some (JStr tid) \<and> map_of t' ''id'' = field_of (xs ! i) ''id'' \<and>
         map_of t' ''projectId'' = Some (JStr pid) \<and>
         (field_of (xs ! i) ''projectId'' = Some (JStr pid) \<longrightarrow>
            map_of t' ''projectId'' = field_of (xs ! i) ''projectId'') \<and>
         map_of t' ''updated'' = Some (JStr (clock w (tick w))) \<and>
         (\<forall>name. name \<notin> {''id'', ''projectId'', ''updated''} \<longrightarrow>
            map_of t' name = overlaid (own_props (xs ! i)) tus name)"
    by (intro conjI impI) simp_all
  then show "\<exists>project xs i q.
         stored_project w u pid = Some project \<and>
         map_of project ''tasks'' = Some (JArr xs) \<and> i < length xs \<and>
         field_of (xs ! i) ''id'' = Some (JStr tid) \<and>
         stored_project (snd (updateTask pf u pid tid tus w)) u pid = Some q \<and>
         map_of q ''tasks'' = Some (JArr (xs[i := JObj t'])) \<and>
         (\<forall>name. name \<notin> {''tasks'', ''progress'', ''updated''} \<longrightarrow>
            map_of q name = map_of project name) \<and>
         map_of t' ''id'' = Some (JStr tid) \<and> map_of t' ''id'' = field_of (xs ! i) ''id'' \<and>
         map_of t' ''projectId'' = Some (JStr pid) \<and>
         (field_of (xs ! i) ''projectId'' = Some (JStr pid) \<longrightarrow>
            map_of t' ''projectId'' = field_of (xs ! i) ''projectId'') \<and>
         map_of t' ''updated'' = Some (JStr (clock w (tick w))) \<and>
         (\<forall>name. name \<notin> {''id'', ''projectId'', ''updated''} \<longrightarrow>
            map_of t' name = overlaid (own_props (xs ! i)) tus name)"
    by (intro exI[of _ project] exI[of _ xs] exI[of _ i] exI[of _ ?q])
next
  obtain r w' where c: "updateTask pf u pid tid tus w = (r, w')"
    by (cases "updateTask pf u pid tid tus w") simp
  note D = updateTask_D[OF c]
  have keys: "\<forall>k. k \<noteq> projectKey u pid \<and> k \<noteq> taskKey u tid \<longrightarrow>
          map_of (entries w') k = map_of (entries w) k"
    using updateTask_keys[OF c] by blast
  have "(stored_task w' u tid = stored_task w u tid \<or>
        (\<exists>t. stored_task w' u tid = Some t \<and> map_of t ''id'' = Some (JStr tid) \<and>
             map_of t ''projectId'' = Some (JStr pid))) \<and>
       (stored_project w' u pid = stored_project w u pid \<or>
        (\<exists>project xs i t q.
           stored_project w u pid = Some project \<and>
           map_of project ''tasks'' = Some (JArr xs) \<and> i < length xs \<and>
           stored_project w' u pid = Some q \<and>
           map_of q ''tasks'' = Some (JArr (xs[i := JObj t])) \<and>
           map_of t ''id'' = Some (JStr tid) \<and> map_of t ''projectId'' = Some (JStr pid)))"
  proof (cases "entries w' = entries w")
    case True
    then show ?thesis by (simp add: stored_task_def stored_project_def)
  next
    case False
    with D obtain project xs i j where
      e0: "map_of (entries w) (projectKey u pid) = Some project" and
      ta: "tasks_array project = Inr xs" and
      i: "findIndexE (has_id tid) xs = Inr (Some i)" and
      e: "entries w' = AList.update (projectKey u pid)
             (AList.update ''updated'' (JStr (clock w (Suc (tick w))))
                (AList.update ''progress'' j
                   (AList.update ''tasks''
                      (JArr (xs[i := JObj (updated_task (xs ! i) tid pid tus (clock w (tick w)))]))
                      project))) (entries w) \<or>
          entries w' = AList.update (taskKey u tid)
             (updated_task (xs ! i) tid pid tus (clock w (tick w)))
             (AList.update (projectKey u pid)
               (AList.update ''updated'' (JStr (clock w (Suc (tick w))))
                (AList.update ''progress'' j
                   (AList.update ''tasks''
                      (JArr (xs[i := JObj (updated_task (xs ! i) tid pid tus (clock w (tick w)))]))
                      project))) (entries w))"
      by (auto simp: Let_def)
    let ?t = "updated_task (xs ! i) tid pid tus (clock w (tick w))"
    let ?q = "AList.update ''updated'' (JStr (clock w (Suc (tick w))))
                (AList.update ''progress'' j
                   (AList.update ''tasks'' (JArr (xs[i := JObj ?t])) project))"
    note props = updated_task_props[of "xs ! i" tid pid tus "clock w (tick w)"]
    from findIndexE_SomeD[OF i] have il: "i < length xs" by simp
    from e have sq: "stored_project w' u pid = Some ?q"
      using project_key_not_task by (auto simp: stored_project_def update_conv')
    from e have st: "stored_task w' u tid = stored_task w u tid \<or> stored_task w' u tid = Some ?t"
      using project_key_not_task[of u pid tid]
      by (auto simp: stored_task_def update_conv')
    have "\<exists>project xs i t q.
           stored_project w u pid = Some project \<and>
           map_of project ''tasks'' = Some (JArr xs) \<and> i < length xs \<and>
           stored_project w' u pid = Some q \<and>
           map_of q ''tasks'' = Some (JArr (xs[i := JObj t])) \<and>
           map_of t ''id'' = Some (JStr tid) \<and> map_of t ''projectId'' = Some (JStr pid)"
      using e0 tasks_array_D[OF ta] il sq props
      by (intro exI[of _ project] exI[of _ xs] exI[of _ i] exI[of _ ?t] exI[of _ ?q])
        (simp add: stored_project_def update_conv')
    moreover from st props
    have "stored_task w' u tid = stored_task w u tid \<or>
        (\<exists>t. stored_task w' u tid = Some t \<and> map_of t ''id'' = Some (JStr tid) \<and>
             map_of t ''projectId'' = Some (JStr pid))"
      by auto
    ultimately show ?thesis by blast
  qed
  with keys c show "let w' = snd (updateTask pf u pid tid tus w)
    in (stored_task w' u tid = stored_task w u tid \<or>
        (\<exists>t. stored_task w' u tid = Some t \<and> map_of t ''id'' = Some (JStr tid) \<and>
             map_of t ''projectId'' = Some (JStr pid))) \<and>
       (stored_project w' u pid = stored_project w u pid \<or>
        (\<exists>project xs i t q.
           stored_project w u pid = Some project \<and>
           map_of project ''tasks'' = Some (JArr xs) \<and> i < length xs \<and>
           stored_project w' u pid = Some q \<and>
           map_of q ''tasks'' = Some (JArr (xs[i := JObj t])) \<and>
           map_of t ''id'' = Some (JStr tid) \<and> map_of t ''projectId'' = Some (JStr pid))) \<and>
       (\<forall>k. k \<noteq> projectKey u pid \<and> k \<noteq> taskKey u tid \<longrightarrow>
          map_of (entries w') k = map_of (entries w) k)"
    by (simp add: Let_def)
qed

text \<open>C10 on the sample data, with updates that try to overwrite the identity and the
  time of the update, and with updates that are \<open>null\<close>.\<close>

theorem update_pins_identity_witness:
  "(\<exists>p'. fst (updateProject ''u1'' ''p1''
               (JObj [(''id'', JStr ''p9''), (''userId'', JStr ''u9''),
                      (''name'', JStr ''Annual report''), (''updated'', JStr ''never'')])
               sample_world) = Inr p' \<and>
         stored_project
           (snd (updateProject ''u1'' ''p1''
               (JObj [(''id'', JStr ''p9''), (''userId'', JStr ''u9''),
                      (''name'', JStr ''Annual report''), (''updated'', JStr ''never'')])
               sample_world)) ''u1'' ''p1'' = Some p' \<and>
         map_of p' ''id'' = Some (JStr ''p1'') \<and> map_of p' ''userId'' = Some (JStr ''u1'') \<and>
         map_of p' ''name'' = Some (JStr ''Annual report'') \<and>
         map_of p' ''updated'' = Some (JStr sample_time) \<and>
         map_of p' ''progress'' = Some (JNum 0)) \<and>
   entries (snd (updateProject ''u1'' ''p1'' JNull sample_world)) = entries sample_world \<and>
   (\<exists>t'. fst (updateTask sample_platform ''u1'' ''p1'' ''t1''
               (JObj [(''id'', JStr ''t9''), (''projectId'', JStr ''p9''),
                      (''title'', JStr ''Write the summary'')]) sample_world) = Inr t' \<and>
         stored_task
           (snd (updateTask sample_platform ''u1'' ''p1'' ''t1''
               (JObj [(''id'', JStr ''t9''), (''projectId'', JStr ''p9''),
                      (''title'', JStr ''Write the summary'')]) sample_world)) ''u1'' ''t1''
           = Some t' \<and>
         map_of t' ''id'' = Some (JStr ''t1'') \<and> map_of t' ''projectId'' = Some (JStr ''p1'') \<and>
         map_of t' ''updated'' = Some (JStr sample_time)) \<and>
   map_of (entries (snd (updateTask sample_platform ''u1'' ''p1'' ''t1''
               (JObj [(''id'', JStr ''t9''), (''projectId'', JStr ''p9''),
                      (''title'', JStr ''Write the summary'')]) sample_world)))
       ''user:u1:project:p2''
     = map_of (entries sample_world) ''user:u1:project:p2''"
proof -
  let ?ups = "JObj [(''id'', JStr ''p9''), (''userId'', JStr ''u9''),
                      (''name'', JStr ''Annual report''), (''updated'', JStr ''never'')]"
  let ?tus = "JObj [(''id'', JStr ''t9''), (''projectId'', JStr ''p9''),
                      (''title'', JStr ''Write the summary'')]"
  note t = update_pins_identity
  have sp: "stored_project sample_world ''u1'' ''p1'' = Some sample_project" by code_simp
  have ck: "clock sample_world (tick sample_world) = sample_time" by (simp add: sample_world_def)
  have nr: "\<not> replaces_tasks ?ups" by (simp add: replaces_tasks_def field_of_def)
  have o1: "overlaid sample_project ?ups ''name'' = Some (JStr ''Annual report'')"
    by code_simp
  have o2: "overlaid sample_project ?ups ''progress'' = Some (JNum 0)"
    by code_simp
  have "\<not> isl (fst (updateProject ''u1'' ''p1'' ?ups sample_world))" by code_simp
  then obtain p' where 1: "fst (updateProject ''u1'' ''p1'' ?ups sample_world) = Inr p'"
    using not_isl_Inr by blast
  from t[THEN conjunct1, THEN mp, OF 1] sp ck nr o1 o2
  have "stored_project (snd (updateProject ''u1'' ''p1'' ?ups sample_world)) ''u1'' ''p1'' = Some p' \<and>
        map_of p' ''id'' = Some (JStr ''p1'') \<and> map_of p' ''userId'' = Some (JStr ''u1'') \<and>
        map_of p' ''name'' = Some (JStr ''Annual report'') \<and>
        map_of p' ''updated'' = Some (JStr sample_time) \<and>
        map_of p' ''progress'' = Some (JNum 0)"
    by auto
  with 1 have a: "\<exists>p'. fst (updateProject ''u1'' ''p1'' ?ups sample_world) = Inr p' \<and>
         stored_project (snd (updateProject ''u1'' ''p1'' ?ups sample_world)) ''u1'' ''p1'' = Some p' \<and>
         map_of p' ''id'' = Some (JStr ''p1'') \<and> map_of p' ''userId'' = Some (JStr ''u1'') \<and>
         map_of p' ''name'' = Some (JStr ''Annual report'') \<and>
         map_of p' ''updated'' = Some (JStr sample_time) \<and>
         map_of p' ''progress'' = Some (JNum 0)"
    by blast
  have f: "isl (fst (updateProject ''u1'' ''p1'' JNull sample_world))" by code_simp
  from t[THEN conjunct2, THEN conjunct1, THEN mp, OF f]
  have b: "entries (snd (updateProject ''u1'' ''p1'' JNull sample_world)) = entries sample_world" .
  have "\<not> isl (fst (updateTask sample_platform ''u1'' ''p1'' ''t1'' ?tus sample_world))"
    by code_simp
  then obtain t' where
    2: "fst (updateTask sample_platform ''u1'' ''p1'' ''t1'' ?tus sample_world) = Inr t'"
    using not_isl_Inr by blast
  from t[THEN conjunct2, THEN conjunct2, THEN conjunct1, THEN mp, OF 2] ck
  have "stored_task (snd (updateTask sample_platform ''u1'' ''p1'' ''t1'' ?tus sample_world))
          ''u1'' ''t1'' = Some t' \<and>
        map_of t' ''id'' = Some (JStr ''t1'') \<and> map_of t' ''projectId'' = Some (JStr ''p1'') \<and>
        map_of t' ''updated'' = Some (JStr sample_time)"
    by auto
  with 2 have c: "\<exists>t'. fst (updateTask sample_platform ''u1'' ''p1'' ''t1'' ?tus sample_world) = Inr t' \<and>
         stored_task (snd (updateTask sample_platform ''u1'' ''p1'' ''t1'' ?tus sample_world))
           ''u1'' ''t1'' = Some t' \<and>
         map_of t' ''id'' = Some (JStr ''t1'') \<and> map_of t' ''projectId'' = Some (JStr ''p1'') \<and>
         map_of t' ''updated'' = Some (JStr sample_time)"
    by blast
  have k: "''user:u1:project:p2'' \<noteq> projectKey ''u1'' ''p1'' \<and>
           ''user:u1:project:p2'' \<noteq> taskKey ''u1'' ''t1''"
    by (simp add: projectKey_def taskKey_def)
  from t[THEN conjunct2, THEN conjunct2, THEN conjunct2, of sample_platform "''u1''" "''p1''"
         "''t1''" ?tus sample_world] k
  have d: "map_of (entries (snd (updateTask sample_platform ''u1'' ''p1'' ''t1'' ?tus sample_world)))
       ''user:u1:project:p2''
     = map_of (entries sample_world) ''user:u1:project:p2''"
    by (simp add: Let_def)
  from a b c d show ?thesis by (intro conjI)
qed

text \<open>
  C10 as the spec states it fails twice: updates that carry only a \<open>tasks\<close> array also
  change \<open>progress\<close>; and a task that was embedded with another \<open>projectId\<close> (through a
  replaced \<open>tasks\<close> array) has it rewritten to the project of the call by an
  \<open>updateTask\<close> whose updates are empty.
\<close>

theorem update_changes_beyond_supplied_counterexample:
  "field_of (JObj [(''tasks'', JArr [JObj (AList.update ''status'' (JStr ''completed'') sample_task)])])
      ''progress'' = None \<and>
   map_of sample_project ''progress'' = Some (JNum 0) \<and>
   map_option (\<lambda>p. map_of p ''progress'')
     (stored_project
        (snd (updateProject ''u1'' ''p1''
                (JObj [(''tasks'', JArr [JObj (AList.update ''status'' (JStr ''completed'') sample_task)])])
                sample_world)) ''u1'' ''p1'') = Some (Some (JNum 100)) \<and>
   map_option (\<lambda>p. map_of p ''tasks'')
     (stored_project
        (snd (updateProject ''u1'' ''p1''
                (JObj [(''tasks'', JArr [JObj (AList.update ''projectId'' (JStr ''p2'') sample_task)])])
                sample_world)) ''u1'' ''p1'')
     = Some (Some (JArr [JObj (AList.update ''projectId'' (JStr ''p2'') sample_task)])) \<and>
   map_of (AList.update ''projectId'' (JStr ''p2'') sample_task) ''projectId'' = Some (JStr ''p2'') \<and>
   (case fst (updateTask sample_platform ''u1'' ''p1'' ''t1'' (JObj [])
                (snd (updateProject ''u1'' ''p1''
                        (JObj [(''tasks'', JArr [JObj (AList.update ''projectId'' (JStr ''p2'') sample_task)])])
                        sample_world))) of
      Inl e \<Rightarrow> False
    | Inr t \<Rightarrow> map_of t ''projectId'' = Some (JStr ''p1''))"
  by code_simp

subsection \<open>Analytics aggregator\<close>

text \<open>
  Claim C9. \<open>recordActivity\<close> returns normally for every user, every activity (whatever
  its metadata and its timestamp), every platform and every state of the store and its
  faults, and so do the three updates it calls. The failures it swallows do occur: a store
  call that rejects, and an hour slot of the stored patterns that is a number, whose
  property cannot be assigned. A timestamp that is no date and a duration that is a string
  raise nothing: the day key is \<open>Invalid Date\<close>, and the counter becomes a string by
  concatenation.
\<close>

theorem recordActivity_never_throws:
  "fst (recordActivity pf userId activity w) = Inr () \<and>
   fst (updateDailyMetrics pf userId dayKey activity w) = Inr () \<and>
   fst (updateHourlyPatterns pf userId hour activity w) = Inr () \<and>
   fst (updatePeriodMetrics pf userId date activity w) = Inr () \<and>
   fst (kv_get ''user:u1:patterns:hourly'' (empty_world\<lparr>faults := [True]\<rparr>)) = Inl StoreError \<and>
   bump_slot sample_platform ''capture'' (JNum 3) = Inl TypeError \<and>
   map_of (daily_switch sample_platform
             \<lparr>a_type = FocusSession, a_metadata = Some (JObj [(''duration'', JStr ''an hour'')]),
              a_timestamp = None\<rparr> (load zero_metrics)) ''deepWorkTime''
     = Some (Json (JStr ''0an hour'')) \<and>
   toDateString (sample_parse (Some (JStr ''the day after''))) = ''Invalid Date''"
proof -
  have "fst (recordActivity pf userId activity w) = Inr ()"
    by (simp add: recordActivity_def tryCatch_def returnE_def split: prod.splits sum.splits)
  moreover have "fst (updateDailyMetrics pf userId dayKey activity w) = Inr ()"
    by (simp add: updateDailyMetrics_def tryCatch_def returnE_def split: prod.splits sum.splits)
  moreover have "fst (updateHourlyPatterns pf userId hour activity w) = Inr ()"
    by (simp add: updateHourlyPatterns_def tryCatch_def returnE_def split: prod.splits sum.splits)
  moreover have "fst (updatePeriodMetrics pf userId date activity w) = Inr ()"
    by (simp add: updatePeriodMetrics_def tryCatch_def returnE_def split: prod.splits sum.splits)
  moreover have
    "fst (kv_get ''user:u1:patterns:hourly'' (empty_world\<lparr>faults := [True]\<rparr>)) = Inl StoreError"
    by (simp add: kv_get_def store_call_def empty_world_def)
  moreover have "bump_slot sample_platform ''capture'' (JNum 3) = Inl TypeError"
    by (simp add: bump_slot_def)
  moreover have "map_of (daily_switch sample_platform
             \<lparr>a_type = FocusSession, a_metadata = Some (JObj [(''duration'', JStr ''an hour'')]),
              a_timestamp = None\<rparr> (load zero_metrics)) ''deepWorkTime''
     = Some (Json (JStr ''0an hour''))"
    by code_simp
  moreover have "toDateString (sample_parse (Some (JStr ''the day after''))) = ''Invalid Date''"
    by (simp add: toDateString_def sample_parse_def sample_time_def)
  ultimately show ?thesis by (intro conjI)
qed

text \<open>
  Claim C1 fails on the code. Completing the pending task of the sample project through
  \<open>updateTask\<close> returns the completed task and writes the project and the task, and
  nothing else: no \<open>task_complete\<close> activity is recorded. Recording that activity would
  have written the daily, hourly, weekly and monthly keys.
\<close>

theorem updateTask_completion_not_recorded:
  "(case fst (updateTask sample_platform ''u1'' ''p1'' ''t1''
                (JObj [(''status'', JStr ''completed'')]) sample_world) of
      Inl e \<Rightarrow> False
    | Inr t \<Rightarrow> map_of t ''status'' = Some (JStr ''completed'')) \<and>
   map_of sample_task ''status'' = Some (JStr ''pending'') \<and>
   map fst (entries (snd (updateTask sample_platform ''u1'' ''p1'' ''t1''
                (JObj [(''status'', JStr ''completed'')]) sample_world)))
     = [''user:u1:project:p1'', ''user:u1:task:t1''] \<and>
   map fst (entries (snd (recordActivity sample_platform ''u1''
                \<lparr>a_type = TaskComplete, a_metadata = None, a_timestamp = None\<rparr> sample_world)))
     = [''user:u1:project:p1'', ''user:u1:task:t1'', ''user:u1:metrics:Tue Mar 05 2024'',
        ''user:u1:patterns:hourly'', ''user:u1:metrics:weekly:2024-2-W1'',
        ''user:u1:metrics:monthly:2024-2'']"
  by code_simp

text \<open>
  Claim C4 fails on the code. A focus session of 30 minutes adds 30 to \<open>deepWorkTime\<close> and
  sets \<open>focusScore\<close> to 60 in the daily bucket, and leaves the weekly and the monthly
  bucket at zero; a meeting adds its duration to the daily \<open>meetingTime\<close> only. A focus
  session of 3 minutes on a bucket with 5 minutes of meetings sets the daily \<open>focusScore\<close>
  to 22 (the double \<open>22.499999999999996\<close>, rounded), and changes nothing in a period
  bucket.
\<close>

theorem period_rollup_ignores_duration:
  "map_of (entries (snd (recordActivity sample_platform ''u1'' focus_session_30 empty_world)))
      ''user:u1:metrics:Tue Mar 05 2024''
     = Some (AList.update ''deepWorkTime'' (JNum 30)
               (AList.update ''focusScore'' (JNum 60) zero_metrics)) \<and>
   map_of (entries (snd (recordActivity sample_platform ''u1'' focus_session_30 empty_world)))
      ''user:u1:metrics:weekly:2024-2-W1''
     = Some zero_metrics \<and>
   map_of (entries (snd (recordActivity sample_platform ''u1'' focus_session_30 empty_world)))
      ''user:u1:metrics:monthly:2024-2''
     = Some zero_metrics \<and>
   unload (daily_switch sample_platform (focus_session_30\<lparr>a_type := Meeting\<rparr>)
             (load zero_metrics))
     = AList.update ''meetingTime'' (JNum 30) zero_metrics \<and>
   unload (period_switch sample_platform (focus_session_30\<lparr>a_type := Meeting\<rparr>)
             (load zero_metrics))
     = zero_metrics \<and>
   unload (daily_switch sample_platform
             \<lparr>a_type = FocusSession, a_metadata = Some (JObj [(''duration'', JNum 3)]),
              a_timestamp = None\<rparr>
             (load (AList.update ''meetingTime'' (JNum 5) zero_metrics)))
     = AList.update ''deepWorkTime'' (JNum 3)
         (AList.update ''focusScore'' (JNum 22)
            (AList.update ''meetingTime'' (JNum 5) zero_metrics)) \<and>
   unload (period_switch sample_platform
             \<lparr>a_type = FocusSession, a_metadata = Some (JObj [(''duration'', JNum 3)]),
              a_timestamp = None\<rparr>
             (load (AList.update ''meetingTime'' (JNum 5) zero_metrics)))
     = AList.update ''meetingTime'' (JNum 5) zero_metrics"
  by code_simp

end
